(* ===== verification/Prelude.thy ===== *)
theory Prelude
  imports Main "HOL-Library.Word" "HOL-Library.AList"
begin

text \<open>
  The shared layer of the development: the machine types, the Rust result type, the
  iterator \<open>(lo..hi).step_by(s)\<close>, and hash maps.

  Machine integers are kept at their width (\<open>'n word\<close>) wherever the code can overflow
  them, with the wrap-around of the release profile that the README builds.  Lengths of
  vectors and slices are natural numbers.  A panic and an error return are both values of
  \<open>rust_error\<close>; \<open>Inl\<close> is the failure and \<open>Inr\<close> the normal return.
\<close>

section \<open>Collections of facts\<close>

named_theorems result_simps "unfolding of the question-mark operator and of Rust results"
named_theorems hmap_simps "lookups in updated hash maps"

section \<open>Types\<close>

type_synonym byte = "8 word"
type_synonym bytes = "8 word list"
type_synonym u8 = "8 word"
type_synonym u32 = "32 word"
type_synonym u64 = "64 word"
type_synonym i64 = "64 word"

lemma byte_bound: "unat (x :: byte) < 256"
  using unsigned_less [of x, where ?'a = nat] by simp

text \<open>A signed 64-bit value as an integer: the result of an operation that wraps.\<close>

definition i64_wrap :: "int \<Rightarrow> int" where
  "i64_wrap x = (x + 2 ^ 63) mod 2 ^ 64 - 2 ^ 63"

lemma i64_wrap_id: "- (2 ^ 63) \<le> x \<Longrightarrow> x < 2 ^ 63 \<Longrightarrow> i64_wrap x = x"
  by (simp add: i64_wrap_def)

text \<open>A string holds its UTF-8 bytes, one character for each.\<close>

definition as_bytes :: "string \<Rightarrow> bytes" where
  "as_bytes s = map of_char s"

datatype rust_error = Err string | Panic

type_synonym 'a result = "rust_error + 'a"

text \<open>The question-mark operator: a failure is returned at once.\<close>

definition try_then :: "'a result \<Rightarrow> ('a \<Rightarrow> 'b result) \<Rightarrow> 'b result" where
  "try_then r k = (case r of Inl e \<Rightarrow> Inl e | Inr a \<Rightarrow> k a)"

lemma try_then_Inr [simp, result_simps]: "try_then (Inr a) k = k a"
  by (simp add: try_then_def)

lemma try_then_Inl [simp, result_simps]: "try_then (Inl e) k = Inl e"
  by (simp add: try_then_def)

lemma try_then_eq_Inr [result_simps]:
  "try_then r k = Inr b \<longleftrightarrow> (\<exists>a. r = Inr a \<and> k a = Inr b)"
  by (cases r) auto

text \<open>An operation that may panic, seen as a result.\<close>

definition or_panic :: "'a option \<Rightarrow> 'a result" where
  "or_panic x = (case x of None \<Rightarrow> Inl Panic | Some a \<Rightarrow> Inr a)"

lemma or_panic_simps [simp, result_simps]:
  "or_panic None = Inl Panic" "or_panic (Some a) = Inr a"
  by (simp_all add: or_panic_def)

lemma or_panic_eq_Inr [result_simps]: "or_panic x = Inr a \<longleftrightarrow> x = Some a"
  by (cases x) auto

definition is_ok :: "'a result \<Rightarrow> bool" where
  "is_ok r = (case r of Inl _ \<Rightarrow> False | Inr _ \<Rightarrow> True)"

lemma is_ok_simps [simp]: "is_ok (Inr a)" "\<not> is_ok (Inl e)"
  by (simp_all add: is_ok_def)

text \<open>Indexing a slice: out of range is a panic.\<close>

definition index_or_panic :: "'a list \<Rightarrow> nat \<Rightarrow> 'a result" where
  "index_or_panic xs i = (if i < length xs then Inr (xs ! i) else Inl Panic)"

lemma index_or_panic_in [simp]: "i < length xs \<Longrightarrow> index_or_panic xs i = Inr (xs ! i)"
  by (simp add: index_or_panic_def)

section \<open>Slices and stepping iterators\<close>

text \<open>\<open>xs[a..b]\<close>, for \<open>a \<le> b \<le> length xs\<close>.\<close>

definition sub_slice :: "nat \<Rightarrow> nat \<Rightarrow> 'a list \<Rightarrow> 'a list" where
  "sub_slice a b xs = take (b - a) (drop a xs)"

lemma length_sub_slice: "b \<le> length xs \<Longrightarrow> length (sub_slice a b xs) = b - a"
  by (simp add: sub_slice_def)

text \<open>The values of \<open>(lo..hi).step_by(s)\<close>; the code calls it with \<open>0 < s\<close> only.\<close>

function step_by :: "nat \<Rightarrow> nat \<Rightarrow> nat \<Rightarrow> nat list" where
  "step_by lo hi s = (if lo < hi \<and> 0 < s then lo # step_by (lo + s) hi s else [])"
  by pat_completeness auto
termination
  by (relation "measure (\<lambda>(lo, hi, s). hi - lo)") auto

declare step_by.simps [simp del]

lemma step_by_empty [simp]: "hi \<le> lo \<Longrightarrow> step_by lo hi s = []"
  by (subst step_by.simps) simp

lemma step_by_Cons: "lo < hi \<Longrightarrow> 0 < s \<Longrightarrow> step_by lo hi s = lo # step_by (lo + s) hi s"
  by (subst step_by.simps) simp

lemma step_by_shift: "step_by (lo + k) (hi + k) s = map (\<lambda>i. i + k) (step_by lo hi s)"
proof (induction lo hi s rule: step_by.induct)
  case (1 lo hi s)
  show ?case
  proof (cases "lo < hi \<and> 0 < s")
    case True
    with "1.IH" have "step_by (lo + k + s) (hi + k) s = map (\<lambda>i. i + k) (step_by (lo + s) hi s)"
      by (simp add: ac_simps)
    with True show ?thesis by (simp add: step_by_Cons)
  next
    case False
    then show ?thesis by (auto simp: step_by.simps [of "lo + k"] step_by.simps [of lo])
  qed
qed

text \<open>One unfolding from 0, with the tail shifted back to start at 0.\<close>

lemma step_by_0:
  assumes "0 < n" and "0 < s"
  shows "step_by 0 n s = 0 # map (\<lambda>i. i + s) (step_by 0 (n - s) s)"
proof (cases "n \<le> s")
  case True
  with assms show ?thesis by (simp add: step_by_Cons)
next
  case False
  with assms show ?thesis
    using step_by_shift [of 0 s "n - s" s] by (simp add: step_by_Cons)
qed

lemma step_by_bounds: "i \<in> set (step_by lo hi s) \<Longrightarrow> lo \<le> i \<and> i < hi"
proof (induction lo hi s rule: step_by.induct)
  case (1 lo hi s)
  then show ?case
    by (cases "lo < hi \<and> 0 < s") (auto simp: step_by.simps [of lo hi s])
qed

section \<open>Hash maps\<close>

text \<open>
  A \<open>HashMap\<close> is an association list with distinct keys.  Its order stands for the iteration
  order, which the standard library leaves open: every statement below holds for all
  association lists with distinct keys, hence for every iteration order.
\<close>

type_synonym ('k, 'v) hmap = "('k \<times> 'v) list"

definition hm_empty :: "('k, 'v) hmap" where
  "hm_empty = []"

definition hm_get :: "('k, 'v) hmap \<Rightarrow> 'k \<Rightarrow> 'v option" where
  "hm_get m k = map_of m k"

definition hm_insert :: "'k \<Rightarrow> 'v \<Rightarrow> ('k, 'v) hmap \<Rightarrow> ('k, 'v) hmap" where
  "hm_insert k v m = AList.update k v m"

definition hm_remove :: "'k \<Rightarrow> ('k, 'v) hmap \<Rightarrow> ('k, 'v) hmap" where
  "hm_remove k m = AList.delete k m"

definition hm_values :: "('k, 'v) hmap \<Rightarrow> 'v list" where
  "hm_values m = map snd m"

definition hm_inv :: "('k, 'v) hmap \<Rightarrow> bool" where
  "hm_inv m = distinct (map fst m)"

text \<open>
  The contract of a map that the clients rely on.  \<open>entries\<close> is what an iterator over the map
  yields.
\<close>

locale kv_map =
  fixes empty :: "'m"
    and get :: "'m \<Rightarrow> 'k \<Rightarrow> 'v option"
    and ins :: "'k \<Rightarrow> 'v \<Rightarrow> 'm \<Rightarrow> 'm"
    and del :: "'k \<Rightarrow> 'm \<Rightarrow> 'm"
    and entries :: "'m \<Rightarrow> ('k \<times> 'v) list"
    and inv :: "'m \<Rightarrow> bool"
  assumes inv_empty: "inv empty"
    and get_empty: "get empty k = None"
    and inv_ins: "inv m \<Longrightarrow> inv (ins k v m)"
    and get_ins: "get (ins k v m) k' = (if k' = k then Some v else get m k')"
    and inv_del: "inv m \<Longrightarrow> inv (del k m)"
    and get_del: "get (del k m) k' = (if k' = k then None else get m k')"
    and entries_get: "inv m \<Longrightarrow> (k, v) \<in> set (entries m) \<longleftrightarrow> get m k = Some v"
    and entries_distinct: "inv m \<Longrightarrow> distinct (map fst (entries m))"
begin

lemma get_ins_same: "get (ins k v m) k = Some v"
  by (simp add: get_ins)

lemma get_ins_other: "k' \<noteq> k \<Longrightarrow> get (ins k v m) k' = get m k'"
  by (simp add: get_ins)

lemma get_del_same: "get (del k m) k = None"
  by (simp add: get_del)

lemma keys_entries: "inv m \<Longrightarrow> k \<in> fst ` set (entries m) \<longleftrightarrow> get m k \<noteq> None"
  using entries_get by force

lemma entries_ins:
  assumes "inv m"
  shows "set (entries (ins k v m)) = insert (k, v) {e \<in> set (entries m). fst e \<noteq> k}"
  using assms inv_ins [OF assms, of k v] by (auto simp: entries_get get_ins split: if_splits)

lemma entries_del:
  assumes "inv m"
  shows "set (entries (del k m)) = {e \<in> set (entries m). fst e \<noteq> k}"
  using assms inv_del [OF assms, of k] by (auto simp: entries_get get_del split: if_splits)

text \<open>Summing over an iterator counts every key once, in whatever order it is visited.\<close>

lemma sum_entries_insert:
  assumes "inv m"
  shows "(\<Sum>e \<in> set (entries (ins k v m)). f (snd e)) =
    (f v :: nat) + (\<Sum>e \<in> set (entries (del k m)). f (snd e))"
proof -
  have "(k, v) \<notin> {e \<in> set (entries m). fst e \<noteq> k}" by simp
  then show ?thesis using assms by (simp add: entries_ins entries_del)
qed

end

interpretation hm: kv_map hm_empty hm_get hm_insert hm_remove "\<lambda>m. m" hm_inv
proof
  fix m :: "('k, 'v) hmap" and k :: 'k and v :: 'v
  assume "hm_inv m"
  then show "((k, v) \<in> set m) = (hm_get m k = Some v)"
    by (simp add: hm_inv_def hm_get_def)
qed (auto simp: hm_empty_def hm_get_def hm_insert_def hm_remove_def hm_inv_def
    update_conv' delete_conv' distinct_update distinct_delete)

lemmas hm_laws [hmap_simps] = hm.get_empty hm.get_ins hm.get_del
lemmas hm_inv_laws [intro] = hm.inv_empty hm.inv_ins hm.inv_del

lemma hm_get_in: "hm_get m k = Some v \<Longrightarrow> (k, v) \<in> set m"
  by (simp add: hm_get_def map_of_SomeD)

lemma hm_values_sum:
  assumes "hm_inv m"
  shows "sum_list (map f (hm_values m)) = (\<Sum>e \<in> set m. f (snd e))"
proof -
  from assms have "distinct m" by (auto simp: hm_inv_def distinct_map)
  then show ?thesis by (simp add: hm_values_def sum_list_distinct_conv_sum_set o_def)
qed

text \<open>Iterating over a map with \<open>values_mut\<close>: each value is rewritten in place.\<close>

lemma hm_inv_map_values: "hm_inv m \<Longrightarrow> hm_inv (map (\<lambda>(k, v). (k, f k v)) m)"
  by (simp add: hm_inv_def o_def case_prod_unfold)

lemma hm_get_map_values [hmap_simps]:
  "hm_get (map (\<lambda>(k, v). (k, f k v)) m) k = map_option (f k) (hm_get m k)"
  by (induction m) (auto simp: hm_get_def)

end
