(* ===== verification/CoreTypes.thy ===== *)
theory CoreTypes
  imports Prelude
begin

text \<open>
  core/src/types.rs: the constants of the storage format, chunk identifiers, keys and the
  proof-of-storage messages.  The BLAKE3 hash and the hex codec are third-party crates: they
  are the fields of \<open>crypto\<close>, an argument of every definition that uses them, and
  \<open>crypto_laws\<close> is what their documentation says: a digest has 32 bytes, decoding inverts
  encoding, and the encoding of bytes has two characters per byte.
\<close>

section \<open>Constants\<close>

definition CHUNK_SIZE :: nat where
  "CHUNK_SIZE = 4 * 1024 * 1024"

definition BLOCK_SIZE :: nat where
  "BLOCK_SIZE = CHUNK_SIZE"

definition RS_DATA_SHARDS :: nat where
  "RS_DATA_SHARDS = 3"

definition RS_PARITY_SHARDS :: nat where
  "RS_PARITY_SHARDS = 2"

definition RS_TOTAL_SHARDS :: nat where
  "RS_TOTAL_SHARDS = RS_DATA_SHARDS + RS_PARITY_SHARDS"

definition KEY_LEN :: nat where
  "KEY_LEN = 32"

definition NONCE_LEN :: nat where
  "NONCE_LEN = 24"

definition TAG_LEN :: nat where
  "TAG_LEN = 16"

definition SALT_LEN :: nat where
  "SALT_LEN = 32"

definition DERIVED_KEY_LEN :: nat where
  "DERIVED_KEY_LEN = 32"

definition HEARTBEAT_INTERVAL_SECS :: nat where
  "HEARTBEAT_INTERVAL_SECS = 900"

definition REPLICATION_TIMEOUT_SECS :: nat where
  "REPLICATION_TIMEOUT_SECS = 600"

definition EXPORT_WINDOW_SECS :: nat where
  "EXPORT_WINDOW_SECS = 48 * 3600"

lemma CHUNK_SIZE_pos [simp]: "0 < CHUNK_SIZE"
  by (simp add: CHUNK_SIZE_def)

lemma CHUNK_SIZE_bound: "4 \<le> CHUNK_SIZE" "CHUNK_SIZE < 2 ^ 32"
  by (simp_all add: CHUNK_SIZE_def)

lemmas shard_count_defs = RS_DATA_SHARDS_def RS_PARITY_SHARDS_def RS_TOTAL_SHARDS_def

section \<open>The hash and the hex codec\<close>

record crypto =
  blake3 :: "bytes \<Rightarrow> bytes"
  hex_encode :: "bytes \<Rightarrow> string"
  hex_decode :: "string \<Rightarrow> bytes option"

definition crypto_laws :: "crypto \<Rightarrow> bool" where
  "crypto_laws cr \<longleftrightarrow>
     (\<forall>b. length (blake3 cr b) = 32) \<and>
     (\<forall>b. hex_decode cr (hex_encode cr b) = Some b) \<and>
     (\<forall>b. length (hex_encode cr b) = 2 * length b)"

lemma blake3_length [simp]: "crypto_laws cr \<Longrightarrow> length (blake3 cr b) = 32"
  by (simp add: crypto_laws_def)

lemma hex_decode_encode [simp]: "crypto_laws cr \<Longrightarrow> hex_decode cr (hex_encode cr b) = Some b"
  by (simp add: crypto_laws_def)

lemma hex_encode_length: "crypto_laws cr \<Longrightarrow> length (hex_encode cr b) = 2 * length b"
  unfolding crypto_laws_def by blast

lemma hex_encode_inject: "crypto_laws cr \<Longrightarrow> hex_encode cr a = hex_encode cr b \<longleftrightarrow> a = b"
  by (metis hex_decode_encode option.inject)

section \<open>Identifiers and messages\<close>

datatype MnemonicWordCount = Twelve | TwentyFour

datatype ChunkId = ChunkId (chunk_bytes: bytes)

definition ChunkId_new :: "crypto \<Rightarrow> bytes \<Rightarrow> ChunkId" where
  "ChunkId_new cr data = ChunkId (blake3 cr data)"

definition ChunkId_as_hex :: "crypto \<Rightarrow> ChunkId \<Rightarrow> string" where
  "ChunkId_as_hex cr c = hex_encode cr (chunk_bytes c)"

definition ChunkId_from_hex :: "crypto \<Rightarrow> string \<Rightarrow> ChunkId result" where
  "ChunkId_from_hex cr hex_str =
     (case hex_decode cr hex_str of
        None \<Rightarrow> Inl (Err ''invalid hex'')
      | Some b \<Rightarrow>
          if length b \<noteq> 32 then Inl (Err ''ChunkId must be 32 bytes'')
          else Inr (ChunkId b))"

definition ChunkId_fmt :: "crypto \<Rightarrow> ChunkId \<Rightarrow> string" where
  "ChunkId_fmt cr c = ChunkId_as_hex cr c"

definition ChunkId_valid :: "ChunkId \<Rightarrow> bool" where
  "ChunkId_valid c = (length (chunk_bytes c) = 32)"

datatype ShardIndex = ShardIndex (shard_no: nat)

record EncryptedShard =
  es_chunk_id :: ChunkId
  es_shard_index :: ShardIndex
  es_nonce :: bytes
  es_ciphertext :: bytes
  es_tag :: bytes

record StorageChallenge =
  sc_chunk_id :: ChunkId
  sc_leaf_indices :: "u64 list"
  sc_nonce :: bytes
  sc_timestamp :: u64

record StorageProof =
  sp_chunk_id :: ChunkId
  sp_leaf_indices :: "u64 list"
  sp_leaves :: "bytes list"
  sp_proofs :: "string list list"
  sp_root :: string

datatype MasterKey = MasterKey (master_bytes: bytes)

datatype DerivedKey = DerivedKey (derived_bytes: bytes)

datatype Nonce = Nonce (nonce_bytes: bytes)

definition Nonce_random :: "(nat \<Rightarrow> bytes) \<Rightarrow> Nonce" where
  "Nonce_random rng = Nonce (rng NONCE_LEN)"

definition Nonce_as_bytes :: "Nonce \<Rightarrow> bytes" where
  "Nonce_as_bytes n = nonce_bytes n"

section \<open>Chunk identifiers round trip\<close>

lemma ChunkId_new_valid [simp]: "crypto_laws cr \<Longrightarrow> ChunkId_valid (ChunkId_new cr b)"
  by (simp add: ChunkId_valid_def ChunkId_new_def)

lemma ChunkId_as_hex_inject:
  "crypto_laws cr \<Longrightarrow> ChunkId_as_hex cr a = ChunkId_as_hex cr b \<longleftrightarrow> a = b"
  by (cases a; cases b) (simp add: ChunkId_as_hex_def hex_encode_inject)

lemma ChunkId_hex_roundtrip:
  "crypto_laws cr \<Longrightarrow> ChunkId_valid c \<Longrightarrow> ChunkId_from_hex cr (ChunkId_as_hex cr c) = Inr c"
  by (cases c) (simp add: ChunkId_from_hex_def ChunkId_as_hex_def ChunkId_valid_def)

lemma ChunkId_from_hex_valid: "ChunkId_from_hex cr s = Inr c \<Longrightarrow> ChunkId_valid c"
  by (auto simp: ChunkId_from_hex_def ChunkId_valid_def split: option.splits if_splits)

section \<open>A concrete instance of the crates\<close>

text \<open>
  For the witnesses: a 32-byte digest that keeps the first bytes of its input and its length
  (a stand-in with the documented shape, not BLAKE3), and the real base-16 codec.
\<close>

definition hex_digit :: "nat \<Rightarrow> char" where
  "hex_digit n = ''0123456789abcdef'' ! (n mod 16)"

definition hex_value :: "char \<Rightarrow> nat option" where
  "hex_value c =
     (let ds = filter (\<lambda>i. hex_digit i = c) [0..<16] in if ds = [] then None else Some (hd ds))"

fun sample_hex_encode :: "bytes \<Rightarrow> string" where
  "sample_hex_encode [] = []"
| "sample_hex_encode (b # bs) =
     hex_digit (unat b div 16) # hex_digit (unat b mod 16) # sample_hex_encode bs"

fun sample_hex_decode :: "string \<Rightarrow> bytes option" where
  "sample_hex_decode [] = Some []"
| "sample_hex_decode [c] = None"
| "sample_hex_decode (c # d # cs) =
     (case (hex_value c, hex_value d, sample_hex_decode cs) of
        (Some h, Some l, Some bs) \<Rightarrow> Some (of_nat (16 * h + l) # bs)
      | _ \<Rightarrow> None)"

definition sample_blake3 :: "bytes \<Rightarrow> bytes" where
  "sample_blake3 b = of_nat (length b) # take 31 (b @ replicate 31 0)"

definition sample_crypto :: crypto where
  "sample_crypto =
     \<lparr>blake3 = sample_blake3, hex_encode = sample_hex_encode, hex_decode = sample_hex_decode\<rparr>"

lemma hex_value_digit: "n < 16 \<Longrightarrow> hex_value (hex_digit n) = Some n"
proof -
  have "\<forall>n \<in> set [0..<16]. hex_value (hex_digit n) = Some n"
    by code_simp
  then show "n < 16 \<Longrightarrow> hex_value (hex_digit n) = Some n" by simp
qed

lemma sample_hex_roundtrip: "sample_hex_decode (sample_hex_encode b) = Some b"
proof (induction b)
  case (Cons x b)
  have "unat x div 16 < 16" using byte_bound [of x] by simp
  then show ?case
    using Cons by (simp add: hex_value_digit)
qed simp

lemma sample_hex_length: "length (sample_hex_encode b) = 2 * length b"
  by (induction b) auto

lemma sample_crypto_laws: "crypto_laws sample_crypto"
  by (auto simp: crypto_laws_def sample_crypto_def sample_blake3_def sample_hex_roundtrip
      sample_hex_length)

end
