(* ===== verification/LevelReduction.thy ===== *)
theory LevelReduction
  imports Prelude
begin

text \<open>
  One round of a Merkle tree: neighbours are combined, an odd last element with itself.  Two
  parts of the program write this loop on their own (core/src/merkle.rs and
  ledger/src/store.rs); the locale \<open>level_reduction\<close> is what both loops promise, and the facts
  about rounds and roots are proved in it once.
\<close>

section \<open>The contract of one round\<close>

locale level_reduction =
  fixes combine :: "'h \<Rightarrow> 'h \<Rightarrow> 'h"
    and next_level :: "'h list \<Rightarrow> 'h list"
  assumes next_Nil: "next_level [] = []"
    and next_one: "next_level [x] = [combine x x]"
    and next_pair: "next_level (x # y # zs) = combine x y # next_level zs"
begin

lemma length_next: "length (next_level xs) = (length xs + 1) div 2"
proof (induction xs rule: induct_list012)
  case (3 x y zs)
  then show ?case by (simp add: next_pair)
qed (simp_all add: next_Nil next_one)

lemma next_shrinks: "1 < length xs \<Longrightarrow> length (next_level xs) < length xs"
  by (simp add: length_next)

lemma next_nonempty: "xs \<noteq> [] \<Longrightarrow> next_level xs \<noteq> []"
  by (cases xs rule: remdups_adj.cases) (simp_all add: next_one next_pair)

lemma nth_next:
  "i < length (next_level xs) \<Longrightarrow>
   next_level xs ! i =
     combine (xs ! (2 * i)) (xs ! (if 2 * i + 1 < length xs then 2 * i + 1 else 2 * i))"
proof (induction xs arbitrary: i rule: induct_list012)
  case (3 x y zs)
  then show ?case by (cases i) (simp_all add: next_pair)
qed (simp_all add: next_Nil next_one)

text \<open>The parent of position \<open>i\<close> combines \<open>i\<close> with its sibling, on the side its parity says.\<close>

lemma nth_next_parent:
  assumes "i < length xs"
  shows "next_level xs ! (i div 2) =
    (if even i then combine (xs ! i) (xs ! (if i + 1 < length xs then i + 1 else i))
     else combine (xs ! (i - 1)) (xs ! i))"
proof -
  have lt: "i div 2 < length (next_level xs)" using assms by (simp add: length_next)
  show ?thesis
  proof (cases "even i")
    case True
    then have "2 * (i div 2) = i" by simp
    with True nth_next [OF lt] show ?thesis by simp
  next
    case False
    then have "2 * (i div 2) = i - 1" "i - 1 + 1 = i" by (simp_all add: odd_pos)
    with False assms nth_next [OF lt] show ?thesis by simp
  qed
qed

lemma next_set: "\<forall>x y. P (combine x y) \<Longrightarrow> \<forall>h \<in> set (next_level xs). P h"
  by (induction xs rule: induct_list012) (simp_all add: next_Nil next_one next_pair)

text \<open>Doubling the odd last element changes nothing in the next round.\<close>

lemma next_double_last: "odd (length xs) \<Longrightarrow> next_level (xs @ [last xs]) = next_level xs"
proof (induction xs rule: induct_list012)
  case (3 x y zs)
  then show ?case by (cases "zs = []") (simp_all add: next_pair)
qed (simp_all add: next_Nil next_one next_pair)

text \<open>Two rounds that satisfy the contract with the same combination are the same function.\<close>

lemma next_unique:
  assumes "g [] = []" and "\<And>x. g [x] = [combine x x]"
    and "\<And>x y zs. g (x # y # zs) = combine x y # g zs"
  shows "g xs = next_level xs"
  by (induction xs rule: induct_list012) (simp_all add: assms next_Nil next_one next_pair)

end

end
