(* ===== verification/Merkle.thy ===== *)
theory Merkle
  imports CoreTypes LevelReduction
begin

text \<open>
  core/src/merkle.rs: Merkle trees over chunk hashes, inclusion proofs and their verification,
  and the random challenges of the proof of storage.  A \<open>blake3::Hash\<close> is its 32 bytes.
\<close>

section \<open>Trees\<close>

record MerkleTree =
  mt_leaves :: "bytes list"
  mt_layers :: "bytes list list"
  mt_root :: bytes

text \<open>One pass of the inner loop over \<open>(0..current.len()).step_by(2)\<close>.\<close>

definition next_layer :: "crypto \<Rightarrow> bytes list \<Rightarrow> bytes list" where
  "next_layer cr current =
     map (\<lambda>i. let left = current ! i;
                  right = (if i + 1 < length current then current ! (i + 1) else current ! i)
              in blake3 cr (left @ right))
       (step_by 0 (length current) 2)"

interpretation core: level_reduction "\<lambda>l r. blake3 cr (l @ r)" "next_layer cr" for cr
proof
  show "next_layer cr [] = []" by (simp add: next_layer_def)
  show "next_layer cr [x] = [blake3 cr (x @ x)]" for x
    by (simp add: next_layer_def step_by_0)
  show "next_layer cr (x # y # zs) = blake3 cr (x @ y) # next_layer cr zs" for x y zs
    by (simp add: next_layer_def step_by_0 Let_def o_def)
qed

declare core.next_shrinks [termination_simp]

text \<open>The outer loop: \<open>while current.len() > 1\<close>, with the layers pushed so far.\<close>

function build_layers :: "crypto \<Rightarrow> bytes list list \<Rightarrow> bytes list \<Rightarrow> bytes list list \<times> bytes list"
  where
  "build_layers cr layers current =
     (if length current > 1 then
        (let nxt = next_layer cr current in build_layers cr (layers @ [nxt]) nxt)
      else (layers, current))"
  by pat_completeness auto
termination
  by (relation "measure (\<lambda>(cr, layers, current). length current)") (auto simp: core.next_shrinks)

declare build_layers.simps [simp del]

definition from_hashes :: "crypto \<Rightarrow> bytes list \<Rightarrow> MerkleTree" where
  "from_hashes cr leaves =
     (if leaves = [] then \<lparr>mt_leaves = [], mt_layers = [], mt_root = blake3 cr []\<rparr>
      else
        let (layers, current) = build_layers cr [leaves] leaves;
            root = current ! 0
        in \<lparr>mt_leaves = leaves, mt_layers = layers, mt_root = root\<rparr>)"

definition from_chunks :: "crypto \<Rightarrow> bytes list \<Rightarrow> MerkleTree" where
  "from_chunks cr chunks = from_hashes cr (map (blake3 cr) chunks)"

definition MerkleTree_root :: "MerkleTree \<Rightarrow> bytes" where
  "MerkleTree_root t = mt_root t"

definition root_hex :: "crypto \<Rightarrow> MerkleTree \<Rightarrow> string" where
  "root_hex cr t = hex_encode cr (mt_root t)"

section \<open>Proofs\<close>

record MerkleProofNode =
  pn_hash :: string
  pn_is_right :: bool

record MerkleProof =
  mp_leaf_index :: nat
  mp_leaf_hash :: string
  mp_siblings :: "MerkleProofNode list"
  mp_root :: string

text \<open>The loop \<open>for layer in &self.layers\<close>; indexing out of range panics.\<close>

fun proof_siblings :: "crypto \<Rightarrow> bytes list list \<Rightarrow> nat \<Rightarrow> MerkleProofNode list result" where
  "proof_siblings cr [] idx = Inr []"
| "proof_siblings cr (layer # layers) idx =
     (let sibling_idx = (if idx mod 2 = 0 then idx + 1 else idx - 1)
      in try_then
           (if sibling_idx < length layer then index_or_panic layer sibling_idx
            else index_or_panic layer idx)
           (\<lambda>sibling. try_then (proof_siblings cr layers (idx div 2))
              (\<lambda>rest. Inr (\<lparr>pn_hash = hex_encode cr sibling, pn_is_right = (idx mod 2 = 0)\<rparr> # rest))))"

definition merkle_proof :: "crypto \<Rightarrow> MerkleTree \<Rightarrow> nat \<Rightarrow> MerkleProof option result" where
  "merkle_proof cr t i =
     (if i \<ge> length (mt_leaves t) then Inr None
      else try_then (proof_siblings cr (mt_layers t) i)
        (\<lambda>siblings. Inr (Some
          \<lparr>mp_leaf_index = i,
           mp_leaf_hash = hex_encode cr (mt_leaves t ! i),
           mp_siblings = siblings,
           mp_root = hex_encode cr (mt_root t)\<rparr>)))"

text \<open>\<open>match hex::decode(..) { Ok(b) if b.len() == 32 => .. }\<close>\<close>

definition parse_hash :: "crypto \<Rightarrow> string \<Rightarrow> bytes option" where
  "parse_hash cr s =
     (case hex_decode cr s of Some b \<Rightarrow> if length b = 32 then Some b else None | None \<Rightarrow> None)"

fun verify_siblings :: "crypto \<Rightarrow> bytes \<Rightarrow> MerkleProofNode list \<Rightarrow> bytes option" where
  "verify_siblings cr current [] = Some current"
| "verify_siblings cr current (sibling # rest) =
     (case parse_hash cr (pn_hash sibling) of
        None \<Rightarrow> None
      | Some sibling_bytes \<Rightarrow>
          verify_siblings cr
            (if pn_is_right sibling then blake3 cr (current @ sibling_bytes)
             else blake3 cr (sibling_bytes @ current)) rest)"

definition verify_proof :: "crypto \<Rightarrow> MerkleProof \<Rightarrow> bool" where
  "verify_proof cr p =
     (case parse_hash cr (mp_leaf_hash p) of
        None \<Rightarrow> False
      | Some leaf \<Rightarrow>
          (case verify_siblings cr leaf (mp_siblings p) of
             None \<Rightarrow> False
           | Some current \<Rightarrow>
               (case parse_hash cr (mp_root p) of
                  None \<Rightarrow> False
                | Some root \<Rightarrow> current = root)))"

section \<open>Challenges\<close>

text \<open>
  \<open>pick\<close> is \<open>choose_multiple\<close> of the rand crate and \<open>nonce\<close> the bytes it fills in; \<open>now\<close> is
  the current time in seconds.
\<close>

definition pick_laws :: "(u64 list \<Rightarrow> nat \<Rightarrow> u64 list) \<Rightarrow> bool" where
  "pick_laws pick \<longleftrightarrow>
     (\<forall>xs n. distinct xs \<longrightarrow>
        distinct (pick xs n) \<and> set (pick xs n) \<subseteq> set xs \<and>
        length (pick xs n) = min n (length xs))"

definition generate_challenge ::
  "(u64 list \<Rightarrow> nat \<Rightarrow> u64 list) \<Rightarrow> bytes \<Rightarrow> u64 \<Rightarrow> ChunkId \<Rightarrow> u64 \<Rightarrow> nat \<Rightarrow> StorageChallenge" where
  "generate_challenge pick nonce now chunk_id num_leaves num_challenges =
     (let leaf_indices =
            (if num_leaves = 0 then [0]
             else pick (map of_nat [0..<unat num_leaves]) num_challenges)
      in \<lparr>sc_chunk_id = chunk_id, sc_leaf_indices = leaf_indices, sc_nonce = nonce,
          sc_timestamp = now\<rparr>)"

text \<open>The challenge asks for as many different leaves as it can, all of them in the tree.\<close>

lemma generate_challenge_indices:
  assumes "pick_laws pick" and "num_leaves \<noteq> 0"
  fixes nonce now chunk_id num_challenges
  defines "c \<equiv> generate_challenge pick nonce now chunk_id num_leaves num_challenges"
  shows "sc_chunk_id c = chunk_id"
    and "length (sc_leaf_indices c) = min num_challenges (unat num_leaves)"
    and "distinct (sc_leaf_indices c)"
    and "i \<in> set (sc_leaf_indices c) \<Longrightarrow> i < num_leaves"
proof -
  let ?all = "map of_nat [0..<unat num_leaves] :: u64 list"
  have small: "unat (of_nat k :: u64) = k" if "k < unat num_leaves" for k
    using that unsigned_less [of num_leaves, where ?'a = nat] by (simp add: unat_of_nat)
  have "distinct ?all"
    unfolding distinct_map by (auto intro!: inj_on_inverseI [where g = unat] simp: small)
  with assms(1) have all: "distinct (pick ?all n) \<and> set (pick ?all n) \<subseteq> set ?all \<and>
      length (pick ?all n) = min n (length ?all)" for n
    unfolding pick_laws_def by blast
  then have picked: "distinct (pick ?all n)" "set (pick ?all n) \<subseteq> set ?all"
      "length (pick ?all n) = min n (unat num_leaves)" for n
    by blast+ (use all [of n] in simp)
  with assms(2) show "length (sc_leaf_indices c) = min num_challenges (unat num_leaves)"
      "distinct (sc_leaf_indices c)" "sc_chunk_id c = chunk_id"
    by (simp_all add: c_def generate_challenge_def)
  assume "i \<in> set (sc_leaf_indices c)"
  with assms(2) have "i \<in> set (pick ?all num_challenges)" by (simp add: c_def generate_challenge_def)
  with picked(2) obtain k where "i = of_nat k" "k < unat num_leaves" by fastforce
  then show "i < num_leaves" by (simp add: word_less_nat_alt small)
qed

section \<open>The layers of a tree\<close>

text \<open>The layers as one recursive list: the leaves, then the layers above them.\<close>

function layer_list :: "crypto \<Rightarrow> bytes list \<Rightarrow> bytes list list" where
  "layer_list cr cur = cur # (if length cur > 1 then layer_list cr (next_layer cr cur) else [])"
  by pat_completeness auto
termination
  by (relation "measure (\<lambda>(cr, cur). length cur)") (auto simp: core.next_shrinks)

declare layer_list.simps [simp del]

lemma layer_list_single: "length cur \<le> 1 \<Longrightarrow> layer_list cr cur = [cur]"
  by (subst layer_list.simps) simp

lemma layer_list_step: "1 < length cur \<Longrightarrow> layer_list cr cur = cur # layer_list cr (next_layer cr cur)"
  by (subst layer_list.simps) simp

lemma layer_list_nonempty [simp]: "layer_list cr cur \<noteq> []"
  by (subst layer_list.simps) simp

lemma layer_list_hd: "hd (layer_list cr cur) = cur"
  by (subst layer_list.simps) simp

lemma layer_list_halves:
  "Suc k < length (layer_list cr cur) \<Longrightarrow>
   length (layer_list cr cur ! Suc k) = (length (layer_list cr cur ! k) + 1) div 2"
proof (induction cr cur arbitrary: k rule: layer_list.induct)
  case (1 cr cur)
  show ?case
  proof (cases "1 < length cur")
    case True
    then show ?thesis
      using 1 layer_list_hd [of cr "next_layer cr cur"] hd_conv_nth [of "layer_list cr (next_layer cr cur)"]
      by (cases k) (simp_all add: layer_list_step core.length_next)
  next
    case False
    with "1.prems" show ?thesis by (simp add: layer_list_single)
  qed
qed

lemma build_layers_eq:
  "build_layers cr (layers @ [cur]) cur = (layers @ layer_list cr cur, last (layer_list cr cur))"
proof (induction cr cur arbitrary: layers rule: layer_list.induct)
  case (1 cr cur)
  show ?case
  proof (cases "1 < length cur")
    case True
    from "1.IH" [OF True, of "layers @ [cur]"] True show ?thesis
      by (simp add: build_layers.simps [of cr "layers @ [cur]"] layer_list_step Let_def)
  next
    case False
    then show ?thesis
      by (simp add: build_layers.simps [of cr "layers @ [cur]"] layer_list_single)
  qed
qed

definition top_hash :: "crypto \<Rightarrow> bytes list \<Rightarrow> bytes" where
  "top_hash cr cur = last (layer_list cr cur) ! 0"

lemma from_hashes_nonempty:
  "leaves \<noteq> [] \<Longrightarrow> from_hashes cr leaves =
     \<lparr>mt_leaves = leaves, mt_layers = layer_list cr leaves, mt_root = top_hash cr leaves\<rparr>"
  using build_layers_eq [of cr "[]" leaves] by (simp add: from_hashes_def top_hash_def)

lemma from_hashes_leaves [simp]: "mt_leaves (from_hashes cr leaves) = leaves"
  by (cases "leaves = []") (simp_all add: from_hashes_nonempty, simp add: from_hashes_def)

lemma top_hash_single: "length cur = 1 \<Longrightarrow> top_hash cr cur = cur ! 0"
  by (simp add: top_hash_def layer_list_single)

lemma top_hash_step: "1 < length cur \<Longrightarrow> top_hash cr cur = top_hash cr (next_layer cr cur)"
  by (simp add: top_hash_def layer_list_step)

lemma top_layer_single: "cur \<noteq> [] \<Longrightarrow> last (layer_list cr cur) = [top_hash cr cur]"
proof (induction cr cur rule: layer_list.induct)
  case (1 cr cur)
  show ?case
  proof (cases "1 < length cur")
    case True
    with 1 show ?thesis by (simp add: layer_list_step top_hash_step core.next_nonempty)
  next
    case False
    with "1.prems" have "length cur = 1" by (cases cur) auto
    then show ?thesis by (cases cur) (simp_all add: layer_list_single top_hash_single)
  qed
qed

text \<open>Every hash of the tree has 32 bytes when the leaves do.\<close>

definition hashes32 :: "bytes list \<Rightarrow> bool" where
  "hashes32 hs = (\<forall>h \<in> set hs. length h = 32)"

lemma hashes32_next: "crypto_laws cr \<Longrightarrow> hashes32 (next_layer cr hs)"
  unfolding hashes32_def by (rule core.next_set) simp

lemma hashes32_nth: "hashes32 hs \<Longrightarrow> i < length hs \<Longrightarrow> length (hs ! i) = 32"
  by (simp add: hashes32_def)

lemma top_hash_32: "crypto_laws cr \<Longrightarrow> cur \<noteq> [] \<Longrightarrow> hashes32 cur \<Longrightarrow> length (top_hash cr cur) = 32"
proof (induction cr cur rule: layer_list.induct)
  case (1 cr cur)
  show ?case
  proof (cases "1 < length cur")
    case True
    with 1 show ?thesis by (simp add: top_hash_step hashes32_next core.next_nonempty)
  next
    case False
    with "1.prems" have "length cur = 1" by (cases cur) auto
    with "1.prems" show ?thesis by (simp add: top_hash_single hashes32_nth)
  qed
qed

text \<open>How many layers: the tree is balanced, and no layer is built in vain.\<close>

lemma layer_count:
  "cur \<noteq> [] \<Longrightarrow>
   length cur \<le> 2 ^ (length (layer_list cr cur) - 1) \<and>
   2 ^ (length (layer_list cr cur) - 1) < 2 * length cur"
proof (induction cr cur rule: layer_list.induct)
  case (1 cr cur)
  show ?case
  proof (cases "1 < length cur")
    case True
    let ?n = "next_layer cr cur" and ?m = "length (layer_list cr (next_layer cr cur))"
    from True "1.IH" "1.prems" have IH: "length ?n \<le> 2 ^ (?m - 1)" "2 ^ (?m - 1) < 2 * length ?n"
      by (simp_all add: core.next_nonempty)
    have "?m = Suc (?m - 1)" by simp
    then have pow: "2 ^ ?m = 2 * (2 ^ (?m - 1) :: nat)" by (metis power_Suc)
    have len: "length ?n = (length cur + 1) div 2" by (rule core.length_next)
    show ?thesis
    proof (cases "even (length cur)")
      case True
      with IH len pow \<open>1 < length cur\<close> show ?thesis by (auto simp: layer_list_step)
    next
      case False
      then obtain k where k: "length cur = 2 * k + 1" by (rule oddE)
      have "2 ^ (?m - 1) \<noteq> 2 * k + (1 :: nat)"
      proof (cases "?m - 1 = 0")
        case True
        with \<open>1 < length cur\<close> k show ?thesis by simp
      next
        case False
        then have "even (2 ^ (?m - 1) :: nat)" by simp
        moreover have "odd (2 * k + (1 :: nat))" by simp
        ultimately show ?thesis by metis
      qed
      with IH len pow k \<open>1 < length cur\<close> show ?thesis by (simp add: layer_list_step)
    qed
  next
    case False
    with "1.prems" show ?thesis by (cases cur) (auto simp: layer_list_single)
  qed
qed

end
