(* ===== verification/MerkleProofs.thy ===== *)
theory MerkleProofs
  imports Merkle
begin

text \<open>
  What the inclusion proofs of core/src/merkle.rs establish.  \<open>proof\<close> walks all layers, the
  one-element top layer included, so the sibling list it returns is the path from the leaf to
  the root followed by one more node, the root itself as its own right sibling; the lemmas
  separate the two.
\<close>

section \<open>Reading hashes back\<close>

lemma parse_hash_encode [simp]:
  "crypto_laws cr \<Longrightarrow> length b = 32 \<Longrightarrow> parse_hash cr (hex_encode cr b) = Some b"
  by (simp add: parse_hash_def)

lemma parse_hash_Some: "parse_hash cr s = Some b \<Longrightarrow> length b = 32"
  by (auto simp: parse_hash_def split: option.splits if_splits)

lemma verify_siblings_append:
  "verify_siblings cr c (xs @ ys) = Option.bind (verify_siblings cr c xs) (\<lambda>d. verify_siblings cr d ys)"
  by (induction cr c xs rule: verify_siblings.induct) (auto split: option.splits)

lemma verify_siblings_32:
  "crypto_laws cr \<Longrightarrow> length c = 32 \<Longrightarrow> verify_siblings cr c xs = Some d \<Longrightarrow> length d = 32"
  by (induction cr c xs rule: verify_siblings.induct) (auto split: option.splits if_splits)

section \<open>The path of a leaf\<close>

definition top_node :: "crypto \<Rightarrow> bytes list \<Rightarrow> MerkleProofNode" where
  "top_node cr cur = \<lparr>pn_hash = hex_encode cr (top_hash cr cur), pn_is_right = True\<rparr>"

lemma verify_sibling_step:
  assumes "crypto_laws cr" and "hashes32 cur" and "i < length cur"
    and "j = (if even i then if i + 1 < length cur then i + 1 else i else i - 1)"
  shows "verify_siblings cr (cur ! i) (\<lparr>pn_hash = hex_encode cr (cur ! j), pn_is_right = even i\<rparr> # path) =
    verify_siblings cr (next_layer cr cur ! (i div 2)) path"
proof -
  have "j < length cur" using assms(3,4) by auto
  with assms(1,2) have "parse_hash cr (hex_encode cr (cur ! j)) = Some (cur ! j)"
    by (simp add: hashes32_nth)
  then show ?thesis
    using core.nth_next_parent [OF assms(3), of cr] assms(4) by simp
qed

lemma proof_siblings_step:
  assumes "i < length cur"
    and "j = (if even i then if i + 1 < length cur then i + 1 else i else i - 1)"
    and "proof_siblings cr layers (i div 2) = Inr rest"
  shows "proof_siblings cr (cur # layers) i =
    Inr (\<lparr>pn_hash = hex_encode cr (cur ! j), pn_is_right = even i\<rparr> # rest)"
proof -
  have "(if (if i mod 2 = 0 then i + 1 else i - 1) < length cur
       then index_or_panic cur (if i mod 2 = 0 then i + 1 else i - 1) else index_or_panic cur i) =
      Inr (cur ! j)"
    using assms(1,2) by (auto simp: even_iff_mod_2_eq_zero)
  with assms(3) show ?thesis by (simp add: Let_def even_iff_mod_2_eq_zero)
qed

lemma proof_siblings_path:
  "crypto_laws cr \<Longrightarrow> i < length cur \<Longrightarrow> hashes32 cur \<Longrightarrow>
    \<exists>path. proof_siblings cr (layer_list cr cur) i = Inr (path @ [top_node cr cur]) \<and>
      length path = length (layer_list cr cur) - 1 \<and>
      verify_siblings cr (cur ! i) path = Some (top_hash cr cur)"
proof (induction cr cur arbitrary: i rule: layer_list.induct)
  case (1 cr cur)
  define j where "j = (if even i then if i + 1 < length cur then i + 1 else i else i - 1)"
  define node where "node = \<lparr>pn_hash = hex_encode cr (cur ! j), pn_is_right = even i\<rparr>"
  show ?case
  proof (cases "1 < length cur")
    case True
    let ?n = "next_layer cr cur"
    have "i div 2 < length ?n" using "1.prems" by (simp add: core.length_next)
    with "1.IH" [OF True, of "i div 2"] "1.prems" obtain path where path:
      "proof_siblings cr (layer_list cr ?n) (i div 2) = Inr (path @ [top_node cr ?n])"
      "length path = length (layer_list cr ?n) - 1"
      "verify_siblings cr (?n ! (i div 2)) path = Some (top_hash cr ?n)"
      by (auto simp: hashes32_next)
    have "top_node cr ?n = top_node cr cur" using True by (simp add: top_node_def top_hash_step)
    moreover from proof_siblings_step [OF "1.prems"(2) j_def path(1)]
    have "proof_siblings cr (layer_list cr cur) i = Inr (node # path @ [top_node cr ?n])"
      using True by (simp add: layer_list_step node_def)
    moreover from verify_sibling_step [OF "1.prems"(1,3,2) j_def] path(3)
    have "verify_siblings cr (cur ! i) (node # path) = Some (top_hash cr cur)"
      using True by (simp add: node_def top_hash_step)
    moreover have "length (node # path) = length (layer_list cr cur) - 1"
      using path(2) True by (simp add: layer_list_step)
    ultimately show ?thesis by (intro exI [of _ "node # path"]) simp
  next
    case False
    with "1.prems" have "length cur = 1" "i = 0" by (cases cur; force)+
    then show ?thesis
      by (simp add: layer_list_single top_node_def top_hash_single index_or_panic_def)
  qed
qed

section \<open>The proof of a leaf of a tree\<close>

lemma merkle_proof_path:
  assumes "crypto_laws cr" and "hashes32 leaves" and "i < length leaves"
  obtains path where
    "merkle_proof cr (from_hashes cr leaves) i =
       Inr (Some \<lparr>mp_leaf_index = i, mp_leaf_hash = hex_encode cr (leaves ! i),
         mp_siblings = path @ [top_node cr leaves],
         mp_root = hex_encode cr (top_hash cr leaves)\<rparr>)"
    and "verify_siblings cr (leaves ! i) path = Some (top_hash cr leaves)"
    and "length path + 1 = length (layer_list cr leaves)"
proof -
  from assms(3) have "leaves \<noteq> []" by auto
  moreover from proof_siblings_path [OF assms(1,3,2)] obtain path where
    "proof_siblings cr (layer_list cr leaves) i = Inr (path @ [top_node cr leaves])"
    "length path = length (layer_list cr leaves) - 1"
    "verify_siblings cr (leaves ! i) path = Some (top_hash cr leaves)" by auto
  ultimately show thesis
    using assms(3) that [of path] by (simp add: merkle_proof_def from_hashes_nonempty)
qed

lemma verify_top_node:
  assumes "crypto_laws cr" and "length (top_hash cr cur) = 32"
  shows "verify_siblings cr c [top_node cr cur] = Some (blake3 cr (c @ top_hash cr cur))"
  using assms by (simp add: top_node_def)

section \<open>Binding\<close>

definition collision :: "crypto \<Rightarrow> bytes \<Rightarrow> bytes \<Rightarrow> bool" where
  "collision cr x y \<longleftrightarrow> x \<noteq> y \<and> blake3 cr x = blake3 cr y"

text \<open>
  Two accepted paths with the same turns that end in the same hash start from the same leaf,
  or two strings that are hashed at the same step of the two paths collide.
\<close>

fun path_inputs :: "crypto \<Rightarrow> bytes \<Rightarrow> MerkleProofNode list \<Rightarrow> bytes list" where
  "path_inputs cr current [] = []"
| "path_inputs cr current (sibling # rest) =
     (case parse_hash cr (pn_hash sibling) of
        None \<Rightarrow> []
      | Some b \<Rightarrow>
          let x = (if pn_is_right sibling then current @ b else b @ current)
          in x # path_inputs cr (blake3 cr x) rest)"

definition proof_inputs :: "crypto \<Rightarrow> MerkleProof \<Rightarrow> bytes list" where
  "proof_inputs cr p =
     (case parse_hash cr (mp_leaf_hash p) of None \<Rightarrow> [] | Some leaf \<Rightarrow> path_inputs cr leaf (mp_siblings p))"

lemma verify_siblings_binding:
  assumes "crypto_laws cr"
  shows "map pn_is_right xs = map pn_is_right ys \<Longrightarrow> length a = 32 \<Longrightarrow> length b = 32 \<Longrightarrow>
    verify_siblings cr a xs = Some r \<Longrightarrow> verify_siblings cr b ys = Some r \<Longrightarrow>
    a = b \<or> (\<exists>(x, y) \<in> set (zip (path_inputs cr a xs) (path_inputs cr b ys)). collision cr x y)"
proof (induction xs arbitrary: ys a b)
  case Nil
  then show ?case by simp
next
  case (Cons n xs)
  then obtain m ys' where ys: "ys = m # ys'" by (cases ys) auto
  from Cons.prems(4) obtain s where s: "parse_hash cr (pn_hash n) = Some s"
    "verify_siblings cr (blake3 cr (if pn_is_right n then a @ s else s @ a)) xs = Some r"
    by (auto split: option.splits if_splits)
  from Cons.prems(5) obtain t where t: "parse_hash cr (pn_hash m) = Some t"
    "verify_siblings cr (blake3 cr (if pn_is_right m then b @ t else t @ b)) ys' = Some r"
    by (auto simp: ys split: option.splits if_splits)
  let ?u = "if pn_is_right n then a @ s else s @ a"
  let ?v = "if pn_is_right m then b @ t else t @ b"
  have dir: "pn_is_right n = pn_is_right m" "map pn_is_right xs = map pn_is_right ys'"
    using Cons.prems(1) ys by simp_all
  have "path_inputs cr a (n # xs) = ?u # path_inputs cr (blake3 cr ?u) xs"
    "path_inputs cr b ys = ?v # path_inputs cr (blake3 cr ?v) ys'"
    using s(1) t(1) by (simp_all add: ys Let_def)
  moreover have "blake3 cr ?u = blake3 cr ?v \<or>
      (\<exists>(x, y) \<in> set (zip (path_inputs cr (blake3 cr ?u) xs) (path_inputs cr (blake3 cr ?v) ys')). collision cr x y)"
    by (rule Cons.IH [OF dir(2) _ _ s(2) t(2)]) (simp_all add: assms)
  moreover have "?u = ?v \<Longrightarrow> a = b"
    using dir(1) Cons.prems(2,3) parse_hash_Some [OF s(1)] parse_hash_Some [OF t(1)]
    by (auto split: if_splits)
  ultimately show ?case by (cases "?u = ?v") (auto simp: collision_def)
qed

lemma verify_proof_iff:
  "verify_proof cr p \<longleftrightarrow>
     (\<exists>leaf root. parse_hash cr (mp_leaf_hash p) = Some leaf \<and>
        verify_siblings cr leaf (mp_siblings p) = Some root \<and>
        parse_hash cr (mp_root p) = Some root)"
  by (auto simp: verify_proof_def split: option.splits)

section \<open>Properties\<close>

lemma hashes32_chunks: "crypto_laws cr \<Longrightarrow> hashes32 (map (blake3 cr) chunks)"
  by (simp add: hashes32_def)

text \<open>
  C1: completeness of inclusion proofs.  For every chunk of every tree, the sibling path that
  \<open>proof\<close> computes leads from the hash of that chunk to the root: the proof, its last node
  taken off, is accepted by \<open>verify_proof\<close>.
\<close>

theorem merkle_path_accepted:
  assumes "crypto_laws cr" and "i < length chunks"
  shows "\<exists>p. merkle_proof cr (from_chunks cr chunks) i = Inr (Some p) \<and>
    mp_leaf_hash p = hex_encode cr (blake3 cr (chunks ! i)) \<and>
    mp_root p = root_hex cr (from_chunks cr chunks) \<and>
    verify_proof cr (p\<lparr>mp_siblings := butlast (mp_siblings p)\<rparr>)"
proof -
  let ?l = "map (blake3 cr) chunks"
  have ne: "?l \<noteq> []" using assms(2) by auto
  have i: "i < length ?l" using assms(2) by simp
  from merkle_proof_path [OF assms(1) hashes32_chunks [OF assms(1)] i] obtain path where
    p: "merkle_proof cr (from_hashes cr ?l) i =
       Inr (Some \<lparr>mp_leaf_index = i, mp_leaf_hash = hex_encode cr (?l ! i),
         mp_siblings = path @ [top_node cr ?l], mp_root = hex_encode cr (top_hash cr ?l)\<rparr>)"
    and v: "verify_siblings cr (?l ! i) path = Some (top_hash cr ?l)" by blast
  show ?thesis
    using p v assms top_hash_32 [OF assms(1) ne hashes32_chunks [OF assms(1)]] ne
    by (auto simp: from_chunks_def root_hex_def from_hashes_nonempty verify_proof_iff)
qed

theorem merkle_path_accepted_witness:
  "\<exists>p. merkle_proof sample_crypto (from_chunks sample_crypto [[1], [2], [3]]) 2 = Inr (Some p) \<and>
    mp_leaf_hash p = hex_encode sample_crypto (blake3 sample_crypto ([[1], [2], [3]] ! 2)) \<and>
    mp_root p = root_hex sample_crypto (from_chunks sample_crypto [[1], [2], [3]]) \<and>
    verify_proof sample_crypto (p\<lparr>mp_siblings := butlast (mp_siblings p)\<rparr>)"
  by (rule merkle_path_accepted [OF sample_crypto_laws]) simp

text \<open>The verdict on a proof as it is produced, for any tree.\<close>

lemma produced_proof_verdict:
  assumes "crypto_laws cr" and "hashes32 leaves" and "i < length leaves"
    and "merkle_proof cr (from_hashes cr leaves) i = Inr (Some p)"
  shows "verify_proof cr p \<longleftrightarrow>
    blake3 cr (mt_root (from_hashes cr leaves) @ mt_root (from_hashes cr leaves)) = mt_root (from_hashes cr leaves)"
proof -
  have ne: "leaves \<noteq> []" using assms(3) by auto
  note top = top_hash_32 [OF assms(1) ne assms(2)]
  from merkle_proof_path [OF assms(1-3)] obtain path where
    p: "p = \<lparr>mp_leaf_index = i, mp_leaf_hash = hex_encode cr (leaves ! i),
         mp_siblings = path @ [top_node cr leaves], mp_root = hex_encode cr (top_hash cr leaves)\<rparr>"
    and v: "verify_siblings cr (leaves ! i) path = Some (top_hash cr leaves)"
    using assms(4) by auto
  have "verify_siblings cr (leaves ! i) (mp_siblings p) = Some (blake3 cr (top_hash cr leaves @ top_hash cr leaves))"
    using v verify_top_node [OF assms(1) top] by (simp add: p verify_siblings_append)
  moreover have "length (leaves ! i) = 32" using assms(2,3) by (simp add: hashes32_def)
  ultimately show ?thesis
    using assms(1) ne top by (auto simp: p verify_proof_iff from_hashes_nonempty)
qed

text \<open>
  C2: the proofs as the program produces them.  \<open>proof\<close> also visits the top layer, which holds
  only the root, and appends the root as its own sibling.  So \<open>verify_proof\<close> accepts an
  unmodified proof exactly when the root is a fixed point of hashing it with itself, whatever
  the tree and the leaf.
\<close>

theorem merkle_proof_accepted_iff:
  assumes "crypto_laws cr" and "i < length chunks"
    and "merkle_proof cr (from_chunks cr chunks) i = Inr (Some p)"
  shows "verify_proof cr p \<longleftrightarrow>
    blake3 cr (mt_root (from_chunks cr chunks) @ mt_root (from_chunks cr chunks)) =
    mt_root (from_chunks cr chunks)"
  using produced_proof_verdict [OF assms(1) hashes32_chunks [OF assms(1)]] assms(2,3)
  unfolding from_chunks_def by simp

theorem merkle_proof_accepted_iff_witness:
  "\<exists>p. merkle_proof sample_crypto (from_chunks sample_crypto [[1], [2], [3]]) 2 = Inr (Some p) \<and>
    \<not> verify_proof sample_crypto p"
proof -
  let ?t = "from_chunks sample_crypto [[1], [2], [3]]"
  have "merkle_proof sample_crypto ?t 2 \<noteq> Inr None \<and> is_ok (merkle_proof sample_crypto ?t 2)"
    by code_simp
  then obtain p where p: "merkle_proof sample_crypto ?t 2 = Inr (Some p)"
    by (cases "merkle_proof sample_crypto ?t 2") auto
  have "blake3 sample_crypto (mt_root ?t @ mt_root ?t) \<noteq> mt_root ?t" by code_simp
  with merkle_proof_accepted_iff [OF sample_crypto_laws _ p] p show ?thesis by simp
qed

text \<open>
  C3: binding.  Two accepted proofs with the same turns and the same root speak of the same
  leaf hash; otherwise the two strings that their verifications hash at one of the steps are
  different and have one BLAKE3 digest: the proofs themselves exhibit a collision.
\<close>

theorem merkle_proof_binding:
  assumes "crypto_laws cr"
    and "verify_proof cr p" and "verify_proof cr q"
    and "map pn_is_right (mp_siblings p) = map pn_is_right (mp_siblings q)"
    and "mp_root p = mp_root q"
  shows "parse_hash cr (mp_leaf_hash p) = parse_hash cr (mp_leaf_hash q) \<or>
    (\<exists>(x, y) \<in> set (zip (proof_inputs cr p) (proof_inputs cr q)). collision cr x y)"
proof -
  from assms(2) obtain a r where a: "parse_hash cr (mp_leaf_hash p) = Some a"
    "verify_siblings cr a (mp_siblings p) = Some r" "parse_hash cr (mp_root p) = Some r"
    by (auto simp: verify_proof_iff)
  from assms(3,5) a(3) obtain b where b: "parse_hash cr (mp_leaf_hash q) = Some b"
    "verify_siblings cr b (mp_siblings q) = Some r"
    by (auto simp: verify_proof_iff)
  from verify_siblings_binding [OF assms(1,4) parse_hash_Some [OF a(1)] parse_hash_Some [OF b(1)]
      a(2) b(2)] a(1) b(1) show ?thesis by (simp add: proof_inputs_def)
qed

definition sample_proof :: "bytes \<Rightarrow> MerkleProof" where
  "sample_proof leaf =
     \<lparr>mp_leaf_index = 0, mp_leaf_hash = hex_encode sample_crypto leaf,
      mp_siblings = [\<lparr>pn_hash = hex_encode sample_crypto (replicate 32 7), pn_is_right = True\<rparr>],
      mp_root = hex_encode sample_crypto (64 # replicate 31 1)\<rparr>"

theorem merkle_proof_binding_witness:
  "verify_proof sample_crypto (sample_proof (replicate 32 1)) \<and>
   verify_proof sample_crypto (sample_proof (replicate 31 1 @ [2])) \<and>
   (parse_hash sample_crypto (mp_leaf_hash (sample_proof (replicate 32 1))) =
      parse_hash sample_crypto (mp_leaf_hash (sample_proof (replicate 31 1 @ [2]))) \<or>
    (\<exists>(x, y) \<in> set (zip (proof_inputs sample_crypto (sample_proof (replicate 32 1)))
       (proof_inputs sample_crypto (sample_proof (replicate 31 1 @ [2])))). collision sample_crypto x y))"
proof -
  have a: "verify_proof sample_crypto (sample_proof (replicate 32 1))" by code_simp
  have b: "verify_proof sample_crypto (sample_proof (replicate 31 1 @ [2]))" by code_simp
  have same: "map pn_is_right (mp_siblings (sample_proof (replicate 32 1))) =
      map pn_is_right (mp_siblings (sample_proof (replicate 31 1 @ [2])))"
    "mp_root (sample_proof (replicate 32 1)) = mp_root (sample_proof (replicate 31 1 @ [2]))"
    by (simp_all add: sample_proof_def)
  from merkle_proof_binding [OF sample_crypto_laws a b same] a b show ?thesis by blast
qed

text \<open>
  C4: the root does not determine the leaves.  An odd layer is completed with a copy of its
  last hash, so a tree over an odd number of leaves, three or more, has the same root as the
  tree in which the last leaf occurs twice.
\<close>

theorem merkle_root_ambiguous:
  assumes "odd (length leaves)" and "1 < length leaves"
  shows "mt_root (from_hashes cr (leaves @ [last leaves])) = mt_root (from_hashes cr leaves)"
proof -
  have "leaves \<noteq> []" using assms(2) by auto
  moreover have "top_hash cr (leaves @ [last leaves]) = top_hash cr leaves"
    using top_hash_step [OF assms(2), of cr] top_hash_step [of "leaves @ [last leaves]" cr] assms(2) \<open>leaves \<noteq> []\<close>
    by (simp add: core.next_double_last [OF assms(1)])
  ultimately show ?thesis by (simp add: from_hashes_nonempty)
qed

theorem merkle_root_ambiguous_witness:
  "mt_root (from_hashes sample_crypto ([[1], [2], [3]] @ [last [[1], [2], [3]]])) =
   mt_root (from_hashes sample_crypto [[1], [2], [3]])"
  by (rule merkle_root_ambiguous) simp_all

text \<open>
  C5: the loop that builds a tree ends after the binary logarithm of the number of leaves,
  rounded up, rounds: so many layers lie above the leaves, each half of the one below, rounded
  up, and the top one is a single hash, the root.  \<open>proof\<close> never panics on such a tree: it
  returns \<open>None\<close> exactly for an index out of range, and otherwise one sibling for each layer.
\<close>

theorem merkle_rounds:
  assumes "crypto_laws cr" and "hashes32 leaves" and "leaves \<noteq> []" and "t = from_hashes cr leaves"
  shows "length leaves \<le> 2 ^ (length (mt_layers t) - 1) \<and> 2 ^ (length (mt_layers t) - 1) < 2 * length leaves \<and>
    (\<forall>k. Suc k < length (mt_layers t) \<longrightarrow>
       length (mt_layers t ! Suc k) = (length (mt_layers t ! k) + 1) div 2) \<and>
    hd (mt_layers t) = leaves \<and> last (mt_layers t) = [mt_root t] \<and>
    (\<forall>i. case merkle_proof cr t i of
         Inr (Some p) \<Rightarrow> i < length leaves \<and> length (mp_siblings p) = length (mt_layers t)
       | Inr None \<Rightarrow> length leaves \<le> i
       | Inl e \<Rightarrow> False)"
proof -
  have t: "mt_layers t = layer_list cr leaves" "mt_root t = top_hash cr leaves"
    by (simp_all add: assms(4) from_hashes_nonempty [OF assms(3)])
  have "case merkle_proof cr t i of
         Inr (Some p) \<Rightarrow> i < length leaves \<and> length (mp_siblings p) = length (mt_layers t)
       | Inr None \<Rightarrow> length leaves \<le> i
       | Inl e \<Rightarrow> False" for i
  proof (cases "i < length leaves")
    case True
    from merkle_proof_path [OF assms(1,2) True] obtain path where
      "merkle_proof cr t i = Inr (Some \<lparr>mp_leaf_index = i, mp_leaf_hash = hex_encode cr (leaves ! i),
         mp_siblings = path @ [top_node cr leaves], mp_root = hex_encode cr (top_hash cr leaves)\<rparr>)"
      "length path + 1 = length (layer_list cr leaves)" unfolding assms(4) by metis
    with True t show ?thesis by simp
  next
    case False
    then show ?thesis by (simp add: merkle_proof_def assms(4))
  qed
  with t layer_count [OF assms(3), of cr] layer_list_halves top_layer_single [OF assms(3), of cr]
  show ?thesis by (simp add: layer_list_hd)
qed

theorem merkle_rounds_witness:
  "length (mt_layers (from_hashes sample_crypto [replicate 32 1, replicate 32 2, replicate 32 3])) = 3"
proof -
  let ?t = "from_hashes sample_crypto [replicate 32 1, replicate 32 2, replicate 32 3]"
  let ?n = "length (mt_layers ?t) - 1"
  have "hashes32 [replicate 32 1, replicate 32 2, replicate 32 3]" by (simp add: hashes32_def)
  from merkle_rounds [OF sample_crypto_laws this _ refl]
  have b: "3 \<le> (2 :: nat) ^ ?n" "(2 :: nat) ^ ?n < 6" by simp_all
  have "?n \<noteq> 0" "?n \<noteq> 1" using b(1) by (auto intro: ccontr)
  moreover have "\<not> 3 \<le> ?n" using b(2) power_increasing [of 3 ?n "2 :: nat"] by auto
  ultimately show ?thesis by linarith
qed

text \<open>
  \<open>proof\<close> never panics on a tree that \<open>from_hashes\<close> built: it returns \<open>None\<close> exactly for an
  index out of range, and otherwise one sibling per layer, of which there are at most
  \<open>1 + log 2 n\<close> rounded up.
\<close>

theorem merkle_proof_total:
  assumes "crypto_laws cr" and "hashes32 leaves"
  shows "if i < length leaves
    then (\<exists>p. merkle_proof cr (from_hashes cr leaves) i = Inr (Some p) \<and>
      length leaves \<le> 2 ^ (length (mp_siblings p) - 1) \<and>
      2 ^ (length (mp_siblings p) - 1) < 2 * length leaves)
    else merkle_proof cr (from_hashes cr leaves) i = Inr None"
proof (cases "i < length leaves")
  case True
  then have "leaves \<noteq> []" by auto
  from merkle_proof_path [OF assms True] layer_count [OF this, of cr] True show ?thesis
    by (metis (no_types, lifting) MerkleProof.select_convs(3) diff_add_inverse2 length_append_singleton Suc_eq_plus1)
next
  case False
  then show ?thesis by (simp add: merkle_proof_def)
qed

theorem merkle_proof_total_witness:
  "\<exists>p. merkle_proof sample_crypto (from_hashes sample_crypto [replicate 32 1, replicate 32 2]) 1 =
     Inr (Some p) \<and> 2 \<le> (2 :: nat) ^ (length (mp_siblings p) - 1) \<and>
     2 ^ (length (mp_siblings p) - 1) < (4 :: nat)"
  using merkle_proof_total [OF sample_crypto_laws, of "[replicate 32 1, replicate 32 2]" 1]
  by (simp add: hashes32_def flip: numeral_2_eq_2)

end
