(* ===== verification/Padding.thy ===== *)
theory Padding
  imports CoreTypes
begin

unbundle bit_operations_syntax

text \<open>
  core/src/padding.rs: a chunk is padded with random bytes to 4 MiB, and a variant writes the
  data length into the first four bytes.  The random source is the argument \<open>rng\<close>: \<open>rng n\<close> is
  what \<open>fill_bytes\<close> leaves in a buffer of \<open>n\<close> bytes, so \<open>rng_fills rng\<close> is all that is known
  about it.
\<close>

section \<open>Big-endian words\<close>

definition u32_to_be_bytes :: "u32 \<Rightarrow> bytes" where
  "u32_to_be_bytes w =
     [ucast (drop_bit 24 w), ucast (drop_bit 16 w), ucast (drop_bit 8 w), ucast w]"

definition u32_from_be_bytes :: "byte \<Rightarrow> byte \<Rightarrow> byte \<Rightarrow> byte \<Rightarrow> u32" where
  "u32_from_be_bytes a b c d =
     push_bit 24 (ucast a) OR push_bit 16 (ucast b) OR push_bit 8 (ucast c) OR ucast d"

section \<open>The operations\<close>

definition rng_fills :: "(nat \<Rightarrow> bytes) \<Rightarrow> bool" where
  "rng_fills rng \<longleftrightarrow> (\<forall>n. length (rng n) = n)"

definition pad_chunk :: "(nat \<Rightarrow> bytes) \<Rightarrow> bytes \<Rightarrow> bytes result" where
  "pad_chunk rng data =
     (if \<not> length data \<le> CHUNK_SIZE then Inl Panic
      else if length data < CHUNK_SIZE then
        (let padding_len = CHUNK_SIZE - length data in Inr (data @ rng padding_len))
      else Inr data)"

definition pad_with_length_header :: "(nat \<Rightarrow> bytes) \<Rightarrow> bytes \<Rightarrow> bytes result" where
  "pad_with_length_header rng data =
     (let original_len = (of_nat (length data) :: u32)
      in try_then (pad_chunk rng data)
           (\<lambda>padded. Inr (u32_to_be_bytes original_len @ drop 4 padded)))"

definition unpad_with_length_header :: "bytes \<Rightarrow> bytes option" where
  "unpad_with_length_header padded =
     (if length padded < 4 then None
      else
        let original_len =
              unat (u32_from_be_bytes (padded ! 0) (padded ! 1) (padded ! 2) (padded ! 3))
        in if original_len > length padded - 4 then None
           else let start = length padded - original_len in Some (drop start padded))"

section \<open>The length header round trips\<close>

lemma u32_be_roundtrip:
  "u32_from_be_bytes (ucast (drop_bit 24 w)) (ucast (drop_bit 16 w)) (ucast (drop_bit 8 w)) (ucast w) = w"
  unfolding u32_from_be_bytes_def
proof (rule bit_word_eqI)
  fix n
  assume "n < LENGTH(32)"
  then consider "n < 8" | "8 \<le> n" "n < 16" | "16 \<le> n" "n < 24" | "24 \<le> n" "n < 32"
    by fastforce
  then show "bit (push_bit 24 (ucast (ucast (drop_bit 24 w) :: byte)) OR
      push_bit 16 (ucast (ucast (drop_bit 16 w) :: byte)) OR
      push_bit 8 (ucast (ucast (drop_bit 8 w) :: byte)) OR
      (ucast (ucast w :: byte) :: u32)) n = bit w n"
    by cases (auto simp: bit_simps)
qed

lemma length_u32_to_be_bytes [simp]: "length (u32_to_be_bytes w) = 4"
  by (simp add: u32_to_be_bytes_def)

lemma u32_be_decode:
  "u32_from_be_bytes ((u32_to_be_bytes w @ r) ! 0) ((u32_to_be_bytes w @ r) ! 1)
     ((u32_to_be_bytes w @ r) ! 2) ((u32_to_be_bytes w @ r) ! 3) = w"
  by (simp add: u32_to_be_bytes_def u32_be_roundtrip)

section \<open>Padding\<close>

lemma pad_chunk_ok:
  "length data \<le> CHUNK_SIZE \<Longrightarrow> rng_fills rng \<Longrightarrow>
   pad_chunk rng data = Inr (data @ rng (CHUNK_SIZE - length data))"
  by (cases "length data = CHUNK_SIZE") (auto simp: pad_chunk_def rng_fills_def Let_def)

lemma pad_chunk_panics: "CHUNK_SIZE < length data \<Longrightarrow> pad_chunk rng data = Inl Panic"
  by (simp add: pad_chunk_def)

lemma pad_header_ok:
  "length data \<le> CHUNK_SIZE \<Longrightarrow> rng_fills rng \<Longrightarrow>
   pad_with_length_header rng data =
     Inr (u32_to_be_bytes (of_nat (length data)) @ drop 4 (data @ rng (CHUNK_SIZE - length data)))"
  by (simp add: pad_with_length_header_def pad_chunk_ok)

lemma pad_header_length:
  "pad_with_length_header rng data = Inr p \<Longrightarrow> rng_fills rng \<Longrightarrow> length p = CHUNK_SIZE"
  using CHUNK_SIZE_bound(1)
  by (cases "length data \<le> CHUNK_SIZE")
    (auto simp: pad_header_ok pad_with_length_header_def pad_chunk_panics pad_chunk_ok rng_fills_def
      simp del: drop_append)

text \<open>
  What \<open>unpad\<close> reads back from a padded block: the trailing bytes of the block, as many as the
  header says.
\<close>

lemma unpad_header_block:
  assumes "length r = CHUNK_SIZE - 4" and "n \<le> CHUNK_SIZE"
  shows "unpad_with_length_header (u32_to_be_bytes (of_nat n) @ r) =
    (if CHUNK_SIZE - 4 < n then None else Some (drop (CHUNK_SIZE - 4 - n) r))"
proof -
  have n: "unat (of_nat n :: u32) = n"
    using assms(2) CHUNK_SIZE_bound(2) by (simp add: unat_of_nat)
  show ?thesis
    using assms CHUNK_SIZE_bound(1)
    by (auto simp: unpad_with_length_header_def add.commute [of n 4] u32_be_decode [unfolded One_nat_def] n Let_def)
qed

lemma unpad_pad:
  assumes "rng_fills rng" and "length data \<le> CHUNK_SIZE"
  shows "pad_with_length_header rng data = Inr p \<Longrightarrow>
    unpad_with_length_header p =
      (if CHUNK_SIZE - 4 < length data then None
       else Some (drop (CHUNK_SIZE - length data) (data @ rng (CHUNK_SIZE - length data))))"
proof -
  assume p: "pad_with_length_header rng data = Inr p"
  have "length (drop 4 (data @ rng (CHUNK_SIZE - length data))) = CHUNK_SIZE - 4"
    using assms by (simp add: rng_fills_def)
  from unpad_header_block [OF this assms(2)] p assms CHUNK_SIZE_bound(1) show ?thesis
    by (auto simp: pad_header_ok simp del: drop_append)
qed

section \<open>Properties\<close>

text \<open>
  C8: what padding with a header and unpadding really compose to.  The data is put at the
  front of the block and read from its end: up to half a chunk of data the result consists of
  random padding bytes only, it does not depend on the data at all; a block of more than
  \<open>CHUNK_SIZE - 4\<close> bytes is not decoded; data longer than a chunk panics.
\<close>

theorem pad_unpad_result:
  assumes "rng_fills rng"
  shows "(case pad_with_length_header rng data of
      Inl e \<Rightarrow> e = Panic \<and> CHUNK_SIZE < length data
    | Inr p \<Rightarrow> length data \<le> CHUNK_SIZE \<and> length p = CHUNK_SIZE \<and>
        unpad_with_length_header p =
          (if CHUNK_SIZE - 4 < length data then None
           else if 2 * length data \<le> CHUNK_SIZE
             then Some (drop (CHUNK_SIZE - 2 * length data) (rng (CHUNK_SIZE - length data)))
           else Some (drop (CHUNK_SIZE - length data) data @ rng (CHUNK_SIZE - length data))))"
proof (cases "length data \<le> CHUNK_SIZE")
  case True
  note ok = pad_header_ok [OF True assms]
  let ?r = "rng (CHUNK_SIZE - length data)"
  have "drop (CHUNK_SIZE - length data) (data @ ?r) =
      (if 2 * length data \<le> CHUNK_SIZE then drop (CHUNK_SIZE - 2 * length data) ?r
       else drop (CHUNK_SIZE - length data) data @ ?r)"
    by (simp add: mult_2)
  then show ?thesis
    using True unpad_pad [OF assms True ok] pad_header_length [OF ok assms]
    by (simp add: ok del: drop_append)
next
  case False
  then show ?thesis by (simp add: pad_with_length_header_def pad_chunk_panics)
qed

theorem pad_unpad_result_witness:
  "unpad_with_length_header (projr (pad_with_length_header (\<lambda>n. replicate n 0) [1, 2, 3, 4, 5])) =
   Some (replicate 5 0)"
proof -
  have fills: "rng_fills (\<lambda>n. replicate n 0)" by (simp add: rng_fills_def)
  have cs: "10 \<le> CHUNK_SIZE" by (simp add: CHUNK_SIZE_def)
  define data :: bytes where "data = [1, 2, 3, 4, 5]"
  have data: "length data = 5" by (simp add: data_def)
  with cs have "length data \<le> CHUNK_SIZE" by simp
  note ok = pad_header_ok [OF this fills]
  have "unpad_with_length_header (projr (pad_with_length_header (\<lambda>n. replicate n 0) data)) =
      Some (drop (CHUNK_SIZE - 2 * 5) (replicate (CHUNK_SIZE - 5) 0))"
    using pad_unpad_result [OF fills, of data] cs data by (simp add: ok del: drop_replicate)
  also have "\<dots> = Some (replicate 5 0)"
    using cs by simp
  finally show ?thesis by (simp add: data_def)
qed

text \<open>
  The header overwrites the data.  Two inputs of the same length that differ only in their
  first four bytes are padded to the same block, so no decoder can tell them apart.
\<close>

theorem pad_header_overwrites:
  assumes "length a = length b" and "drop 4 a = drop 4 b"
  shows "pad_with_length_header rng a = pad_with_length_header rng b"
proof -
  have "drop 4 (a @ r) = drop 4 (b @ r)" for r using assms by simp
  then show ?thesis
    using assms by (simp add: pad_with_length_header_def pad_chunk_def Let_def)
qed

theorem pad_header_overwrites_witness:
  "pad_with_length_header (\<lambda>n. replicate n 0) [1, 2, 3, 4, 5] =
   pad_with_length_header (\<lambda>n. replicate n 0) [9, 8, 7, 6, 5]"
  by (rule pad_header_overwrites) simp_all

end
