(* ===== verification/Chunking.thy ===== *)
theory Chunking
  imports CoreTypes
begin

text \<open>
  core/src/chunking.rs: data is cut into 4 MiB chunks and glued together again.  The loop over
  \<open>step_by\<close> is translated as it is written and then shown to be the recursive cutting
  \<open>fixed_chunks\<close>, on which the properties are proved.
\<close>

section \<open>The operations\<close>

definition chunk_data :: "bytes \<Rightarrow> bytes list" where
  "chunk_data data =
     (if data = [] then []
      else map (\<lambda>i. sub_slice i (min (i + CHUNK_SIZE) (length data)) data)
             (step_by 0 (length data) CHUNK_SIZE))"

definition assemble_chunks :: "bytes list \<Rightarrow> bytes" where
  "assemble_chunks chunks = foldl (\<lambda>data chunk. data @ chunk) [] chunks"

text \<open>\<open>usize\<close> arithmetic, at 64 bits.\<close>

definition chunk_count :: "u64 \<Rightarrow> u64" where
  "chunk_count data_len =
     (if data_len = 0 then 0
      else (data_len + of_nat CHUNK_SIZE - 1) div of_nat CHUNK_SIZE)"

definition generate_chunk_ids :: "crypto \<Rightarrow> bytes list \<Rightarrow> ChunkId list" where
  "generate_chunk_ids cr chunks = map (\<lambda>c. ChunkId_new cr c) chunks"

section \<open>Reference: cutting from the front\<close>

function fixed_chunks :: "nat \<Rightarrow> 'a list \<Rightarrow> 'a list list" where
  "fixed_chunks n xs = (if xs = [] \<or> n = 0 then [] else take n xs # fixed_chunks n (drop n xs))"
  by pat_completeness auto
termination
  by (relation "measure (\<lambda>(n, xs). length xs)") auto

declare fixed_chunks.simps [simp del]

lemma fixed_chunks_Nil [simp]: "fixed_chunks n [] = []"
  by (subst fixed_chunks.simps) simp

lemma fixed_chunks_step:
  "xs \<noteq> [] \<Longrightarrow> 0 < n \<Longrightarrow> fixed_chunks n xs = take n xs # fixed_chunks n (drop n xs)"
  by (subst fixed_chunks.simps) simp

text \<open>The code's loop over the start positions is the same cutting.\<close>

lemma sub_slice_shift:
  "i < length xs - n \<Longrightarrow>
   sub_slice (i + n) (min (i + n + n) (length xs)) xs =
   sub_slice i (min (i + n) (length (drop n xs))) (drop n xs)"
  by (auto simp: sub_slice_def min_def add.commute)

lemma step_by_chunks:
  assumes "0 < n"
  shows "map (\<lambda>i. sub_slice i (min (i + n) (length xs)) xs) (step_by 0 (length xs) n) =
    fixed_chunks n xs"
  using assms
proof (induction n xs rule: fixed_chunks.induct)
  case (1 n xs)
  show ?case
  proof (cases "xs = []")
    case False
    let ?f = "\<lambda>xs i. sub_slice i (min (i + n) (length xs)) xs"
    have "map (\<lambda>i. ?f xs (i + n)) (step_by 0 (length xs - n) n) =
        map (?f (drop n xs)) (step_by 0 (length (drop n xs)) n)"
      using sub_slice_shift [of _ xs n] step_by_bounds [of _ 0 "length xs - n" n]
      by (intro map_cong) auto
    with False "1.IH" "1.prems" have "map (\<lambda>i. ?f xs (i + n)) (step_by 0 (length xs - n) n) =
        fixed_chunks n (drop n xs)" by simp
    with False "1.prems" show ?thesis
      by (cases "n \<le> length xs") (simp_all add: step_by_0 fixed_chunks_step [of xs] sub_slice_def o_def)
  qed simp
qed

lemma chunk_data_fixed: "chunk_data data = fixed_chunks CHUNK_SIZE data"
  by (simp add: chunk_data_def step_by_chunks)

lemma assemble_chunks_concat: "assemble_chunks cs = concat cs"
proof -
  have "foldl (\<lambda>d c. d @ c) acc cs = acc @ concat cs" for acc :: bytes
    by (induction cs arbitrary: acc) auto
  from this [of "[]"] show ?thesis by (simp add: assemble_chunks_def)
qed

section \<open>Facts about the cutting\<close>

lemma concat_fixed_chunks: "0 < n \<Longrightarrow> concat (fixed_chunks n xs) = xs"
proof (induction n xs rule: fixed_chunks.induct)
  case (1 n xs)
  then show ?case by (cases "xs = []") (simp_all add: fixed_chunks_step)
qed

lemma length_fixed_chunks: "0 < n \<Longrightarrow> length (fixed_chunks n xs) = (length xs + n - 1) div n"
proof (induction n xs rule: fixed_chunks.induct)
  case (1 n xs)
  show ?case
  proof (cases "xs = []")
    case False
    with 1 have IH: "length (fixed_chunks n (drop n xs)) = (length xs - n + n - 1) div n" by simp
    show ?thesis
    proof (cases "length xs \<le> n")
      case True
      moreover from False have "0 < length xs" by simp
      ultimately have "(length xs + n - 1) div n = 1"
        using "1.prems" by (intro div_nat_eqI) (linarith, simp)
      with True False "1.prems" show ?thesis by (simp add: fixed_chunks_step [of xs])
    next
      case len: False
      with "1.prems" have "(length xs + n - 1) div n = Suc ((length xs - 1) div n)"
        using div_add_self2 [of n "length xs - 1"] by (simp add: add.commute)
      with len False IH "1.prems" show ?thesis by (simp add: fixed_chunks_step [of xs])
    qed
  qed (use 1 in simp)
qed

lemma nth_fixed_chunks:
  "0 < n \<Longrightarrow> i < length (fixed_chunks n xs) \<Longrightarrow> fixed_chunks n xs ! i = take n (drop (i * n) xs)"
proof (induction i arbitrary: xs)
  case 0
  then show ?case by (cases "xs = []") (simp_all add: fixed_chunks_step [of xs])
next
  case (Suc i)
  then show ?case
    by (cases "xs = []") (simp_all add: fixed_chunks_step [of xs] add.commute)
qed

text \<open>Every chunk but the last is full; the last one is not empty.\<close>

lemma fixed_chunks_sizes:
  assumes "0 < n" and "i < length (fixed_chunks n xs)"
  shows "length (fixed_chunks n xs ! i) = min n (length xs - i * n)"
    and "0 < length (fixed_chunks n xs ! i)"
    and "Suc i < length (fixed_chunks n xs) \<Longrightarrow> length (fixed_chunks n xs ! i) = n"
proof -
  show len: "length (fixed_chunks n xs ! i) = min n (length xs - i * n)"
    using assms by (simp add: nth_fixed_chunks)
  have le: "j * n < length xs" if "j < length (fixed_chunks n xs)" for j
  proof -
    from that assms(1) have "Suc j \<le> (length xs + n - 1) div n"
      by (simp add: length_fixed_chunks)
    then have "Suc j * n \<le> length xs + n - 1"
      using assms(1) by (simp add: less_eq_div_iff_mult_less_eq)
    with assms(1) show ?thesis by simp
  qed
  from le [OF assms(2)] len assms(1) show "0 < length (fixed_chunks n xs ! i)" by simp
  show "length (fixed_chunks n xs ! i) = n" if "Suc i < length (fixed_chunks n xs)"
    using le [OF that] len by simp
qed

section \<open>Properties\<close>

text \<open>
  C6: cutting and gluing is the identity, for data of every length, and the identifier of the
  \<open>i\<close>-th chunk is the hash of the corresponding 4 MiB of the data.
\<close>

theorem chunk_assemble_roundtrip:
  "assemble_chunks (chunk_data data) = data \<and>
   length (generate_chunk_ids cr (chunk_data data)) = length (chunk_data data) \<and>
   list_all2 (\<lambda>i id. id = ChunkId_new cr (take CHUNK_SIZE (drop (i * CHUNK_SIZE) data)))
     [0..<length (chunk_data data)] (generate_chunk_ids cr (chunk_data data))"
  by (auto simp: assemble_chunks_concat chunk_data_fixed concat_fixed_chunks generate_chunk_ids_def
      list_all2_conv_all_nth nth_fixed_chunks)

text \<open>
  The chunk sizes.  \<open>chunk_count\<close>, computed in 64-bit arithmetic, is the number of chunks
  for every slice that fits into memory (at most \<open>isize::MAX\<close> bytes); every chunk but the last
  is full, and the last one is neither empty nor larger than 4 MiB.
\<close>

theorem chunk_sizes:
  assumes "length data < 2 ^ 63"
  shows "unat (chunk_count (of_nat (length data))) = length (chunk_data data) \<and>
    (\<forall>i < length (chunk_data data).
       length (chunk_data data ! i) = min CHUNK_SIZE (length data - i * CHUNK_SIZE) \<and>
       0 < length (chunk_data data ! i) \<and>
       (Suc i < length (chunk_data data) \<longrightarrow> length (chunk_data data ! i) = CHUNK_SIZE))"
proof -
  have small: "length data + CHUNK_SIZE - 1 < 2 ^ 64"
    using assms by (simp add: CHUNK_SIZE_def)
  have count: "unat (chunk_count (of_nat (length data))) = (length data + CHUNK_SIZE - 1) div CHUNK_SIZE"
  proof (cases "length data = 0")
    case True
    then show ?thesis by (simp add: chunk_count_def CHUNK_SIZE_def)
  next
    case False
    have "unat (of_nat (length data) :: u64) = length data"
      using assms by (simp add: unat_of_nat)
    with False have "(of_nat (length data) :: u64) \<noteq> 0" by (metis unat_0)
    moreover have "of_nat (length data) + of_nat CHUNK_SIZE - 1 = (of_nat (length data + CHUNK_SIZE - 1) :: u64)"
      using of_nat_diff [of 1 "length data + CHUNK_SIZE", where 'a = u64] CHUNK_SIZE_pos
      by (simp add: Suc_le_eq)
    moreover have "unat (of_nat (length data + CHUNK_SIZE - 1) :: u64) = length data + CHUNK_SIZE - 1"
      using small by (simp add: unat_of_nat)
    moreover have "unat (of_nat CHUNK_SIZE :: u64) = CHUNK_SIZE"
      by (simp add: CHUNK_SIZE_def)
    ultimately show ?thesis by (simp add: chunk_count_def unat_div)
  qed
  then show ?thesis
    using fixed_chunks_sizes [OF CHUNK_SIZE_pos, of _ data]
    by (simp add: chunk_data_fixed length_fixed_chunks)
qed

theorem chunk_sizes_witness:
  "unat (chunk_count (of_nat (length [1, 2, 3 :: byte]))) = length (chunk_data [1, 2, 3])"
  using chunk_sizes [of "[1, 2, 3]"] by simp

end
