(* ===== verification/Encryption.thy ===== *)
theory Encryption
  imports Padding
begin

text \<open>
  core/src/encryption.rs: chunks are encrypted with XChaCha20-Poly1305 under a key that Argon2id
  derives from a password.  The two crates are the arguments \<open>A\<close> and \<open>K\<close>; \<open>aead_laws\<close> is what
  RFC 8439 and the crate document: keys of 32 and nonces of 24 bytes, a tag of 16 bytes, data
  of fewer than \<open>2 ^ 32 - 1\<close> blocks of 64 bytes, and that decryption recomputes the tag, so it
  accepts exactly what encryption produces.  That nobody without the key finds such a text is a
  computational statement, and none of the laws.
\<close>

section \<open>The crates\<close>

record aead_crate =
  ae_new_from_slice :: "bytes \<Rightarrow> bool"
  ae_encrypt :: "bytes \<Rightarrow> bytes \<Rightarrow> bytes \<Rightarrow> bytes option"
  ae_decrypt :: "bytes \<Rightarrow> bytes \<Rightarrow> bytes \<Rightarrow> bytes option"

definition AEAD_LIMIT :: nat where
  "AEAD_LIMIT = 64 * (2 ^ 32 - 1)"

definition aead_laws :: "aead_crate \<Rightarrow> bool" where
  "aead_laws A \<longleftrightarrow>
     (\<forall>key. ae_new_from_slice A key \<longleftrightarrow> length key = 32) \<and>
     (\<forall>key nonce data. length key = 32 \<and> length nonce = 24 \<longrightarrow>
        (if length data < AEAD_LIMIT
         then \<exists>ct. ae_encrypt A key nonce data = Some ct \<and> length ct = length data + 16
         else ae_encrypt A key nonce data = None)) \<and>
     (\<forall>key nonce ct data. length key = 32 \<and> length nonce = 24 \<longrightarrow>
        (ae_decrypt A key nonce ct = Some data \<longleftrightarrow> ae_encrypt A key nonce data = Some ct))"

lemma aead_new: "aead_laws A \<Longrightarrow> ae_new_from_slice A key \<longleftrightarrow> length key = 32"
  by (simp add: aead_laws_def)

lemma aead_enc:
  assumes "aead_laws A" and "length key = 32" and "length nonce = 24"
  shows "if length data < AEAD_LIMIT
    then \<exists>ct. ae_encrypt A key nonce data = Some ct \<and> length ct = length data + 16
    else ae_encrypt A key nonce data = None"
  using assms unfolding aead_laws_def by blast

lemma aead_dec:
  assumes "aead_laws A" and "length key = 32" and "length nonce = 24"
  shows "ae_decrypt A key nonce ct = Some data \<longleftrightarrow> ae_encrypt A key nonce data = Some ct"
  using assms unfolding aead_laws_def by blast

text \<open>
  \<open>kd_params m t p out\<close> tells whether \<open>Params::new\<close> accepts the costs and the length;
  \<open>kd_hash_into\<close> is the content of the output buffer.
\<close>

record kdf_crate =
  kd_params :: "nat \<Rightarrow> nat \<Rightarrow> nat \<Rightarrow> nat option \<Rightarrow> bool"
  kd_hash_into :: "nat \<Rightarrow> nat \<Rightarrow> nat \<Rightarrow> bytes \<Rightarrow> bytes \<Rightarrow> nat \<Rightarrow> bytes option"

definition kdf_laws :: "kdf_crate \<Rightarrow> bool" where
  "kdf_laws K \<longleftrightarrow>
     (\<forall>m t p out. 8 * p \<le> m \<and> 0 < t \<and> 0 < p \<and> 4 \<le> out \<and> m < 2 ^ 32 \<and> t < 2 ^ 32 \<and> p < 2 ^ 24 \<and> out < 2 ^ 32
        \<longrightarrow> kd_params K m t p (Some out)) \<and>
     (\<forall>m t p pwd salt n. kd_params K m t p (Some n) \<and> 8 \<le> length salt \<and> length salt < 2 ^ 32 \<and> length pwd < 2 ^ 32
        \<longrightarrow> kd_hash_into K m t p pwd salt n \<noteq> None) \<and>
     (\<forall>m t p pwd salt n key. kd_hash_into K m t p pwd salt n = Some key \<longrightarrow> length key = n)"

section \<open>The operations\<close>

text \<open>\<open>XNonce::from_slice\<close> asserts the length of its argument.\<close>

definition xnonce_from_slice :: "bytes \<Rightarrow> bytes result" where
  "xnonce_from_slice b = (if length b = 24 then Inr b else Inl Panic)"

definition encrypt :: "aead_crate \<Rightarrow> (nat \<Rightarrow> bytes) \<Rightarrow> DerivedKey \<Rightarrow> bytes \<Rightarrow> (Nonce \<times> bytes) result" where
  "encrypt A rng key plaintext =
     (if \<not> ae_new_from_slice A (derived_bytes key) then Inl (Err ''Failed to create cipher from key'')
      else
        let nonce_bytes = rng NONCE_LEN
        in try_then (xnonce_from_slice nonce_bytes) (\<lambda>nonce.
          case ae_encrypt A (derived_bytes key) nonce plaintext of
            None \<Rightarrow> Inl (Err ''Encryption failed'')
          | Some ciphertext \<Rightarrow> Inr (Nonce nonce_bytes, ciphertext)))"

definition decrypt :: "aead_crate \<Rightarrow> DerivedKey \<Rightarrow> Nonce \<Rightarrow> bytes \<Rightarrow> bytes result" where
  "decrypt A key nonce ciphertext =
     (if \<not> ae_new_from_slice A (derived_bytes key) then Inl (Err ''Failed to create cipher from key'')
      else try_then (xnonce_from_slice (nonce_bytes nonce)) (\<lambda>n.
        case ae_decrypt A (derived_bytes key) n ciphertext of
          None \<Rightarrow> Inl (Err ''Decryption failed (invalid key, nonce, or tampered data)'')
        | Some plaintext \<Rightarrow> Inr plaintext))"

definition derive_key :: "kdf_crate \<Rightarrow> string \<Rightarrow> bytes \<Rightarrow> DerivedKey result" where
  "derive_key K password salt =
     (if \<not> kd_params K 65536 3 4 (Some DERIVED_KEY_LEN) then Inl (Err ''Invalid Argon2id parameters'')
      else
        case kd_hash_into K 65536 3 4 (as_bytes password) salt DERIVED_KEY_LEN of
          None \<Rightarrow> Inl (Err ''Key derivation failed'')
        | Some key \<Rightarrow> Inr (DerivedKey key))"

definition generate_salt :: "(nat \<Rightarrow> bytes) \<Rightarrow> bytes" where
  "generate_salt rng = rng SALT_LEN"

definition generate_master_key :: "(nat \<Rightarrow> bytes) \<Rightarrow> MasterKey" where
  "generate_master_key rng = MasterKey (rng KEY_LEN)"

section \<open>Facts\<close>

text \<open>The array types of the source: a key of 32 bytes and a nonce of 24.\<close>

definition key_ok :: "DerivedKey \<Rightarrow> bool" where
  "key_ok key \<longleftrightarrow> length (derived_bytes key) = DERIVED_KEY_LEN"

definition nonce_ok :: "Nonce \<Rightarrow> bool" where
  "nonce_ok nonce \<longleftrightarrow> length (nonce_bytes nonce) = NONCE_LEN"

lemmas array_lengths = key_ok_def nonce_ok_def rng_fills_def DERIVED_KEY_LEN_def NONCE_LEN_def

lemma kdf_hash:
  assumes "kdf_laws K" and "kd_params K m t p (Some n)" and "8 \<le> length salt" and "length salt < 2 ^ 32"
    and "length pwd < 2 ^ 32"
  shows "\<exists>key. kd_hash_into K m t p pwd salt n = Some key \<and> length key = n"
  using assms unfolding kdf_laws_def by blast

lemma kdf_length: "kdf_laws K \<Longrightarrow> kd_hash_into K m t p pwd salt n = Some key \<Longrightarrow> length key = n"
  unfolding kdf_laws_def by blast

text \<open>Whatever a key derivation returns is a key, and it never panics.\<close>

lemma derive_key_type:
  assumes "kdf_laws K"
  shows "derive_key K password salt \<noteq> Inl Panic"
    and "derive_key K password salt = Inr key \<Longrightarrow> key_ok key"
  using kdf_length [OF assms] by (auto simp: derive_key_def array_lengths split: option.splits if_splits)

lemma derive_key_ok:
  assumes "kdf_laws K" and "length salt = SALT_LEN" and "length password < 2 ^ 32"
  obtains key where "derive_key K password salt = Inr key" "key_ok key"
proof -
  have p: "kd_params K 65536 3 4 (Some 32)" using assms(1) by (simp add: kdf_laws_def)
  obtain b where "kd_hash_into K 65536 3 4 (as_bytes password) salt 32 = Some b" "length b = 32"
    using kdf_hash [OF assms(1) p, of salt "as_bytes password"] assms(2,3)
    by (auto simp: as_bytes_def SALT_LEN_def)
  with p that [of "DerivedKey b"] show thesis
    by (simp add: derive_key_def array_lengths)
qed

lemma encrypt_eq:
  assumes "aead_laws A" and "rng_fills rng" and "key_ok key"
  shows "encrypt A rng key data = Inr (nonce, ct) \<longleftrightarrow>
    nonce = Nonce (rng NONCE_LEN) \<and> ae_encrypt A (derived_bytes key) (rng NONCE_LEN) data = Some ct"
  using assms(2,3) by (auto simp: encrypt_def Let_def xnonce_from_slice_def aead_new [OF assms(1)] array_lengths
      split: option.splits)

lemma encrypt_total:
  assumes "aead_laws A" and "rng_fills rng" and "key_ok key" and "length data < AEAD_LIMIT"
  obtains nonce ct where "encrypt A rng key data = Inr (nonce, ct)"
proof -
  from assms aead_enc [OF assms(1), of "derived_bytes key" "rng NONCE_LEN" data] obtain ct where
    "ae_encrypt A (derived_bytes key) (rng NONCE_LEN) data = Some ct"
    by (auto simp: array_lengths)
  then show thesis
    using that [of "Nonce (rng NONCE_LEN)" ct] encrypt_eq [OF assms(1-3)] by simp
qed

lemma decrypt_eq:
  assumes "aead_laws A" and "key_ok key" and "nonce_ok nonce"
  shows "decrypt A key nonce ct = Inr data \<longleftrightarrow>
    ae_encrypt A (derived_bytes key) (nonce_bytes nonce) data = Some ct"
proof -
  have len: "length (derived_bytes key) = 32" "length (nonce_bytes nonce) = 24"
    using assms(2,3) by (simp_all add: array_lengths)
  then have "decrypt A key nonce ct = Inr data \<longleftrightarrow>
      ae_decrypt A (derived_bytes key) (nonce_bytes nonce) ct = Some data"
    by (simp add: decrypt_def xnonce_from_slice_def aead_new [OF assms(1)] split: option.split)
  with aead_dec [OF assms(1) len] show ?thesis by simp
qed

lemma encrypt_type:
  assumes "aead_laws A" and "rng_fills rng"
  shows "encrypt A rng key data \<noteq> Inl Panic"
    and "encrypt A rng key data = Inr (nonce, ct) \<Longrightarrow> key_ok key \<and> nonce_ok nonce"
  using assms(2) by (auto simp: encrypt_def Let_def xnonce_from_slice_def aead_new [OF assms(1)] array_lengths
      split: option.splits if_splits)

lemma decrypt_no_panic:
  assumes "nonce_ok nonce"
  shows "decrypt A key nonce ct \<noteq> Inl Panic"
  using assms by (simp add: decrypt_def xnonce_from_slice_def array_lengths split: option.split)

lemma ae_encrypt_length:
  assumes "aead_laws A" and "length key = 32" and "length nonce = 24"
    and "ae_encrypt A key nonce data = Some ct"
  shows "length data < AEAD_LIMIT" and "length ct = length data + 16"
  using aead_enc [OF assms(1-3), of data] assms(4) by (auto split: if_splits)

text \<open>A text that decrypts is the encryption of what it decrypts to, under the same nonce.\<close>

lemma decrypt_encrypt:
  assumes "aead_laws A" and "rng_fills rng" and "key_ok key"
    and "encrypt A rng key data = Inr (nonce, ct)"
  shows "nonce_ok nonce" and "decrypt A key nonce ct' = Inr data \<longleftrightarrow> ct' = ct"
    and "length ct = length data + TAG_LEN"
proof -
  from assms(4) encrypt_eq [OF assms(1-3)] have n: "nonce = Nonce (rng NONCE_LEN)"
    and e: "ae_encrypt A (derived_bytes key) (rng NONCE_LEN) data = Some ct" by auto
  from n assms(2) show ok: "nonce_ok nonce" by (simp add: array_lengths)
  show "decrypt A key nonce ct' = Inr data \<longleftrightarrow> ct' = ct"
    using decrypt_eq [OF assms(1,3) ok] e by (auto simp: n)
  show "length ct = length data + TAG_LEN"
    using ae_encrypt_length [OF assms(1) _ _ e] assms(2,3) by (simp add: array_lengths TAG_LEN_def)
qed

lemma decrypt_short:
  assumes "aead_laws A" and "key_ok key" and "nonce_ok nonce" and "length ct < TAG_LEN"
  shows "\<exists>e. decrypt A key nonce ct = Inl (Err e)"
proof (cases "decrypt A key nonce ct")
  case (Inl e)
  with decrypt_no_panic [OF assms(3), of A key ct] show ?thesis by (cases e) auto
next
  case (Inr data)
  with decrypt_eq [OF assms(1-3)]
  have "ae_encrypt A (derived_bytes key) (nonce_bytes nonce) data = Some ct" by simp
  from ae_encrypt_length(2) [OF assms(1) _ _ this] assms(2-4) show ?thesis
    by (simp add: array_lengths TAG_LEN_def)
qed

section \<open>Concrete crates\<close>

text \<open>
  For the witnesses: a stream of one byte, drawn from the key and the nonce, and a tag that
  repeats a checksum (the documented shape, and no security).
\<close>

definition sample_stream :: "bytes \<Rightarrow> bytes \<Rightarrow> byte" where
  "sample_stream key nonce = sum_list key + sum_list nonce"

definition sample_seal :: "bytes \<Rightarrow> bytes \<Rightarrow> bytes \<Rightarrow> bytes option" where
  "sample_seal key nonce data =
     (if length data < AEAD_LIMIT
      then Some (map (\<lambda>b. b + sample_stream key nonce) data @ replicate 16 (sum_list key + sum_list data))
      else None)"

definition sample_unseal :: "bytes \<Rightarrow> bytes \<Rightarrow> bytes \<Rightarrow> bytes option" where
  "sample_unseal key nonce ct =
     (let data = map (\<lambda>b. b - sample_stream key nonce) (take (length ct - 16) ct)
      in if sample_seal key nonce data = Some ct then Some data else None)"

definition sample_aead :: aead_crate where
  "sample_aead = \<lparr>ae_new_from_slice = (\<lambda>key. length key = 32), ae_encrypt = sample_seal,
     ae_decrypt = sample_unseal\<rparr>"

lemma sample_unseal_iff: "sample_unseal key nonce ct = Some data \<longleftrightarrow> sample_seal key nonce data = Some ct"
proof
  assume seal: "sample_seal key nonce data = Some ct"
  then have ct: "ct = map (\<lambda>b. b + sample_stream key nonce) data @ replicate 16 (sum_list key + sum_list data)"
    by (simp add: sample_seal_def split: if_splits)
  have "map (\<lambda>b. b - sample_stream key nonce) (take (length ct - 16) ct) = data"
    by (simp add: ct o_def)
  with seal show "sample_unseal key nonce ct = Some data" by (simp add: sample_unseal_def)
next
  assume "sample_unseal key nonce ct = Some data"
  then show "sample_seal key nonce data = Some ct"
    unfolding sample_unseal_def Let_def by (simp split: if_splits)
qed

lemma sample_aead_laws: "aead_laws sample_aead"
proof -
  have "if length data < AEAD_LIMIT
      then \<exists>ct. sample_seal key nonce data = Some ct \<and> length ct = length data + 16
      else sample_seal key nonce data = None" for key nonce data
    by (simp add: sample_seal_def)
  then show ?thesis by (simp add: aead_laws_def sample_aead_def sample_unseal_iff)
qed

definition sample_kdf :: kdf_crate where
  "sample_kdf = \<lparr>kd_params = (\<lambda>m t p out. True),
     kd_hash_into = (\<lambda>m t p pwd salt n. Some (take n (pwd @ salt @ replicate n 0)))\<rparr>"

lemma sample_kdf_laws: "kdf_laws sample_kdf"
  by (simp add: kdf_laws_def sample_kdf_def) linarith

end
