(* ===== verification/Erasure.thy ===== *)
theory Erasure
  imports CoreTypes
begin

text \<open>
  core/src/erasure.rs: (3, 5) erasure coding.  The reed-solomon-erasure crate is the argument
  \<open>R\<close>; \<open>rs_laws\<close> states its documented behaviour for 3 data and 2 parity shards: encoding
  fills in the parity shards and keeps the data shards, any three shards of a codeword give
  the codeword back, and too few, empty or unequal shards are errors.
\<close>

section \<open>The Reed-Solomon crate\<close>

record rs_crate =
  rs_new :: "nat \<Rightarrow> nat \<Rightarrow> bool"
  rs_encode :: "nat \<Rightarrow> nat \<Rightarrow> bytes list \<Rightarrow> bytes list option"
  rs_reconstruct :: "nat \<Rightarrow> nat \<Rightarrow> bytes option list \<Rightarrow> bytes option list option"

definition same_size :: "nat \<Rightarrow> bytes list \<Rightarrow> bool" where
  "same_size n ss = (\<forall>s \<in> set ss. length s = n)"

definition present :: "'a option list \<Rightarrow> nat" where
  "present ss = length (filter (\<lambda>s. s \<noteq> None) ss)"

definition rs_laws :: "rs_crate \<Rightarrow> bool" where
  "rs_laws R \<longleftrightarrow>
     rs_new R 3 2 \<and>
     (\<forall>n ds zs. 0 < n \<and> length ds = 3 \<and> length zs = 2 \<and> same_size n (ds @ zs) \<longrightarrow>
        (\<exists>ps. rs_encode R 3 2 (ds @ zs) = Some (ds @ ps) \<and> length ps = 2 \<and> same_size n ps)) \<and>
     (\<forall>n ds zs cw ss. 0 < n \<and> length ds = 3 \<and> length zs = 2 \<and> same_size n (ds @ zs) \<and>
        rs_encode R 3 2 (ds @ zs) = Some cw \<and>
        list_all2 (\<lambda>s c. s = None \<or> s = Some c) ss cw \<and> 3 \<le> present ss \<longrightarrow>
        rs_reconstruct R 3 2 ss = Some (map Some cw)) \<and>
     (\<forall>ss. present ss < 3 \<longrightarrow> rs_reconstruct R 3 2 ss = None) \<and>
     (\<forall>ss. Some [] \<in> set ss \<longrightarrow> rs_reconstruct R 3 2 ss = None)"

section \<open>The operations\<close>

text \<open>\<open>xs.chunks_exact(n)\<close>: full pieces only, a shorter rest is left out.\<close>

definition chunks_exact :: "nat \<Rightarrow> 'a list \<Rightarrow> 'a list list" where
  "chunks_exact n xs = map (\<lambda>i. sub_slice (i * n) (i * n + n) xs) [0..<length xs div n]"

definition erasure_encode :: "rs_crate \<Rightarrow> bytes \<Rightarrow> bytes list result" where
  "erasure_encode R data =
     (if \<not> rs_new R RS_DATA_SHARDS RS_PARITY_SHARDS
      then Inl (Err ''Failed to create Reed-Solomon encoder (invalid shard counts)'')
      else if data = [] then Inr (replicate RS_TOTAL_SHARDS [])
      else
        let total_len = ((length data + RS_DATA_SHARDS - 1) div RS_DATA_SHARDS) * RS_DATA_SHARDS;
            padded = data @ replicate (total_len - length data) 0;
            shard_size = total_len div RS_DATA_SHARDS;
            shards = chunks_exact shard_size padded @
              replicate RS_PARITY_SHARDS (replicate shard_size 0)
        in (case rs_encode R RS_DATA_SHARDS RS_PARITY_SHARDS shards of
              None \<Rightarrow> Inl (Err ''Reed-Solomon encoding failed'')
            | Some ss \<Rightarrow> Inr ss))"

text \<open>The loop that places the given shards; a later shard replaces an earlier one.\<close>

fun place_shards :: "(nat \<times> bytes) list \<Rightarrow> bytes option list \<Rightarrow> bytes option list result" where
  "place_shards [] shards = Inr shards"
| "place_shards ((idx, data) # rest) shards =
     (if idx \<ge> RS_TOTAL_SHARDS then Inl (Err ''Shard index out of range'')
      else place_shards rest (shards[idx := Some data]))"

definition erasure_reconstruct :: "rs_crate \<Rightarrow> (nat \<times> bytes) list \<Rightarrow> bytes result" where
  "erasure_reconstruct R shard_data =
     (if length shard_data < RS_DATA_SHARDS
      then Inl (Err ''Need at least 3 shards to reconstruct'')
      else if shard_data = [] then Inl (Err ''No shards provided'')
      else try_then (place_shards shard_data (replicate RS_TOTAL_SHARDS None))
        (\<lambda>shards.
          if \<not> rs_new R RS_DATA_SHARDS RS_PARITY_SHARDS
          then Inl (Err ''Failed to create Reed-Solomon decoder'')
          else
            (case rs_reconstruct R RS_DATA_SHARDS RS_PARITY_SHARDS shards of
               None \<Rightarrow> Inl (Err ''Reed-Solomon reconstruction failed'')
             | Some full \<Rightarrow>
                 Inr (concat (map (\<lambda>i. case full ! i of None \<Rightarrow> [] | Some shard \<Rightarrow> shard)
                   [0..<RS_DATA_SHARDS])))))"

section \<open>Splitting the padded data\<close>

lemma length_chunks_exact [simp]: "length (chunks_exact n xs) = length xs div n"
  by (simp add: chunks_exact_def)

lemma chunks_exact_size: "c \<in> set (chunks_exact n xs) \<Longrightarrow> length c = n"
proof -
  assume "c \<in> set (chunks_exact n xs)"
  then obtain i where i: "i < length xs div n" and c: "c = sub_slice (i * n) (i * n + n) xs"
    by (auto simp: chunks_exact_def)
  from i have "Suc i * n \<le> length xs"
    by (metis Suc_leI div_times_less_eq_dividend le_trans mult_le_mono1)
  then show ?thesis by (simp add: c sub_slice_def)
qed

lemma concat_sub_slices: "concat (map (\<lambda>i. sub_slice (i * n) (i * n + n) xs) [0..<k]) = take (k * n) xs"
proof (induction k)
  case (Suc k)
  then show ?case
    using take_add [of "k * n" n xs] by (simp add: sub_slice_def add.commute)
qed simp

lemma concat_chunks_exact: "n dvd length xs \<Longrightarrow> concat (chunks_exact n xs) = xs"
  by (simp add: chunks_exact_def concat_sub_slices)

definition shard_size_of :: "nat \<Rightarrow> nat" where
  "shard_size_of len = (len + 2) div 3"

lemma shard_size_pos: "0 < len \<Longrightarrow> 0 < shard_size_of len"
  by (simp add: shard_size_of_def)

lemma shard_size_covers: "len \<le> shard_size_of len * 3"
  unfolding shard_size_of_def by presburger

section \<open>Encoding\<close>

lemma erasure_encode_ok:
  assumes "rs_laws R" and "data \<noteq> []"
  obtains ds zs ps where
    "erasure_encode R data = Inr (ds @ ps)"
    "rs_encode R 3 2 (ds @ zs) = Some (ds @ ps)"
    "length ds = 3" "length zs = 2" "length ps = 2"
    "same_size (shard_size_of (length data)) (ds @ zs)"
    "same_size (shard_size_of (length data)) ps"
    "concat ds = data @ replicate (shard_size_of (length data) * 3 - length data) 0"
proof -
  let ?n = "shard_size_of (length data)"
  let ?padded = "data @ replicate (?n * 3 - length data) 0"
  let ?ds = "chunks_exact ?n ?padded" and ?zs = "replicate 2 (replicate ?n (0 :: byte))"
  have n: "0 < ?n" using assms(2) by (simp add: shard_size_pos)
  have len: "length ?padded = ?n * 3" using shard_size_covers [of "length data"] by simp
  then have ds: "length ?ds = 3" using n by simp
  have size: "same_size ?n (?ds @ ?zs)"
    by (auto simp: same_size_def dest: chunks_exact_size)
  from assms(1) n ds size obtain ps where
    ps: "rs_encode R 3 2 (?ds @ ?zs) = Some (?ds @ ps)" "length ps = 2" "same_size ?n ps"
    unfolding rs_laws_def by (metis (no_types, lifting) length_replicate)
  have "erasure_encode R data = Inr (?ds @ ps)"
    using assms ps(1) by (simp add: erasure_encode_def shard_count_defs rs_laws_def shard_size_of_def Let_def)
  moreover have "concat ?ds = ?padded"
    using concat_chunks_exact [of ?n ?padded] len by simp
  ultimately show thesis using that [of ?ds ps ?zs] ps ds size by simp
qed

section \<open>Placing shards\<close>

lemma place_shards_length:
  "place_shards sel shards = Inr out \<Longrightarrow> length out = length shards"
  by (induction sel shards rule: place_shards.induct) (auto split: if_splits)

lemma place_shards_range:
  "place_shards sel shards = Inr out \<Longrightarrow> length shards = RS_TOTAL_SHARDS \<Longrightarrow>
   \<forall>(i, s) \<in> set sel. i < RS_TOTAL_SHARDS"
  by (induction sel shards rule: place_shards.induct) (auto split: if_splits)

lemma place_shards_total:
  "\<forall>(i, s) \<in> set sel. i < RS_TOTAL_SHARDS \<Longrightarrow> \<exists>out. place_shards sel shards = Inr out"
  by (induction sel shards rule: place_shards.induct) auto

text \<open>The places that are filled are the given indices, besides those filled before.\<close>

lemma place_shards_filled:
  "place_shards sel shards = Inr out \<Longrightarrow> length shards = RS_TOTAL_SHARDS \<Longrightarrow> i < RS_TOTAL_SHARDS \<Longrightarrow>
   out ! i \<noteq> None \<longleftrightarrow> i \<in> fst ` set sel \<or> shards ! i \<noteq> None"
proof (induction sel shards rule: place_shards.induct)
  case (2 idx data rest shards)
  then show ?case by (cases "i = idx") (auto split: if_splits)
qed auto

lemma place_shards_from:
  "place_shards sel shards = Inr out \<Longrightarrow> length shards = RS_TOTAL_SHARDS \<Longrightarrow> i < RS_TOTAL_SHARDS \<Longrightarrow>
   out ! i = Some s \<Longrightarrow> (i, s) \<in> set sel \<or> shards ! i = Some s"
proof (induction sel shards rule: place_shards.induct)
  case (2 idx data rest shards)
  then show ?case by (cases "i = idx") (auto split: if_splits)
qed auto

lemma present_card: "present ss = card {i. i < length ss \<and> ss ! i \<noteq> None}"
  by (simp add: present_def length_filter_conv_card)

lemma place_shards_present:
  assumes "place_shards sel (replicate RS_TOTAL_SHARDS None) = Inr out"
  shows "present out = card (fst ` set sel)"
proof -
  have len: "length out = RS_TOTAL_SHARDS" using place_shards_length [OF assms] by simp
  have range: "\<And>i. i \<in> fst ` set sel \<Longrightarrow> i < RS_TOTAL_SHARDS"
    using place_shards_range [OF assms] by auto
  have "i < length out \<and> out ! i \<noteq> None \<longleftrightarrow> i \<in> fst ` set sel" for i
    using place_shards_filled [OF assms, of i] range [of i] len
    by (cases "i < RS_TOTAL_SHARDS") (simp_all, blast)
  then have "{i. i < length out \<and> out ! i \<noteq> None} = fst ` set sel" by blast
  then show ?thesis by (simp add: present_card)
qed

end
