(* ===== verification/ErasureProofs.thy ===== *)
theory ErasureProofs
  imports Erasure
begin

unbundle bit_operations_syntax

text \<open>
  The properties of core/src/erasure.rs, and a Reed-Solomon code over the four-element field
  (applied to each pair of bits of a byte) that satisfies \<open>rs_laws\<close>, for the witnesses.
\<close>

section \<open>A concrete code\<close>

text \<open>Multiplication by a generator \<open>w\<close> of GF(4), with \<open>w * w = w + 1\<close>, on four bit pairs at once.\<close>

definition gf_w :: "byte \<Rightarrow> byte" where
  "gf_w x = (x AND 0xAA) XOR push_bit 1 (x AND 0x55) XOR drop_bit 1 (x AND 0xAA)"

lemma mask_bits: "bit (0xAA :: byte) n \<longleftrightarrow> n < 8 \<and> odd n" "bit (0x55 :: byte) n \<longleftrightarrow> n < 8 \<and> even n"
proof -
  have "bit (0xAA :: byte) n \<longleftrightarrow> odd n" "bit (0x55 :: byte) n \<longleftrightarrow> even n" if "n < 8"
  proof -
    from that have "n \<in> {0,1,2,3,4,5,6,7}" by auto
    then show "bit (0xAA :: byte) n \<longleftrightarrow> odd n" "bit (0x55 :: byte) n \<longleftrightarrow> even n" by auto
  qed
  moreover have "\<not> bit (w :: byte) n" if "\<not> n < 8" for w using that bit_imp_le_length by fastforce
  ultimately show "bit (0xAA :: byte) n \<longleftrightarrow> n < 8 \<and> odd n" "bit (0x55 :: byte) n \<longleftrightarrow> n < 8 \<and> even n" by blast+
qed

lemma bit_gf_w: "bit (gf_w x) n \<longleftrightarrow> n < 8 \<and> (if odd n then bit x n \<noteq> bit x (n - 1) else bit x (Suc n) \<and> n < 7)"
proof -
  have len: "bit x m \<Longrightarrow> m < 8" for m using bit_imp_le_length by fastforce
  show ?thesis
    unfolding gf_w_def bit_xor_iff bit_and_iff bit_push_bit_iff bit_drop_bit_eq mask_bits o_def
    by (cases n) (auto dest: len)
qed

lemma gf_w_w: "gf_w (gf_w x) = gf_w x XOR x"
proof (rule bit_word_eqI)
  fix n assume "n < LENGTH(8)"
  then show "bit (gf_w (gf_w x)) n = bit (gf_w x XOR x) n"
    unfolding bit_xor_iff bit_gf_w by (cases n) (auto elim!: oddE evenE)
qed
lemma gf_w_xor: "gf_w (x XOR y) = gf_w x XOR gf_w y"
  by (simp only: gf_w_def bit.conj_xor_distrib2 push_bit_xor drop_bit_xor ac_simps)

definition gf_p :: "byte \<Rightarrow> byte \<Rightarrow> byte \<Rightarrow> byte" where
  "gf_p a b c = a XOR b XOR c"

definition gf_q :: "byte \<Rightarrow> byte \<Rightarrow> byte \<Rightarrow> byte" where
  "gf_q a b c = a XOR gf_w b XOR gf_w c XOR c"

text \<open>Solving for the data bytes from any three of the five.\<close>

definition gf_solve :: "byte option \<Rightarrow> byte option \<Rightarrow> byte option \<Rightarrow> byte option \<Rightarrow> byte option \<Rightarrow>
    (byte \<times> byte \<times> byte) option" where
  "gf_solve s0 s1 s2 s3 s4 =
     (case (s0, s1, s2, s3, s4) of
        (Some a, Some b, Some c, _, _) \<Rightarrow> Some (a, b, c)
      | (None, Some b, Some c, Some p, _) \<Rightarrow> Some (p XOR b XOR c, b, c)
      | (None, Some b, Some c, None, Some q) \<Rightarrow> Some (q XOR gf_w b XOR gf_w c XOR c, b, c)
      | (Some a, None, Some c, Some p, _) \<Rightarrow> Some (a, p XOR a XOR c, c)
      | (Some a, None, Some c, None, Some q) \<Rightarrow>
          Some (a, gf_w (gf_w (q XOR a XOR gf_w c XOR c)), c)
      | (Some a, Some b, None, Some p, _) \<Rightarrow> Some (a, b, p XOR a XOR b)
      | (Some a, Some b, None, None, Some q) \<Rightarrow> Some (a, b, gf_w (q XOR a XOR gf_w b))
      | (None, None, Some c, Some p, Some q) \<Rightarrow>
          (let b = gf_w (p XOR c XOR q XOR gf_w c XOR c) in Some (p XOR b XOR c, b, c))
      | (None, Some b, None, Some p, Some q) \<Rightarrow>
          (let c = gf_w (gf_w (p XOR b XOR q XOR gf_w b)) in Some (p XOR b XOR c, b, c))
      | (Some a, None, None, Some p, Some q) \<Rightarrow>
          (let c = q XOR a XOR gf_w (p XOR a) in Some (a, p XOR a XOR c, c))
      | _ \<Rightarrow> None)"

lemma gf_solve_correct:
  assumes "s0 \<in> {None, Some a}" "s1 \<in> {None, Some b}" "s2 \<in> {None, Some c}"
    and "s3 \<in> {None, Some (gf_p a b c)}" "s4 \<in> {None, Some (gf_q a b c)}"
    and "3 \<le> present [s0, s1, s2, s3, s4]"
  shows "gf_solve s0 s1 s2 s3 s4 = Some (a, b, c)"
  using assms
  by (auto simp: gf_solve_def present_def gf_p_def gf_q_def gf_w_xor gf_w_w Let_def ac_simps)

text \<open>The code on shards: bytewise, in columns.\<close>

definition gf_parity :: "bytes list \<Rightarrow> bytes list" where
  "gf_parity ds =
     [map (\<lambda>i. gf_p (ds ! 0 ! i) (ds ! 1 ! i) (ds ! 2 ! i)) [0..<length (ds ! 0)],
      map (\<lambda>i. gf_q (ds ! 0 ! i) (ds ! 1 ! i) (ds ! 2 ! i)) [0..<length (ds ! 0)]]"

definition gf_column :: "bytes option list \<Rightarrow> nat \<Rightarrow> (byte \<times> byte \<times> byte) option" where
  "gf_column ss i =
     (let at = (\<lambda>k. map_option (\<lambda>s. s ! i) (ss ! k)) in gf_solve (at 0) (at 1) (at 2) (at 3) (at 4))"

definition gf_data :: "bytes option list \<Rightarrow> nat \<Rightarrow> bytes list" where
  "gf_data ss n =
     (let cols = map (\<lambda>i. the (gf_column ss i)) [0..<n]
      in [map fst cols, map (fst \<circ> snd) cols, map (snd \<circ> snd) cols])"

definition sample_rs :: rs_crate where
  "sample_rs =
     \<lparr>rs_new = (\<lambda>d p. d = 3 \<and> p = 2),
      rs_encode = (\<lambda>d p shards. Some (take 3 shards @ gf_parity (take 3 shards))),
      rs_reconstruct = (\<lambda>d p ss.
        if present ss < 3 \<or> Some [] \<in> set ss then None
        else
          let n = length (the (hd (filter (\<lambda>s. s \<noteq> None) ss)));
              ds = gf_data ss n
          in Some (map Some (ds @ gf_parity ds)))\<rparr>"

lemma length3: "length xs = 3 \<Longrightarrow> xs = [xs ! 0, xs ! 1, xs ! 2]"
  by (cases xs rule: remdups_adj.cases) (auto simp: numeral_3_eq_3 length_Suc_conv)

lemma gf_reconstruct_codeword:
  assumes n: "0 < n" and ds: "length ds = 3" "same_size n ds"
    and ss: "list_all2 (\<lambda>s c. s = None \<or> s = Some c) ss (ds @ gf_parity ds)" "3 \<le> present ss"
  shows "rs_reconstruct sample_rs 3 2 ss = Some (map Some (ds @ gf_parity ds))"
proof -
  have len: "length (ds ! 0) = n" "length (ds ! 1) = n" "length (ds ! 2) = n"
    using ds by (auto simp: same_size_def)
  have size: "same_size n (ds @ gf_parity ds)"
    using ds len by (auto simp: same_size_def gf_parity_def)
  obtain a b c where abc: "ds = [a, b, c]" using length3 [OF ds(1)] by blast
  have ds5: "ds @ gf_parity ds = [ds ! 0, ds ! 1, ds ! 2, gf_parity ds ! 0, gf_parity ds ! 1]"
    by (simp add: abc gf_parity_def)
  obtain s0 s1 s2 s3 s4 where ss5: "ss = [s0, s1, s2, s3, s4]"
    and alt: "s0 \<in> {None, Some (ds ! 0)}" "s1 \<in> {None, Some (ds ! 1)}" "s2 \<in> {None, Some (ds ! 2)}"
      "s3 \<in> {None, Some (gf_parity ds ! 0)}" "s4 \<in> {None, Some (gf_parity ds ! 1)}"
    using ss(1) unfolding ds5 by (auto simp: list_all2_Cons2)
  have member: "s = Some c \<Longrightarrow> s \<in> set ss \<Longrightarrow> length c = n" for s c
    using alt size unfolding ds5 ss5 same_size_def by auto
  have col: "gf_column ss i = Some (ds ! 0 ! i, ds ! 1 ! i, ds ! 2 ! i)" if "i < n" for i
  proof -
    have "3 \<le> present (map (map_option (\<lambda>s. s ! i)) [s0, s1, s2, s3, s4])"
      using ss(2) by (auto simp: ss5 present_def split: if_splits)
    then show ?thesis
      using alt that len unfolding gf_column_def ss5 Let_def
      by (intro gf_solve_correct) (auto simp: gf_parity_def)
  qed
  have "map (\<lambda>i. the (gf_column ss i)) [0..<n] = map (\<lambda>i. (ds ! 0 ! i, ds ! 1 ! i, ds ! 2 ! i)) [0..<n]"
    by (simp add: col)
  then have "gf_data ss n = [map (\<lambda>i. ds ! 0 ! i) [0..<n], map (\<lambda>i. ds ! 1 ! i) [0..<n],
      map (\<lambda>i. ds ! 2 ! i) [0..<n]]"
    by (simp add: gf_data_def Let_def o_def)
  then have data: "gf_data ss n = ds"
    using map_nth [of a] map_nth [of b] map_nth [of c] len by (simp add: abc)
  obtain s c where "hd (filter (\<lambda>s. s \<noteq> None) ss) = s" "s = Some c" "s \<in> set ss"
  proof -
    have "filter (\<lambda>s. s \<noteq> None) ss \<noteq> []" using ss(2) by (auto simp: present_def)
    then have "hd (filter (\<lambda>s. s \<noteq> None) ss) \<in> set (filter (\<lambda>s. s \<noteq> None) ss)" by (rule hd_in_set)
    then show thesis using that by auto
  qed
  moreover have "Some [] \<notin> set ss" using member n by fastforce
  ultimately show ?thesis
    using member data ss(2) by (simp add: sample_rs_def Let_def)
qed

lemma sample_rs_encode:
  "length ds = 3 \<Longrightarrow> rs_encode sample_rs 3 2 (ds @ zs) = Some (ds @ gf_parity ds)"
  by (simp add: sample_rs_def)

lemma gf_parity_shape:
  "length ds = 3 \<Longrightarrow> same_size n ds \<Longrightarrow> length (gf_parity ds) = 2 \<and> same_size n (gf_parity ds)"
  by (auto simp: gf_parity_def same_size_def)

lemma same_size_append: "same_size n (xs @ ys) \<longleftrightarrow> same_size n xs \<and> same_size n ys"
  by (auto simp: same_size_def)

lemma sample_rs_laws: "rs_laws sample_rs"
  unfolding rs_laws_def
proof (intro conjI allI impI)
  show "rs_new sample_rs 3 2" by (simp add: sample_rs_def)
next
  fix n and ds zs :: "bytes list"
  assume "0 < n \<and> length ds = 3 \<and> length zs = 2 \<and> same_size n (ds @ zs)"
  then show "\<exists>ps. rs_encode sample_rs 3 2 (ds @ zs) = Some (ds @ ps) \<and> length ps = 2 \<and> same_size n ps"
    using gf_parity_shape [of ds n]
    by (intro exI [of _ "gf_parity ds"]) (simp add: sample_rs_encode same_size_append)
next
  fix n ds zs cw ss
  assume a: "0 < n \<and> length ds = 3 \<and> length zs = 2 \<and> same_size n (ds @ zs) \<and>
      rs_encode sample_rs 3 2 (ds @ zs) = Some cw \<and>
      list_all2 (\<lambda>s c. s = None \<or> s = Some c) ss cw \<and> 3 \<le> present ss"
  then have "rs_encode sample_rs 3 2 (ds @ zs) = Some cw" "length ds = 3" by simp_all
  with sample_rs_encode [of ds zs] have "cw = ds @ gf_parity ds" by simp
  with a show "rs_reconstruct sample_rs 3 2 ss = Some (map Some cw)"
    using gf_reconstruct_codeword [of n ds ss] by (simp add: same_size_append)
qed (simp_all add: sample_rs_def)

section \<open>Properties\<close>

lemma place_shards_codeword:
  assumes "place_shards sel (replicate RS_TOTAL_SHARDS None) = Inr out"
    and "length cw = RS_TOTAL_SHARDS" and "\<forall>(i, s) \<in> set sel. s = cw ! i"
  shows "list_all2 (\<lambda>s c. s = None \<or> s = Some c) out cw"
proof -
  have len: "length out = RS_TOTAL_SHARDS" using place_shards_length [OF assms(1)] by simp
  have "out ! i = None \<or> out ! i = Some (cw ! i)" if "i < RS_TOTAL_SHARDS" for i
    using place_shards_from [OF assms(1) _ that] assms(3) that by (cases "out ! i") auto
  with len assms(2) show ?thesis by (simp add: list_all2_conv_all_nth)
qed

lemma erasure_recover:
  assumes "rs_laws R" and "data \<noteq> []" and "erasure_encode R data = Inr shards"
    and "\<forall>(i, s) \<in> set sel. i < RS_TOTAL_SHARDS \<and> s = shards ! i"
    and "3 \<le> card (fst ` set sel)"
  shows "length shards = RS_TOTAL_SHARDS \<and>
    (\<forall>s \<in> set shards. length s = (length data + 2) div 3) \<and>
    erasure_reconstruct R sel = Inr (data @ replicate (shard_size_of (length data) * 3 - length data) 0)"
proof -
  let ?n = "shard_size_of (length data)"
  have n: "0 < ?n" using assms(2) by (simp add: shard_size_pos)
  obtain ds zs ps where
    res: "erasure_encode R data = Inr (ds @ ps)" and enc: "rs_encode R 3 2 (ds @ zs) = Some (ds @ ps)"
    and len: "length ds = 3" "length zs = 2" "length ps = 2"
    and size: "same_size ?n (ds @ zs)" "same_size ?n ps"
    and flat: "concat ds = data @ replicate (?n * 3 - length data) 0"
    by (rule erasure_encode_ok [OF assms(1,2)])
  from res assms(3) have shards: "shards = ds @ ps" by simp
  have total: "length shards = RS_TOTAL_SHARDS"
    using len by (simp add: shards shard_count_defs)
  have sizes: "\<forall>s \<in> set shards. length s = (length data + 2) div 3"
    using size by (auto simp: shards same_size_def shard_size_of_def)
  from assms(4) obtain out where out: "place_shards sel (replicate RS_TOTAL_SHARDS None) = Inr out"
    using place_shards_total [of sel "replicate RS_TOTAL_SHARDS None"] by fast
  have "list_all2 (\<lambda>s c. s = None \<or> s = Some c) out shards"
    by (rule place_shards_codeword [OF out total]) (use assms(4) in auto)
  moreover have "3 \<le> present out"
    using place_shards_present [OF out] assms(5) by simp
  ultimately have rec: "rs_reconstruct R 3 2 out = Some (map Some shards)"
    using assms(1) n len(1,2) size(1) enc unfolding rs_laws_def shards by blast
  obtain a b c where abc: "ds = [a, b, c]" using length3 [OF len(1)] by blast
  have "3 \<le> length sel"
    using assms(5) card_length [of "map fst sel"] by simp
  moreover have "rs_new R 3 2" using assms(1) by (simp add: rs_laws_def)
  moreover have "map (\<lambda>i. case map Some shards ! i of None \<Rightarrow> [] | Some s \<Rightarrow> s) [0..<3] = ds"
    by (simp add: shards abc upt_rec nth_append)
  ultimately have "erasure_reconstruct R sel = Inr (data @ replicate (?n * 3 - length data) 0)"
    using out rec flat by (auto simp: erasure_reconstruct_def shard_count_defs)
  then show ?thesis using total sizes by blast
qed

lemma shard_padding: "shard_size_of len * 3 - len \<le> 2"
  unfolding shard_size_of_def by presburger

lemma shard_padding_0: "shard_size_of len * 3 - len = 0 \<longleftrightarrow> 3 dvd len"
  unfolding shard_size_of_def by presburger

text \<open>
  C10: fault tolerance.  Encoding non-empty data yields five shards of a third of its length
  (rounded up); from any selection of them with at least three different indices, in any order
  and with any repetitions, reconstruction returns the data followed by at most two zero bytes.
\<close>

theorem erasure_any_three:
  assumes "rs_laws R" and "data \<noteq> []" and "erasure_encode R data = Inr shards"
    and "\<forall>(i, s) \<in> set sel. i < RS_TOTAL_SHARDS \<and> s = shards ! i"
    and "3 \<le> card (fst ` set sel)"
  shows "length shards = RS_TOTAL_SHARDS \<and>
    (\<forall>s \<in> set shards. length s = (length data + 2) div 3) \<and>
    (\<exists>k \<le> 2. erasure_reconstruct R sel = Inr (data @ replicate k 0))"
  using erasure_recover [OF assms] shard_padding by blast

theorem erasure_any_three_witness:
  "\<exists>shards. erasure_encode sample_rs [1, 2, 3, 4] = Inr shards \<and>
     (\<exists>k \<le> 2. erasure_reconstruct sample_rs [(4, shards ! 4), (1, shards ! 1), (3, shards ! 3)] =
       Inr ([1, 2, 3, 4] @ replicate k 0))"
proof -
  obtain shards where enc: "erasure_encode sample_rs [1, 2, 3, 4] = Inr shards"
    using erasure_encode_ok [OF sample_rs_laws, of "[1, 2, 3, 4]"] by blast
  have "card (fst ` set [(4 :: nat, shards ! 4), (1, shards ! 1), (3, shards ! 3)]) = 3" by simp
  with erasure_any_three [OF sample_rs_laws _ enc, of "[(4, shards ! 4), (1, shards ! 1), (3, shards ! 3)]"]
    enc show ?thesis by (simp add: shard_count_defs)
qed

text \<open>
  C11: the failures of reconstruction.  It never panics, and it fails whenever fewer than three
  different shards are given or an index is out of range.  Empty data can be encoded, but the
  empty shards it is encoded to cannot be reconstructed.
\<close>

theorem erasure_errors:
  assumes "rs_laws R"
  shows "erasure_reconstruct R sel \<noteq> Inl Panic \<and>
    (card (fst ` set sel) < 3 \<longrightarrow> \<not> is_ok (erasure_reconstruct R sel)) \<and>
    ((\<exists>(i, s) \<in> set sel. RS_TOTAL_SHARDS \<le> i) \<longrightarrow> \<not> is_ok (erasure_reconstruct R sel)) \<and>
    erasure_encode R [] = Inr (replicate RS_TOTAL_SHARDS []) \<and>
    ((\<forall>(i, s) \<in> set sel. s = []) \<longrightarrow> \<not> is_ok (erasure_reconstruct R sel))"
proof -
  have new: "rs_new R 3 2" using assms by (simp add: rs_laws_def)
  have no_panic: "place_shards sel shards \<noteq> Inl Panic" for sel shards
    by (induction sel shards rule: place_shards.induct) auto
  have panic: "erasure_reconstruct R sel \<noteq> Inl Panic"
    using no_panic [of sel] new
    by (cases "place_shards sel (replicate RS_TOTAL_SHARDS None)")
      (auto simp: erasure_reconstruct_def shard_count_defs split: option.splits)
  have ok: "\<exists>out. place_shards sel (replicate RS_TOTAL_SHARDS None) = Inr out \<and>
      rs_reconstruct R 3 2 out \<noteq> None \<and> 3 \<le> length sel"
    if "is_ok (erasure_reconstruct R sel)"
    using that
    by (cases "place_shards sel (replicate RS_TOTAL_SHARDS None)")
      (auto simp: erasure_reconstruct_def shard_count_defs split: option.splits if_splits)
  have few: "\<not> is_ok (erasure_reconstruct R sel)" if "card (fst ` set sel) < 3"
    using ok place_shards_present [of sel] that assms unfolding rs_laws_def by metis
  have range: "\<not> is_ok (erasure_reconstruct R sel)" if "\<exists>(i, s) \<in> set sel. RS_TOTAL_SHARDS \<le> i"
    using ok place_shards_range [of sel "replicate RS_TOTAL_SHARDS None"] that by fastforce
  have empty: "\<not> is_ok (erasure_reconstruct R sel)" if e: "\<forall>(i, s) \<in> set sel. s = []"
  proof
    assume is_ok: "is_ok (erasure_reconstruct R sel)"
    with ok obtain out where out: "place_shards sel (replicate RS_TOTAL_SHARDS None) = Inr out"
      "rs_reconstruct R 3 2 out \<noteq> None" "3 \<le> length sel" by blast
    then obtain i s where s: "(i, s) \<in> set sel" by (cases sel) auto
    then have i: "i < RS_TOTAL_SHARDS" using place_shards_range [OF out(1)] by auto
    with place_shards_filled [OF out(1)] s have "out ! i \<noteq> None" by force
    with place_shards_from [OF out(1) _ i] e i have "out ! i = Some []" by fastforce
    with place_shards_length [OF out(1)] i have "Some [] \<in> set out" by (metis length_replicate nth_mem)
    with out(2) assms show False unfolding rs_laws_def by metis
  qed
  have "erasure_encode R [] = Inr (replicate RS_TOTAL_SHARDS [])"
    using new by (simp add: erasure_encode_def shard_count_defs)
  with panic few range empty show ?thesis by blast
qed

theorem erasure_errors_witness:
  "erasure_encode sample_rs [] = Inr (replicate RS_TOTAL_SHARDS []) \<and>
   \<not> is_ok (erasure_reconstruct sample_rs [(0, []), (1, []), (2, [])]) \<and>
   \<not> is_ok (erasure_reconstruct sample_rs [(0, [1]), (0, [1]), (0, [1])])"
  using erasure_errors [OF sample_rs_laws, of "[(0, []), (1, []), (2, [])]"]
    erasure_errors [OF sample_rs_laws, of "[(0, [1]), (0, [1]), (0, [1])]"] by simp

end
