(* ===== verification/FileSystem.thy ===== *)
theory FileSystem
  imports Prelude
begin

text \<open>
  The part of \<open>std::fs\<close> and \<open>std::fmt\<close> that the storage layer uses.  A path is its list of
  components, the file system its directories and the contents of its files; the order of the
  lists stands for the order in which a directory is read.  Writing operations can fail: \<open>io\<close>
  gives the outcome for each path, and a failed write may leave a prefix of the data behind.
  Reading what exists succeeds.
\<close>

section \<open>Decimal numerals\<close>

definition digit_char :: "nat \<Rightarrow> char" where
  "digit_char d = char_of (48 + d)"

fun show_nat :: "nat \<Rightarrow> string" where
  "show_nat n = (if n < 10 then [digit_char n] else show_nat (n div 10) @ [digit_char (n mod 10)])"

declare show_nat.simps [simp del]

definition digit_value :: "char \<Rightarrow> nat" where
  "digit_value c = of_char c - 48"

definition read_nat :: "string \<Rightarrow> nat" where
  "read_nat s = foldl (\<lambda>n c. 10 * n + digit_value c) 0 s"

lemma digit_value_char: "d < 10 \<Longrightarrow> digit_value (digit_char d) = d"
  by (simp add: digit_value_def digit_char_def of_char_of)

lemma read_show_nat: "read_nat (show_nat n) = n"
proof (induction n rule: show_nat.induct)
  case (1 n)
  show ?case
  proof (cases "n < 10")
    case True
    then show ?thesis by (subst show_nat.simps) (simp add: read_nat_def digit_value_char)
  next
    case False
    with 1 have "foldl (\<lambda>n c. 10 * n + digit_value c) 0 (show_nat (n div 10)) = n div 10"
      by (simp add: read_nat_def)
    with False show ?thesis
      by (subst show_nat.simps) (simp add: read_nat_def digit_value_char)
  qed
qed

lemma show_nat_inject: "show_nat m = show_nat n \<longleftrightarrow> m = n"
  by (metis read_show_nat)

section \<open>Files and directories\<close>

type_synonym path = "string list"

record file_system =
  fs_dirs :: "path list"
  fs_files :: "(path, bytes) hmap"

datatype io_outcome = NoFault | Fault "nat option"

type_synonym io = "path \<Rightarrow> io_outcome"

definition fs_is_dir :: "file_system \<Rightarrow> path \<Rightarrow> bool" where
  "fs_is_dir fs p \<longleftrightarrow> p = [] \<or> p \<in> set (fs_dirs fs)"

definition fs_is_file :: "file_system \<Rightarrow> path \<Rightarrow> bool" where
  "fs_is_file fs p \<longleftrightarrow> hm_get (fs_files fs) p \<noteq> None"

definition fs_exists :: "file_system \<Rightarrow> path \<Rightarrow> bool" where
  "fs_exists fs p \<longleftrightarrow> fs_is_dir fs p \<or> fs_is_file fs p"

definition prefixes :: "path \<Rightarrow> path list" where
  "prefixes p = map (\<lambda>n. take n p) [1..<Suc (length p)]"

definition create_dir_all :: "io \<Rightarrow> path \<Rightarrow> file_system \<Rightarrow> file_system \<times> unit result" where
  "create_dir_all io p fs =
     (if \<exists>q \<in> set (prefixes p). fs_is_file fs q then (fs, Inl (Err ''File exists''))
      else if io p \<noteq> NoFault then (fs, Inl (Err ''cannot create directory''))
      else (fs\<lparr>fs_dirs := fs_dirs fs @ filter (\<lambda>q. q \<notin> set (fs_dirs fs)) (prefixes p)\<rparr>, Inr ()))"

definition fs_write :: "io \<Rightarrow> path \<Rightarrow> bytes \<Rightarrow> file_system \<Rightarrow> file_system \<times> unit result" where
  "fs_write io p data fs =
     (if \<not> fs_is_dir fs (butlast p) \<or> fs_is_dir fs p then (fs, Inl (Err ''cannot open file''))
      else case io p of
        NoFault \<Rightarrow> (fs\<lparr>fs_files := hm_insert p data (fs_files fs)\<rparr>, Inr ())
      | Fault None \<Rightarrow> (fs, Inl (Err ''cannot open file''))
      | Fault (Some k) \<Rightarrow> (fs\<lparr>fs_files := hm_insert p (take k data) (fs_files fs)\<rparr>, Inl (Err ''write failed'')))"

definition fs_read :: "path \<Rightarrow> file_system \<Rightarrow> bytes result" where
  "fs_read p fs = (case hm_get (fs_files fs) p of None \<Rightarrow> Inl (Err ''No such file'') | Some b \<Rightarrow> Inr b)"

definition fs_remove_file :: "io \<Rightarrow> path \<Rightarrow> file_system \<Rightarrow> file_system \<times> unit result" where
  "fs_remove_file io p fs =
     (if \<not> fs_is_file fs p then (fs, Inl (Err ''No such file''))
      else if io p \<noteq> NoFault then (fs, Inl (Err ''cannot remove file''))
      else (fs\<lparr>fs_files := hm_remove p (fs_files fs)\<rparr>, Inr ()))"

text \<open>The entries of a directory: the name, and whether it is a directory.\<close>

definition fs_read_dir :: "path \<Rightarrow> file_system \<Rightarrow> (string \<times> bool) list result" where
  "fs_read_dir p fs =
     (if \<not> fs_is_dir fs p then Inl (Err ''No such directory'')
      else Inr (map (\<lambda>d. (last d, True)) (filter (\<lambda>d. d \<noteq> [] \<and> butlast d = p) (fs_dirs fs)) @
                map (\<lambda>(f, _). (last f, False)) (filter (\<lambda>(f, _). f \<noteq> [] \<and> butlast f = p) (fs_files fs))))"

definition fs_file_len :: "path \<Rightarrow> file_system \<Rightarrow> nat" where
  "fs_file_len p fs = (case hm_get (fs_files fs) p of None \<Rightarrow> 0 | Some b \<Rightarrow> length b)"

text \<open>The question-mark operator after a call that changes the file system.\<close>

definition fs_then ::
  "file_system \<times> 'a result \<Rightarrow> ('a \<Rightarrow> file_system \<Rightarrow> file_system \<times> 'b result) \<Rightarrow> file_system \<times> 'b result" where
  "fs_then x k = (case x of (fs, Inl e) \<Rightarrow> (fs, Inl e) | (fs, Inr a) \<Rightarrow> k a fs)"

section \<open>Facts\<close>

text \<open>No path is both a file and a directory, and each file is in a directory.\<close>

definition fs_inv :: "file_system \<Rightarrow> bool" where
  "fs_inv fs \<longleftrightarrow> hm_inv (fs_files fs) \<and>
     (\<forall>p. fs_is_file fs p \<longrightarrow> \<not> fs_is_dir fs p \<and> fs_is_dir fs (butlast p))"

lemma prefixes_self: "p \<noteq> [] \<Longrightarrow> p \<in> set (prefixes p)"
  by (auto simp: prefixes_def Suc_le_eq intro!: image_eqI [of _ _ "length p"])

lemma create_dir_files: "fs_files (fst (create_dir_all io p fs)) = fs_files fs"
  by (simp add: create_dir_all_def)

lemma create_dir_is_dir: "snd (create_dir_all io p fs) = Inr () \<Longrightarrow> fs_is_dir (fst (create_dir_all io p fs)) p"
  using prefixes_self [of p] by (auto simp: create_dir_all_def fs_is_dir_def split: if_splits)

lemma create_dir_dirs: "fs_is_dir (fst (create_dir_all io p fs)) q \<Longrightarrow> fs_is_dir fs q \<or> q \<in> set (prefixes p)"
  by (auto simp: create_dir_all_def fs_is_dir_def split: if_splits)

lemma create_dir_keeps: "fs_is_dir fs q \<Longrightarrow> fs_is_dir (fst (create_dir_all io p fs)) q"
  by (auto simp: create_dir_all_def fs_is_dir_def)

lemma create_dir_inv:
  assumes inv: "fs_inv fs"
  shows "fs_inv (fst (create_dir_all io p fs))"
proof (cases "\<exists>q \<in> set (prefixes p). fs_is_file fs q")
  case True
  with inv show ?thesis by (simp add: create_dir_all_def)
next
  case False
  let ?fs = "fst (create_dir_all io p fs)"
  have files: "fs_is_file ?fs q = fs_is_file fs q" for q by (simp add: fs_is_file_def create_dir_files)
  have "\<not> fs_is_dir ?fs q \<and> fs_is_dir ?fs (butlast q)" if "fs_is_file fs q" for q
    using that inv False create_dir_dirs [of io p fs q] create_dir_keeps [of fs "butlast q" io p]
    by (auto simp: fs_inv_def)
  with inv files show ?thesis by (simp add: fs_inv_def create_dir_files)
qed

lemma fs_write_dirs: "fs_dirs (fst (fs_write io p data fs)) = fs_dirs fs"
  by (simp add: fs_write_def split: io_outcome.split option.split)

lemma fs_write_other: "q \<noteq> p \<Longrightarrow> hm_get (fs_files (fst (fs_write io p data fs))) q = hm_get (fs_files fs) q"
  by (simp add: fs_write_def hmap_simps split: io_outcome.split option.split)

lemma fs_write_self: "snd (fs_write io p data fs) = Inr () \<Longrightarrow>
    hm_get (fs_files (fst (fs_write io p data fs))) p = Some data"
  by (auto simp: fs_write_def hmap_simps split: if_splits io_outcome.splits option.splits)

lemma fs_write_failed: "snd (fs_write io p data fs) \<noteq> Inr () \<Longrightarrow>
    hm_get (fs_files (fst (fs_write io p data fs))) p = hm_get (fs_files fs) p \<or>
    (\<exists>k. hm_get (fs_files (fst (fs_write io p data fs))) p = Some (take k data))"
  by (auto simp: fs_write_def hmap_simps split: if_splits io_outcome.splits option.splits)

lemma fs_write_inv: "fs_inv fs \<Longrightarrow> fs_inv (fst (fs_write io p data fs))"
  by (auto simp: fs_inv_def fs_write_def fs_is_file_def fs_is_dir_def hmap_simps intro!: hm.inv_ins
      split: io_outcome.splits option.splits if_splits)

lemma fs_write_ok: "fs_is_dir fs (butlast p) \<Longrightarrow> \<not> fs_is_dir fs p \<Longrightarrow> io p = NoFault \<Longrightarrow>
    snd (fs_write io p data fs) = Inr ()"
  by (simp add: fs_write_def)

end
