(* ===== verification/ShardStore.thy ===== *)
theory ShardStore
  imports CoreTypes FileSystem
begin

text \<open>
  storage/src/shard_store.rs: shards on disk, one directory for each chunk, and for each shard
  a data file and a metadata file with the hash.  \<open>cr\<close> is the hash and hex crates, \<open>M\<close> the JSON
  form of the metadata, \<open>io\<close> the outcome of the writing system calls; the two time stamps are
  arguments.
\<close>

section \<open>Metadata\<close>

record ShardMeta =
  sm_chunk_id :: string
  sm_shard_index :: nat
  sm_size :: u64
  sm_blake3_hash :: string
  sm_created_at :: string
  sm_last_verified :: string

record meta_api =
  m_print :: "ShardMeta \<Rightarrow> bytes result"
  m_parse :: "bytes \<Rightarrow> ShardMeta option"

text \<open>Printing succeeds and is inverted by parsing; a JSON object cut short does not parse.\<close>

definition meta_laws :: "meta_api \<Rightarrow> bool" where
  "meta_laws M \<longleftrightarrow> (\<forall>m. \<exists>b. m_print M m = Inr b \<and> m_parse M b = Some m \<and>
     (\<forall>k < length b. m_parse M (take k b) = None))"

section \<open>Paths\<close>

definition chunk_directory :: "crypto \<Rightarrow> path \<Rightarrow> ChunkId \<Rightarrow> path" where
  "chunk_directory cr base c = base @ [ChunkId_as_hex cr c]"

definition shard_path :: "crypto \<Rightarrow> path \<Rightarrow> ChunkId \<Rightarrow> ShardIndex \<Rightarrow> path" where
  "shard_path cr base c i = chunk_directory cr base c @ [''shard_'' @ show_nat (shard_no i) @ ''.bin'']"

definition meta_path :: "crypto \<Rightarrow> path \<Rightarrow> ChunkId \<Rightarrow> ShardIndex \<Rightarrow> path" where
  "meta_path cr base c i = chunk_directory cr base c @ [''shard_'' @ show_nat (shard_no i) @ ''.meta.json'']"

section \<open>Operations\<close>

definition ShardStore_new :: "io \<Rightarrow> path \<Rightarrow> file_system \<Rightarrow> file_system \<times> path result" where
  "ShardStore_new io base fs = fs_then (create_dir_all io base fs) (\<lambda>_ fs1. (fs1, Inr base))"

definition save_meta ::
  "crypto \<Rightarrow> meta_api \<Rightarrow> io \<Rightarrow> path \<Rightarrow> ChunkId \<Rightarrow> ShardIndex \<Rightarrow> ShardMeta \<Rightarrow> file_system \<Rightarrow> file_system \<times> unit result" where
  "save_meta cr M io base c i meta fs =
     (case m_print M meta of
        Inl e \<Rightarrow> (fs, Inl e)
      | Inr json \<Rightarrow> fs_write io (meta_path cr base c i) json fs)"

definition load_meta :: "crypto \<Rightarrow> meta_api \<Rightarrow> path \<Rightarrow> ChunkId \<Rightarrow> ShardIndex \<Rightarrow> file_system \<Rightarrow> ShardMeta result" where
  "load_meta cr M base c i fs =
     try_then (fs_read (meta_path cr base c i) fs)
       (\<lambda>json. case m_parse M json of None \<Rightarrow> Inl (Err ''invalid metadata'') | Some m \<Rightarrow> Inr m)"

definition store_shard ::
  "crypto \<Rightarrow> meta_api \<Rightarrow> io \<Rightarrow> string \<Rightarrow> string \<Rightarrow> path \<Rightarrow> ChunkId \<Rightarrow> ShardIndex \<Rightarrow> bytes \<Rightarrow> file_system \<Rightarrow>
   file_system \<times> ShardMeta result" where
  "store_shard cr M io created verified base c i data fs =
     fs_then (create_dir_all io (chunk_directory cr base c) fs) (\<lambda>_ fs1.
       fs_then (fs_write io (shard_path cr base c i) data fs1) (\<lambda>_ fs2.
         let meta = \<lparr>sm_chunk_id = ChunkId_fmt cr c, sm_shard_index = shard_no i,
                     sm_size = of_nat (length data), sm_blake3_hash = hex_encode cr (blake3 cr data),
                     sm_created_at = created, sm_last_verified = verified\<rparr>
         in fs_then (save_meta cr M io base c i meta fs2) (\<lambda>_ fs3. (fs3, Inr meta))))"

definition retrieve_shard ::
  "crypto \<Rightarrow> meta_api \<Rightarrow> path \<Rightarrow> ChunkId \<Rightarrow> ShardIndex \<Rightarrow> file_system \<Rightarrow> bytes result" where
  "retrieve_shard cr M base c i fs =
     try_then (fs_read (shard_path cr base c i) fs) (\<lambda>data.
       try_then (load_meta cr M base c i fs) (\<lambda>meta.
         if hex_encode cr (blake3 cr data) \<noteq> sm_blake3_hash meta
         then Inl (Err ''Shard integrity check failed'') else Inr data))"

definition delete_shard ::
  "crypto \<Rightarrow> io \<Rightarrow> path \<Rightarrow> ChunkId \<Rightarrow> ShardIndex \<Rightarrow> file_system \<Rightarrow> file_system \<times> unit result" where
  "delete_shard cr io base c i fs =
     fs_then (if fs_exists fs (shard_path cr base c i) then fs_remove_file io (shard_path cr base c i) fs else (fs, Inr ()))
       (\<lambda>_ fs1. if fs_exists fs1 (meta_path cr base c i) then fs_remove_file io (meta_path cr base c i) fs1 else (fs1, Inr ()))"

definition shard_exists :: "crypto \<Rightarrow> path \<Rightarrow> ChunkId \<Rightarrow> ShardIndex \<Rightarrow> file_system \<Rightarrow> bool" where
  "shard_exists cr base c i fs = fs_exists fs (shard_path cr base c i)"

fun chunk_names :: "crypto \<Rightarrow> (string \<times> bool) list \<Rightarrow> ChunkId list" where
  "chunk_names cr [] = []"
| "chunk_names cr ((name, is_dir) # rest) =
     (if is_dir then (case ChunkId_from_hex cr name of Inr c \<Rightarrow> c # chunk_names cr rest | Inl _ \<Rightarrow> chunk_names cr rest)
      else chunk_names cr rest)"

definition list_chunks :: "crypto \<Rightarrow> path \<Rightarrow> file_system \<Rightarrow> ChunkId list result" where
  "list_chunks cr base fs =
     (if \<not> fs_exists fs base then Inr []
      else try_then (fs_read_dir base fs) (\<lambda>entries. Inr (chunk_names cr entries)))"

text \<open>The two loops of \<open>total_size\<close>, with the running 64-bit total.\<close>

fun size_files :: "path \<Rightarrow> file_system \<Rightarrow> (string \<times> bool) list \<Rightarrow> u64 \<Rightarrow> u64" where
  "size_files dir fs [] tot = tot"
| "size_files dir fs ((name, is_dir) # rest) tot =
     size_files dir fs rest (if is_dir then tot else tot + of_nat (fs_file_len (dir @ [name]) fs))"

fun size_dirs :: "path \<Rightarrow> file_system \<Rightarrow> (string \<times> bool) list \<Rightarrow> u64 \<Rightarrow> u64 result" where
  "size_dirs base fs [] tot = Inr tot"
| "size_dirs base fs ((name, is_dir) # rest) tot =
     (if is_dir
      then try_then (fs_read_dir (base @ [name]) fs)
             (\<lambda>sub. size_dirs base fs rest (size_files (base @ [name]) fs sub tot))
      else size_dirs base fs rest tot)"

definition total_size :: "path \<Rightarrow> file_system \<Rightarrow> u64 result" where
  "total_size base fs =
     (if \<not> fs_exists fs base then Inr 0
      else try_then (fs_read_dir base fs) (\<lambda>entries. size_dirs base fs entries 0))"

definition available_space :: "u64 result" where
  "available_space = Inr 1099511627776"

section \<open>Paths do not collide\<close>

lemma path_inject:
  assumes "crypto_laws cr"
  shows "shard_path cr base c i = shard_path cr base c' i' \<longleftrightarrow> c = c' \<and> i = i'"
    and "meta_path cr base c i = meta_path cr base c' i' \<longleftrightarrow> c = c' \<and> i = i'"
    and "shard_path cr base c i \<noteq> meta_path cr base c' i'"
proof -
  have "rev (''shard_'' @ show_nat m @ ''.bin'') \<noteq> rev (''shard_'' @ show_nat n @ ''.meta.json'')" for m n
    by simp
  then have "''shard_'' @ show_nat m @ ''.bin'' \<noteq> ''shard_'' @ show_nat n @ ''.meta.json''" for m n
    by metis
  then show "shard_path cr base c i \<noteq> meta_path cr base c' i'"
    by (simp add: shard_path_def meta_path_def chunk_directory_def)
qed (auto simp: shard_path_def meta_path_def chunk_directory_def show_nat_inject assms
    ChunkId_as_hex_inject ShardIndex.expand)

lemma butlast_paths [simp]:
  "butlast (shard_path cr base c i) = chunk_directory cr base c"
  "butlast (meta_path cr base c i) = chunk_directory cr base c"
  by (simp_all add: shard_path_def meta_path_def butlast_append)

text \<open>The two files of a shard decide what is retrieved.\<close>

definition shard_files :: "crypto \<Rightarrow> path \<Rightarrow> ChunkId \<Rightarrow> ShardIndex \<Rightarrow> file_system \<Rightarrow> bytes option \<times> bytes option" where
  "shard_files cr base c i fs =
     (hm_get (fs_files fs) (shard_path cr base c i), hm_get (fs_files fs) (meta_path cr base c i))"

definition read_files :: "crypto \<Rightarrow> meta_api \<Rightarrow> bytes option \<times> bytes option \<Rightarrow> bytes result" where
  "read_files cr M f = (case f of
     (Some d, Some j) \<Rightarrow> (case m_parse M j of
         None \<Rightarrow> Inl (Err ''invalid metadata'')
       | Some m \<Rightarrow> if hex_encode cr (blake3 cr d) \<noteq> sm_blake3_hash m
           then Inl (Err ''Shard integrity check failed'') else Inr d)
   | _ \<Rightarrow> Inl (Err ''No such file''))"

lemma retrieve_shard_files: "retrieve_shard cr M base c i fs = read_files cr M (shard_files cr base c i fs)"
  by (auto simp: retrieve_shard_def load_meta_def read_files_def shard_files_def fs_read_def split: option.splits)

section \<open>Storing\<close>

definition new_meta :: "crypto \<Rightarrow> string \<Rightarrow> string \<Rightarrow> ChunkId \<Rightarrow> ShardIndex \<Rightarrow> bytes \<Rightarrow> ShardMeta" where
  "new_meta cr created verified c i data =
     \<lparr>sm_chunk_id = ChunkId_fmt cr c, sm_shard_index = shard_no i,
      sm_size = of_nat (length data), sm_blake3_hash = hex_encode cr (blake3 cr data),
      sm_created_at = created, sm_last_verified = verified\<rparr>"

lemma fs_then_cases:
  "fs_then x k = (case snd x of Inl e \<Rightarrow> (fst x, Inl e) | Inr a \<Rightarrow> k a (fst x))"
  by (cases x) (auto simp: fs_then_def split: sum.splits)

lemma store_shard_steps:
  assumes "m_print M (new_meta cr t u c i data) = Inr json"
  shows "store_shard cr M io t u base c i data fs =
    (let x = create_dir_all io (chunk_directory cr base c) fs;
         y = fs_write io (shard_path cr base c i) data (fst x);
         z = fs_write io (meta_path cr base c i) json (fst y)
     in case snd x of Inl e \<Rightarrow> (fst x, Inl e) | Inr _ \<Rightarrow>
       (case snd y of Inl e \<Rightarrow> (fst y, Inl e) | Inr _ \<Rightarrow>
         (case snd z of Inl e \<Rightarrow> (fst z, Inl e) | Inr _ \<Rightarrow> (fst z, Inr (new_meta cr t u c i data)))))"
  unfolding store_shard_def fs_then_cases Let_def new_meta_def [symmetric] save_meta_def
  by (simp add: assms cong: sum.case_cong)

lemma store_shard_other:
  assumes "crypto_laws cr" and "meta_laws M" and "(c', i') \<noteq> (c, i)"
  shows "shard_files cr base c' i' (fst (store_shard cr M io t u base c i data fs)) = shard_files cr base c' i' fs"
proof -
  from assms(2) obtain json where json: "m_print M (new_meta cr t u c i data) = Inr json"
    by (auto simp: meta_laws_def)
  have "shard_path cr base c' i' \<noteq> shard_path cr base c i" "meta_path cr base c' i' \<noteq> meta_path cr base c i"
    using assms(3) path_inject(1,2) [OF assms(1)] by auto
  moreover have "shard_path cr base c' i' \<noteq> meta_path cr base c i" "meta_path cr base c' i' \<noteq> shard_path cr base c i"
    using path_inject(3) [OF assms(1)] by metis+
  ultimately show ?thesis
    unfolding store_shard_steps [OF json]
    by (simp add: Let_def shard_files_def fs_write_other create_dir_files split: sum.split)
qed

text \<open>What a call can leave behind in the files of its own shard.\<close>

lemma store_shard_self:
  assumes "crypto_laws cr" and json: "m_print M (new_meta cr t u c i data) = Inr json"
    and "store_shard cr M io t u base c i data fs = (fs', r)" and "shard_files cr base c i fs = (d0, j0)"
  shows "(is_ok r \<longrightarrow> r = Inr (new_meta cr t u c i data) \<and> shard_files cr base c i fs' = (Some data, Some json)) \<and>
    (\<not> is_ok r \<longrightarrow> shard_files cr base c i fs' = (d0, j0) \<or>
      (\<exists>k. shard_files cr base c i fs' = (Some (take k data), j0)) \<or>
      (\<exists>k. shard_files cr base c i fs' = (Some data, Some (take k json))))"
proof -
  let ?s = "shard_path cr base c i" and ?m = "meta_path cr base c i"
  have ne: "?s \<noteq> ?m" "?m \<noteq> ?s" using path_inject(3) [OF assms(1)] by metis+
  let ?x = "create_dir_all io (chunk_directory cr base c) fs"
  let ?y = "fs_write io ?s data (fst ?x)"
  let ?z = "fs_write io ?m json (fst ?y)"
  have get: "hm_get (fs_files fs) ?s = d0" "hm_get (fs_files fs) ?m = j0"
    using assms(4) by (simp_all add: shard_files_def)
  have full: "\<exists>k. data = take k data" by (rule exI [of _ "length data"]) simp
  show ?thesis
  proof (cases "snd ?x")
    case (Inl e)
    with assms(3) get show ?thesis
      unfolding store_shard_steps [OF json] by (auto simp: Let_def shard_files_def create_dir_files)
  next
    case x: (Inr a)
    show ?thesis
    proof (cases "snd ?y")
      case (Inl e)
      then have "fs' = fst ?y" "r = Inl e"
        using assms(3) x unfolding store_shard_steps [OF json] by (simp_all add: Let_def)
      moreover have "hm_get (fs_files (fst ?y)) ?m = j0"
        using ne get by (simp add: fs_write_other create_dir_files)
      ultimately show ?thesis
        using fs_write_failed [of io ?s data "fst ?x"] Inl get by (auto simp: shard_files_def create_dir_files)
    next
      case y: (Inr b)
      then have s: "hm_get (fs_files (fst ?z)) ?s = Some data"
        using fs_write_self [of io ?s data "fst ?x"] ne by (simp add: fs_write_other)
      show ?thesis
      proof (cases "snd ?z")
        case (Inl e)
        then have "fs' = fst ?z" "r = Inl e"
          using assms(3) x y unfolding store_shard_steps [OF json] by (simp_all add: Let_def)
        moreover have "hm_get (fs_files (fst ?y)) ?m = j0"
          using ne get by (simp add: fs_write_other create_dir_files)
        ultimately show ?thesis
          using fs_write_failed [of io ?m json "fst ?y"] Inl s full
          by (auto simp: shard_files_def)
      next
        case (Inr d)
        then have "fs' = fst ?z" "r = Inr (new_meta cr t u c i data)"
          using assms(3) x y unfolding store_shard_steps [OF json] by (simp_all add: Let_def)
        with Inr s fs_write_self [of io ?m json "fst ?y"] show ?thesis
          by (simp add: shard_files_def)
      qed
    qed
  qed
qed

section \<open>A well-formed store\<close>

definition store_ok :: "crypto \<Rightarrow> path \<Rightarrow> file_system \<Rightarrow> bool" where
  "store_ok cr base fs \<longleftrightarrow> fs_inv fs \<and> fs_is_dir fs base \<and>
     (\<forall>q \<in> set (prefixes base). \<not> fs_is_file fs q) \<and>
     (\<forall>c. \<not> fs_is_file fs (chunk_directory cr base c)) \<and>
     (\<forall>c i. \<not> fs_is_dir fs (shard_path cr base c i) \<and> \<not> fs_is_dir fs (meta_path cr base c i))"

lemma prefixes_snoc: "prefixes (p @ [x]) = prefixes p @ [p @ [x]]"
  by (auto simp: prefixes_def)

lemma prefixes_length: "q \<in> set (prefixes p) \<Longrightarrow> length q \<le> length p"
  by (auto simp: prefixes_def simp del: upt_Suc)

lemma path_lengths:
  "length (chunk_directory cr base c) = Suc (length base)"
  "length (shard_path cr base c i) = Suc (Suc (length base))"
  "length (meta_path cr base c i) = Suc (Suc (length base))"
  by (simp_all add: chunk_directory_def shard_path_def meta_path_def)

lemma store_ok_mkdir:
  assumes "store_ok cr base fs"
  shows "store_ok cr base (fst (create_dir_all io (chunk_directory cr base c) fs))"
proof -
  let ?fs = "fst (create_dir_all io (chunk_directory cr base c) fs)"
  have files: "fs_is_file ?fs q = fs_is_file fs q" for q by (simp add: fs_is_file_def create_dir_files)
  have deep: "\<not> fs_is_dir ?fs q" if "\<not> fs_is_dir fs q" "length q = Suc (Suc (length base))" for q
    using create_dir_dirs [of io "chunk_directory cr base c" fs q] that
      prefixes_length [of q "chunk_directory cr base c"] by (auto simp: path_lengths)
  show ?thesis
    using assms create_dir_inv [of fs io "chunk_directory cr base c"] create_dir_keeps [of fs base io]
    by (simp add: store_ok_def files deep path_lengths)
qed

lemma store_ok_write:
  assumes "store_ok cr base fs" and "length p = Suc (Suc (length base))"
  shows "store_ok cr base (fst (fs_write io p data fs))"
proof -
  let ?fs = "fst (fs_write io p data fs)"
  have dir: "fs_is_dir ?fs q = fs_is_dir fs q" for q by (simp add: fs_is_dir_def fs_write_dirs)
  have files: "fs_is_file ?fs q = fs_is_file fs q" if "length q \<le> Suc (length base)" for q
  proof -
    have "q \<noteq> p" using that assms(2) by auto
    then show ?thesis by (simp add: fs_is_file_def fs_write_other)
  qed
  show ?thesis
    using assms fs_write_inv [of fs io p data] files [OF le_SucI [OF prefixes_length]]
    by (simp add: store_ok_def dir files path_lengths)
qed

lemma store_ok_store:
  assumes "meta_laws M" and "store_ok cr base fs"
  shows "store_ok cr base (fst (store_shard cr M io t u base c i data fs))"
proof -
  from assms(1) obtain json where json: "m_print M (new_meta cr t u c i data) = Inr json"
    by (auto simp: meta_laws_def)
  show ?thesis
    unfolding store_shard_steps [OF json] Let_def
    using assms(2) by (auto simp: store_ok_mkdir store_ok_write path_lengths split: sum.split)
qed

text \<open>Without I/O errors storing succeeds.\<close>

lemma store_succeeds:
  assumes "meta_laws M" and "store_ok cr base fs"
  shows "snd (store_shard cr M (\<lambda>_. NoFault) t u base c i data fs) = Inr (new_meta cr t u c i data)"
proof -
  let ?io = "\<lambda>_ :: path. NoFault"
  from assms(1) obtain json where json: "m_print M (new_meta cr t u c i data) = Inr json"
    by (auto simp: meta_laws_def)
  let ?x = "create_dir_all ?io (chunk_directory cr base c) fs"
  let ?y = "fs_write ?io (shard_path cr base c i) data (fst ?x)"
  have x: "snd ?x = Inr ()"
    using assms(2) unfolding chunk_directory_def create_dir_all_def prefixes_snoc
    by (simp add: store_ok_def chunk_directory_def ball_Un)
  note okx = store_ok_mkdir [OF assms(2), of ?io c]
  have y: "snd ?y = Inr ()"
    using okx create_dir_is_dir [OF x] by (intro fs_write_ok) (simp_all add: store_ok_def)
  have oky: "store_ok cr base (fst ?y)" by (rule store_ok_write [OF okx]) (simp add: path_lengths)
  have "fs_is_dir (fst ?y) (chunk_directory cr base c)"
    using create_dir_is_dir [OF x] by (simp add: fs_is_dir_def fs_write_dirs)
  then have z: "snd (fs_write ?io (meta_path cr base c i) json (fst ?y)) = Inr ()"
    using oky by (intro fs_write_ok) (simp_all add: store_ok_def)
  show ?thesis unfolding store_shard_steps [OF json] by (simp add: Let_def x y z)
qed

text \<open>The store as a map from shards to data, for clients without I/O errors.\<close>

locale shard_contract =
  fixes ok :: "'s \<Rightarrow> bool"
    and put :: "'k \<Rightarrow> 'v \<Rightarrow> 's \<Rightarrow> 's"
    and get :: "'s \<Rightarrow> 'k \<Rightarrow> 'v result"
  assumes put_ok: "ok s \<Longrightarrow> ok (put k v s)"
    and get_put: "ok s \<Longrightarrow> get (put k v s) k' = (if k' = k then Inr v else get s k')"
begin

lemma get_puts: "ok s \<Longrightarrow> get (fold (\<lambda>(k, v). put k v) kvs s) k =
    (case map_of (rev kvs) k of None \<Rightarrow> get s k | Some v \<Rightarrow> Inr v)"
proof (induction kvs arbitrary: s)
  case (Cons x kvs)
  obtain a b where "x = (a, b)" by (cases x)
  with Cons.IH [OF put_ok [OF Cons.prems, of a b]] get_put [OF Cons.prems, of a b k] show ?case
    by (auto simp: map_add_def map_of_append split: option.split)
qed simp

end

text \<open>
  The crates are part of the state of the client, so that the laws hold whenever they do.
\<close>

definition shard_put ::
  "ChunkId \<times> ShardIndex \<Rightarrow> bytes \<Rightarrow> crypto \<times> meta_api \<times> path \<times> file_system \<Rightarrow> crypto \<times> meta_api \<times> path \<times> file_system" where
  "shard_put k data s = (case (k, s) of ((c, i), (cr, M, base, fs)) \<Rightarrow>
     (cr, M, base, fst (store_shard cr M (\<lambda>_. NoFault) '''' '''' base c i data fs)))"

definition shard_get :: "crypto \<times> meta_api \<times> path \<times> file_system \<Rightarrow> ChunkId \<times> ShardIndex \<Rightarrow> bytes result" where
  "shard_get s k = (case (k, s) of ((c, i), (cr, M, base, fs)) \<Rightarrow> retrieve_shard cr M base c i fs)"

definition shard_ok :: "crypto \<times> meta_api \<times> path \<times> file_system \<Rightarrow> bool" where
  "shard_ok s = (case s of (cr, M, base, fs) \<Rightarrow> crypto_laws cr \<and> meta_laws M \<and> store_ok cr base fs)"

lemma read_files_new:
  assumes "meta_laws M" and "m_print M (new_meta cr t u c i data) = Inr json"
  shows "read_files cr M (Some d, Some json) =
    (if hex_encode cr (blake3 cr d) = hex_encode cr (blake3 cr data) then Inr d
     else Inl (Err ''Shard integrity check failed''))"
proof -
  from assms obtain b where "m_print M (new_meta cr t u c i data) = Inr b"
      "m_parse M b = Some (new_meta cr t u c i data)"
    unfolding meta_laws_def by blast
  with assms(2) have "m_parse M json = Some (new_meta cr t u c i data)" by simp
  then show ?thesis by (simp add: read_files_def new_meta_def)
qed

lemma retrieve_stored:
  assumes "crypto_laws cr" and "meta_laws M" and "store_ok cr base fs"
  shows "retrieve_shard cr M base c' i' (fst (store_shard cr M (\<lambda>_. NoFault) t u base c i data fs)) =
    (if (c', i') = (c, i) then Inr data else retrieve_shard cr M base c' i' fs)"
proof (cases "(c', i') = (c, i)")
  case True
  from assms(2) obtain json where json: "m_print M (new_meta cr t u c i data) = Inr json"
    by (auto simp: meta_laws_def)
  let ?r = "store_shard cr M (\<lambda>_. NoFault) t u base c i data fs"
  obtain d0 j0 where "shard_files cr base c i fs = (d0, j0)" by fastforce
  from store_shard_self [OF assms(1) json prod.collapse [symmetric] this, of "\<lambda>_. NoFault"]
  have "shard_files cr base c i (fst ?r) = (Some data, Some json)"
    using store_succeeds [OF assms(2,3), of t u c i data] by simp
  with True read_files_new [OF assms(2) json] show ?thesis by (simp add: retrieve_shard_files)
next
  case False
  then show ?thesis by (auto simp: retrieve_shard_files store_shard_other [OF assms(1,2) False])
qed

interpretation shards: shard_contract shard_ok shard_put shard_get
proof
  fix s :: "crypto \<times> meta_api \<times> path \<times> file_system" and k k' :: "ChunkId \<times> ShardIndex" and v :: bytes
  assume ok: "shard_ok s"
  obtain cr M base fs where s: "s = (cr, M, base, fs)" by (cases s)
  obtain c i where k: "k = (c, i)" by (cases k)
  obtain c' i' where k': "k' = (c', i')" by (cases k')
  from ok s have laws: "crypto_laws cr" "meta_laws M" "store_ok cr base fs" by (simp_all add: shard_ok_def)
  show "shard_ok (shard_put k v s)"
    using laws by (simp add: shard_ok_def shard_put_def s k store_ok_store)
  show "shard_get (shard_put k v s) k' = (if k' = k then Inr v else shard_get s k')"
    using retrieve_stored [OF laws] by (simp add: shard_get_def shard_put_def s k k')
qed

end
