(* ===== verification/DataPath.thy ===== *)
theory DataPath
  imports Chunking Encryption ErasureProofs ShardStore
begin

text \<open>
  The data path of docs/ARCHITECTURE.md over the core crate: cut a file into chunks, encrypt each,
  erasure-code each ciphertext, keep each shard in the shard store of another host; collect
  shards, reconstruct, decrypt, glue.
\<close>

section \<open>One chunk\<close>

text \<open>
  The shards of one chunk under the nonce drawn for it, and the chunk as it is read back from
  some shards, with the length of the ciphertext (\<open>Some\<close>) or without it (\<open>None\<close>).
\<close>

definition chunk_shards ::
  "aead_crate \<Rightarrow> rs_crate \<Rightarrow> (nat \<Rightarrow> bytes) \<Rightarrow> DerivedKey \<Rightarrow> bytes \<Rightarrow> (Nonce \<times> bytes list) result" where
  "chunk_shards A R rng key chunk =
     try_then (encrypt A rng key chunk) (\<lambda>(nonce, ct).
       try_then (erasure_encode R ct) (\<lambda>shards. Inr (nonce, shards)))"

definition read_chunk ::
  "aead_crate \<Rightarrow> rs_crate \<Rightarrow> DerivedKey \<Rightarrow> Nonce \<Rightarrow> nat option \<Rightarrow> (nat \<times> bytes) list \<Rightarrow> bytes result" where
  "read_chunk A R key nonce len sel =
     try_then (erasure_reconstruct R sel) (\<lambda>out.
       decrypt A key nonce (case len of None \<Rightarrow> out | Some n \<Rightarrow> take n out))"

text \<open>A selection of shards with at least three different indices.\<close>

definition enough_shards :: "bytes list \<Rightarrow> (nat \<times> bytes) list \<Rightarrow> bool" where
  "enough_shards shards sel \<longleftrightarrow> (\<forall>(i, s) \<in> set sel. i < RS_TOTAL_SHARDS \<and> s = shards ! i) \<and>
     3 \<le> card (fst ` set sel)"

lemma chunk_shards_total:
  assumes "aead_laws A" and "rs_laws R" and "rng_fills rng" and "key_ok key" and "length chunk < AEAD_LIMIT"
  obtains nonce shards where "chunk_shards A R rng key chunk = Inr (nonce, shards)"
proof -
  obtain nonce ct where e: "encrypt A rng key chunk = Inr (nonce, ct)"
    by (rule encrypt_total [OF assms(1,3-5)])
  with decrypt_encrypt(3) [OF assms(1,3,4) e] have "ct \<noteq> []" by (auto simp: TAG_LEN_def)
  from erasure_encode_ok [OF assms(2) this] obtain shards where "erasure_encode R ct = Inr shards" by blast
  with e that show thesis by (simp add: chunk_shards_def)
qed

lemma read_chunk_shards:
  assumes laws: "aead_laws A" "rs_laws R" "rng_fills rng" "key_ok key"
    and "chunk_shards A R rng key chunk = Inr (nonce, shards)" and "enough_shards shards sel"
  shows "read_chunk A R key nonce (Some (length chunk + TAG_LEN)) sel = Inr chunk"
    and "read_chunk A R key nonce None sel = Inr chunk \<longleftrightarrow> 3 dvd (length chunk + TAG_LEN)"
proof -
  from assms(5) obtain ct where e: "encrypt A rng key chunk = Inr (nonce, ct)"
    and s: "erasure_encode R ct = Inr shards"
    by (auto simp: chunk_shards_def try_then_eq_Inr)
  note dec = decrypt_encrypt [OF laws(1,3,4) e]
  from dec(3) have "ct \<noteq> []" by (auto simp: TAG_LEN_def)
  let ?pad = "shard_size_of (length ct) * 3 - length ct"
  have rec: "erasure_reconstruct R sel = Inr (ct @ replicate ?pad 0)"
    using erasure_recover [OF laws(2) \<open>ct \<noteq> []\<close> s] assms(6) by (simp add: enough_shards_def)
  then show "read_chunk A R key nonce (Some (length chunk + TAG_LEN)) sel = Inr chunk"
    using dec(2,3) by (simp add: read_chunk_def)
  have "read_chunk A R key nonce None sel = Inr chunk \<longleftrightarrow> ct @ replicate ?pad 0 = ct"
    using rec dec(2) by (simp add: read_chunk_def)
  also have "\<dots> \<longleftrightarrow> 3 dvd length ct" using shard_padding_0 [of "length ct"] by simp
  finally show "read_chunk A R key nonce None sel = Inr chunk \<longleftrightarrow> 3 dvd (length chunk + TAG_LEN)"
    using dec(3) by simp
qed

section \<open>A file\<close>

lemma chunk_small: "chunk \<in> set (chunk_data data) \<Longrightarrow> length chunk \<le> CHUNK_SIZE \<and> length chunk < AEAD_LIMIT"
  using fixed_chunks_sizes(1) [of CHUNK_SIZE _ data]
  by (auto simp: chunk_data_fixed in_set_conv_nth CHUNK_SIZE_def AEAD_LIMIT_def)

lemma file_recovered:
  assumes "aead_laws A" and "rs_laws R" and "kdf_laws K"
    and "length salt = SALT_LEN" and "length password < 2 ^ 32"
    and "derive_key K password salt = Inr key" and "\<forall>i. rng_fills (rng i)"
    and "\<forall>i < length (chunk_data data).
      chunk_shards A R (rng i) key (chunk_data data ! i) = Inr (nonce i, shards i) \<and>
      enough_shards (shards i) (sel i)"
  shows "(\<forall>i < length (chunk_data data).
      read_chunk A R key (nonce i) (Some (length (chunk_data data ! i) + TAG_LEN)) (sel i) =
        Inr (chunk_data data ! i) \<and>
      (read_chunk A R key (nonce i) None (sel i) = Inr (chunk_data data ! i) \<longleftrightarrow>
        3 dvd (length (chunk_data data ! i) + TAG_LEN)) \<and>
      (length (chunk_data data ! i) = CHUNK_SIZE \<longrightarrow>
        read_chunk A R key (nonce i) None (sel i) \<noteq> Inr (chunk_data data ! i))) \<and>
    assemble_chunks (map (\<lambda>i. projr (read_chunk A R key (nonce i)
      (Some (length (chunk_data data ! i) + TAG_LEN)) (sel i))) [0..<length (chunk_data data)]) = data"
proof -
  let ?cs = "chunk_data data"
  obtain key' where "derive_key K password salt = Inr key'" "key_ok key'"
    by (rule derive_key_ok [OF assms(3-5)])
  with assms(6) have key: "key_ok key" by simp
  have full: "\<not> 3 dvd (CHUNK_SIZE + TAG_LEN)" by (simp add: CHUNK_SIZE_def TAG_LEN_def)
  have one: "read_chunk A R key (nonce i) (Some (length (?cs ! i) + TAG_LEN)) (sel i) = Inr (?cs ! i) \<and>
      (read_chunk A R key (nonce i) None (sel i) = Inr (?cs ! i) \<longleftrightarrow> 3 dvd (length (?cs ! i) + TAG_LEN))"
    if "i < length ?cs" for i
    using read_chunk_shards [OF assms(1,2) _ key] assms(7,8) that by blast
  have read_all: "map (\<lambda>i. projr (read_chunk A R key (nonce i) (Some (length (?cs ! i) + TAG_LEN)) (sel i)))
      [0..<length ?cs] = ?cs"
    by (rule nth_equalityI) (simp_all add: one [THEN conjunct1])
  have "assemble_chunks (map (\<lambda>i. projr (read_chunk A R key (nonce i)
      (Some (length (?cs ! i) + TAG_LEN)) (sel i))) [0..<length ?cs]) = data"
    unfolding read_all by (simp add: assemble_chunks_concat chunk_data_fixed concat_fixed_chunks)
  moreover have "read_chunk A R key (nonce i) None (sel i) \<noteq> Inr (?cs ! i)"
    if "i < length ?cs" "length (?cs ! i) = CHUNK_SIZE" for i
    using one [OF that(1)] full by (simp only: that(2)) blast
  ultimately show ?thesis using one by blast
qed

section \<open>The hosts\<close>

text \<open>Storing a list of shards without I/O errors.\<close>

definition store_all ::
  "crypto \<Rightarrow> meta_api \<Rightarrow> path \<Rightarrow> ((ChunkId \<times> ShardIndex) \<times> bytes) list \<Rightarrow> file_system \<Rightarrow> file_system" where
  "store_all cr M base kvs fs =
     fold (\<lambda>((c, i), d) fs. fst (store_shard cr M (\<lambda>_. NoFault) '''' '''' base c i d fs)) kvs fs"

lemma store_all_puts:
  "fold (\<lambda>(k, v). shard_put k v) kvs (cr, M, base, fs) = (cr, M, base, store_all cr M base kvs fs)"
  by (induction kvs arbitrary: fs) (auto simp: store_all_def shard_put_def)

lemma retrieve_store_all:
  assumes "crypto_laws cr" and "meta_laws M" and "store_ok cr base fs"
    and "distinct (map fst kvs)" and "((c, i), d) \<in> set kvs"
  shows "retrieve_shard cr M base c i (store_all cr M base kvs fs) = Inr d"
proof -
  have "shard_ok (cr, M, base, fs)" using assms(1-3) by (simp add: shard_ok_def)
  moreover have "map_of (rev kvs) (c, i) = Some d"
    using assms(4,5) by (intro map_of_is_SomeI) (simp_all add: rev_map [symmetric])
  ultimately show ?thesis
    using shards.get_puts [of "(cr, M, base, fs)" kvs "(c, i)"] by (simp add: store_all_puts shard_get_def)
qed

text \<open>
  Damage that the shard store can detect: a file of the shard is missing, or the data has been
  changed to something with another hash while the metadata is as it was.
\<close>

definition detectable ::
  "crypto \<Rightarrow> bytes \<Rightarrow> bytes option \<times> bytes option \<Rightarrow> bytes option \<times> bytes option \<Rightarrow> bool" where
  "detectable cr shard before after \<longleftrightarrow> after = before \<or> fst after = None \<or> snd after = None \<or>
     snd after = snd before \<and> blake3 cr (the (fst after)) \<noteq> blake3 cr shard"

lemma detectable_read:
  assumes "crypto_laws cr" and "read_files cr M before = Inr shard" and "detectable cr shard before after"
  shows "read_files cr M after = Inr shard \<or> (after \<noteq> before \<and> \<not> is_ok (read_files cr M after))"
proof (cases "after = before")
  case False
  obtain d m where after: "after = (d, m)" by (cases after)
  obtain d0 m0 where before: "before = (d0, m0)" by (cases before)
  from False assms(2,3) show ?thesis
    by (auto simp: after before detectable_def read_files_def hex_encode_inject [OF assms(1)]
        split: option.splits if_splits) (metis assms(1) hex_encode_inject)
qed (use assms in simp)

text \<open>Asking every host for its shard of a chunk.\<close>

definition collect_shards ::
  "crypto \<Rightarrow> meta_api \<Rightarrow> path \<Rightarrow> ChunkId \<Rightarrow> (nat \<Rightarrow> file_system) \<Rightarrow> (nat \<times> bytes) list" where
  "collect_shards cr M base c host =
     concat (map (\<lambda>i. case retrieve_shard cr M base c (ShardIndex i) (host i) of Inl _ \<Rightarrow> [] | Inr d \<Rightarrow> [(i, d)])
       [0..<RS_TOTAL_SHARDS])"

lemma collect_set: "(i, d) \<in> set (collect_shards cr M base c host) \<longleftrightarrow>
    i < RS_TOTAL_SHARDS \<and> retrieve_shard cr M base c (ShardIndex i) (host i) = Inr d"
  by (auto simp: collect_shards_def split: sum.splits)

lemma collect_enough:
  assumes "crypto_laws cr"
    and "\<forall>i < RS_TOTAL_SHARDS. retrieve_shard cr M base c (ShardIndex i) (kept i) = Inr (shards ! i)"
    and "\<forall>i < RS_TOTAL_SHARDS. detectable cr (shards ! i)
      (shard_files cr base c (ShardIndex i) (kept i)) (shard_files cr base c (ShardIndex i) (found i))"
    and "card {i. i < RS_TOTAL_SHARDS \<and>
      shard_files cr base c (ShardIndex i) (found i) \<noteq> shard_files cr base c (ShardIndex i) (kept i)} \<le> 2"
  shows "enough_shards shards (collect_shards cr M base c found)"
proof -
  let ?bad = "{i. i < RS_TOTAL_SHARDS \<and>
      shard_files cr base c (ShardIndex i) (found i) \<noteq> shard_files cr base c (ShardIndex i) (kept i)}"
  let ?sel = "collect_shards cr M base c found"
  have reads: "retrieve_shard cr M base c (ShardIndex i) (found i) = Inr (shards ! i) \<or>
      i \<in> ?bad \<and> \<not> is_ok (retrieve_shard cr M base c (ShardIndex i) (found i))" if "i < RS_TOTAL_SHARDS" for i
    using detectable_read [OF assms(1)] assms(2,3) that by (simp add: retrieve_shard_files)
  have "\<forall>(i, s) \<in> set ?sel. i < RS_TOTAL_SHARDS \<and> s = shards ! i"
    using reads by (fastforce simp: collect_set)
  moreover have "i \<in> fst ` set ?sel" if "i \<in> {0..<RS_TOTAL_SHARDS} - ?bad" for i
  proof (rule image_eqI)
    show "i = fst (i, shards ! i)" by simp
    show "(i, shards ! i) \<in> set ?sel" using reads [of i] that by (simp add: collect_set)
  qed
  then have "{0..<RS_TOTAL_SHARDS} - ?bad \<subseteq> fst ` set ?sel" by blast
  then have "card ({0..<RS_TOTAL_SHARDS} - ?bad) \<le> card (fst ` set ?sel)" by (intro card_mono) simp_all
  moreover have "RS_TOTAL_SHARDS - 2 \<le> card ({0..<RS_TOTAL_SHARDS} - ?bad)"
    using diff_card_le_card_Diff [of ?bad "{0..<RS_TOTAL_SHARDS}"] assms(4) by simp
  ultimately show ?thesis by (simp add: enough_shards_def shard_count_defs)
qed

end
