(* ===== verification/Decimal.thy ===== *)
theory Decimal
  imports Complex_Main Prelude
begin

text \<open>
  The money type.  \<open>rust_decimal::Decimal\<close> is a third-party crate: a \<open>decimal_api\<close> holds its
  operations, an argument of every definition that computes with money; \<open>None\<close> is a panic.
  \<open>dval\<close> is the number a value stands for: the crate compares values by the numbers they stand
  for, whatever their scale.  The documentation describes a value as a 96-bit integer with a
  decimal scale of at most 28, and an operation as exact whenever the result has that form;
  \<open>decimal_laws\<close> states this and nothing about inexact results.
\<close>

section \<open>The crate\<close>

record 'd decimal_api =
  dval :: "'d \<Rightarrow> rat"
  dlit :: "rat \<Rightarrow> 'd"
  dmax :: 'd
  dadd :: "'d \<Rightarrow> 'd \<Rightarrow> 'd option"
  dsub :: "'d \<Rightarrow> 'd \<Rightarrow> 'd option"
  dmul :: "'d \<Rightarrow> 'd \<Rightarrow> 'd option"
  ddiv :: "'d \<Rightarrow> 'd \<Rightarrow> 'd option"

definition fits :: "nat \<Rightarrow> rat \<Rightarrow> bool" where
  "fits s q \<longleftrightarrow> (\<exists>m :: int. q * 10 ^ s = of_int m \<and> \<bar>m\<bar> < 2 ^ 96)"

definition representable :: "rat \<Rightarrow> bool" where
  "representable q \<longleftrightarrow> (\<exists>s \<le> 28. fits s q)"

definition computes :: "'d decimal_api \<Rightarrow> 'd option \<Rightarrow> rat \<Rightarrow> bool" where
  "computes D r q \<longleftrightarrow> (representable q \<longrightarrow> (\<exists>c. r = Some c \<and> dval D c = q))"

definition decimal_laws :: "'d decimal_api \<Rightarrow> bool" where
  "decimal_laws D \<longleftrightarrow>
     (\<forall>q. representable q \<longrightarrow> dval D (dlit D q) = q) \<and>
     (\<forall>a b. computes D (dadd D a b) (dval D a + dval D b)) \<and>
     (\<forall>a b. computes D (dsub D a b) (dval D a - dval D b)) \<and>
     (\<forall>a b. computes D (dmul D a b) (dval D a * dval D b)) \<and>
     (\<forall>a b. dval D b \<noteq> 0 \<longrightarrow> computes D (ddiv D a b) (dval D a / dval D b)) \<and>
     (\<forall>a b. dval D b = 0 \<longrightarrow> ddiv D a b = None)"

section \<open>Exact results\<close>

lemma fitsI: "q * 10 ^ s = of_int m \<Longrightarrow> \<bar>m\<bar> < 2 ^ 96 \<Longrightarrow> fits s q"
  by (auto simp: fits_def)

lemma representableI: "fits s q \<Longrightarrow> s \<le> 28 \<Longrightarrow> representable q"
  by (auto simp: representable_def)

lemma representable_int: "\<bar>m\<bar> < 2 ^ 96 \<Longrightarrow> representable (of_int m)"
  by (rule representableI [of 0]) (auto simp: fits_def)

lemma representable_nat: "n < 2 ^ 96 \<Longrightarrow> representable (of_nat n)"
proof -
  assume "n < 2 ^ 96"
  then have "int n < int (2 ^ 96)" by (simp only: of_nat_less_iff)
  then show ?thesis using representable_int [of "int n"] by simp
qed

lemma representable_0 [simp]: "representable 0"
  using representable_int [of 0] by simp

lemma dlit_exact: "decimal_laws D \<Longrightarrow> representable q \<Longrightarrow> dval D (dlit D q) = q"
  by (simp add: decimal_laws_def)

lemma dlit_zero [simp]: "decimal_laws D \<Longrightarrow> dval D (dlit D 0) = 0"
  by (simp add: dlit_exact)

lemma dadd_exact:
  assumes "decimal_laws D" and "representable (dval D a + dval D b)"
  obtains c where "dadd D a b = Some c" and "dval D c = dval D a + dval D b"
  using assms unfolding decimal_laws_def computes_def by blast

lemma dsub_exact:
  assumes "decimal_laws D" and "representable (dval D a - dval D b)"
  obtains c where "dsub D a b = Some c" and "dval D c = dval D a - dval D b"
  using assms unfolding decimal_laws_def computes_def by blast

lemma dmul_exact:
  assumes "decimal_laws D" and "representable (dval D a * dval D b)"
  obtains c where "dmul D a b = Some c" and "dval D c = dval D a * dval D b"
  using assms unfolding decimal_laws_def computes_def by blast

lemma ddiv_exact:
  assumes "decimal_laws D" and "dval D b \<noteq> 0" and "representable (dval D a / dval D b)"
  obtains c where "ddiv D a b = Some c" and "dval D c = dval D a / dval D b"
  using assms unfolding decimal_laws_def computes_def by blast

section \<open>A concrete instance\<close>

text \<open>
  For the witnesses: rational numbers rounded to 28 decimal places, a half away from zero for
  positive numbers, without a bound on the integer part.
\<close>

definition round28 :: "rat \<Rightarrow> rat" where
  "round28 q = of_int \<lfloor>q * 10 ^ 28 + 1 / 2\<rfloor> / 10 ^ 28"

definition sample_decimal :: "rat decimal_api" where
  "sample_decimal =
     \<lparr>dval = (\<lambda>q. q), dlit = (\<lambda>q. q), dmax = 79228162514264337593543950335,
      dadd = (\<lambda>a b. Some (round28 (a + b))),
      dsub = (\<lambda>a b. Some (round28 (a - b))),
      dmul = (\<lambda>a b. Some (round28 (a * b))),
      ddiv = (\<lambda>a b. if b = 0 then None else Some (round28 (a / b)))\<rparr>"

lemma round28_fits:
  assumes "fits s q" and "s \<le> 28"
  shows "round28 q = q"
proof -
  from assms(1) obtain m where m: "q * 10 ^ s = of_int m" by (auto simp: fits_def)
  have "q * 10 ^ 28 = q * 10 ^ s * 10 ^ (28 - s)"
    using assms(2) by (simp add: mult.assoc flip: power_add)
  also have "\<dots> = of_int (m * 10 ^ (28 - s))" by (simp add: m)
  finally have q: "q * 10 ^ 28 = of_int (m * 10 ^ (28 - s))" .
  have "\<lfloor>q * 10 ^ 28 + 1 / 2\<rfloor> = m * 10 ^ (28 - s)"
    unfolding q by (rule floor_unique) simp_all
  then have "round28 q = of_int (m * 10 ^ (28 - s)) / 10 ^ 28" by (simp only: round28_def)
  also have "\<dots> = q" by (simp only: q [symmetric]) simp
  finally show ?thesis .
qed

lemma round28_representable: "representable q \<Longrightarrow> round28 q = q"
  by (auto simp: representable_def round28_fits)

lemma sample_decimal_laws: "decimal_laws sample_decimal"
  by (simp add: decimal_laws_def computes_def sample_decimal_def round28_representable)

lemma sample_decimal_simps [simp]:
  "dval sample_decimal q = q" "dlit sample_decimal q = q"
  "dadd sample_decimal a b = Some (round28 (a + b))"
  "dsub sample_decimal a b = Some (round28 (a - b))"
  "dmul sample_decimal a b = Some (round28 (a * b))"
  by (simp_all add: sample_decimal_def)

end
