(* ===== verification/Billing.thy ===== *)
theory Billing
  imports Decimal
begin

text \<open>
  billing/src/rates.rs, billing/src/types.rs and billing/src/calculator.rs: the tariff, the
  hourly billing entry and the split of revenue between platform and hosts.  \<open>D\<close> is the
  decimal crate; a decimal overflow is a panic.
\<close>

declare of_nat_unat [simp del]

section \<open>Rates\<close>

definition BASE_RATE_PER_TB_HOUR :: "'d decimal_api \<Rightarrow> 'd" where
  "BASE_RATE_PER_TB_HOUR D = dlit D (30 / 100)"

definition PLATFORM_SHARE :: "'d decimal_api \<Rightarrow> 'd" where
  "PLATFORM_SHARE D = dlit D (10 / 100)"

definition HOST_SHARE :: "'d decimal_api \<Rightarrow> 'd" where
  "HOST_SHARE D = dlit D (90 / 100)"

definition CUSHION_MULTIPLIER :: "'d decimal_api \<Rightarrow> 'd" where
  "CUSHION_MULTIPLIER D = dlit D (125 / 100)"

definition HOURS_PER_DAY :: "'d decimal_api \<Rightarrow> 'd" where
  "HOURS_PER_DAY D = dlit D 24"

definition MIN_WITHDRAWAL :: "'d decimal_api \<Rightarrow> 'd" where
  "MIN_WITHDRAWAL D = dlit D 100"

datatype DiskType = Hdd | Ssd | Nvme

fun DiskType_multiplier :: "'d decimal_api \<Rightarrow> DiskType \<Rightarrow> 'd" where
  "DiskType_multiplier D Hdd = dlit D (10 / 10)"
| "DiskType_multiplier D Ssd = dlit D (15 / 10)"
| "DiskType_multiplier D Nvme = dlit D (20 / 10)"

definition DiskType_from_u32 :: "u32 \<Rightarrow> DiskType" where
  "DiskType_from_u32 v = (if v = 1 then Hdd else if v = 2 then Ssd else if v = 3 then Nvme else Hdd)"

text \<open>The cast \<open>disk_type as u32\<close> reads the discriminant.\<close>

fun DiskType_as_u32 :: "DiskType \<Rightarrow> u32" where
  "DiskType_as_u32 Hdd = 1"
| "DiskType_as_u32 Ssd = 2"
| "DiskType_as_u32 Nvme = 3"

datatype ReplicationFactor = ReplicationFactor (replicas: u32)

definition ReplicationFactor_multiplier :: "'d decimal_api \<Rightarrow> ReplicationFactor \<Rightarrow> 'd" where
  "ReplicationFactor_multiplier D r = dlit D (of_nat (unat (replicas r)))"

definition calculate_hourly_rate ::
  "'d decimal_api \<Rightarrow> DiskType \<Rightarrow> ReplicationFactor \<Rightarrow> bool \<Rightarrow> 'd result" where
  "calculate_hourly_rate D disk_type replication cushion_enabled =
     try_then (or_panic (dmul D (BASE_RATE_PER_TB_HOUR D) (ReplicationFactor_multiplier D replication)))
       (\<lambda>x. try_then (or_panic (dmul D x (DiskType_multiplier D disk_type)))
         (\<lambda>rate. if cushion_enabled then or_panic (dmul D rate (CUSHION_MULTIPLIER D)) else Inr rate))"

section \<open>Billing types\<close>

datatype AccountId = AccountId string

text \<open>\<open>AccountId::new\<close> and the identifiers of entries take the fresh UUID as an argument.\<close>

definition AccountId_new :: "string \<Rightarrow> AccountId" where
  "AccountId_new uuid = AccountId uuid"

record 'd BillingEntry =
  be_id :: string
  be_account_id :: AccountId
  be_timestamp :: int
  be_hours :: u32
  be_data_volume_tb :: 'd
  be_hourly_rate :: 'd
  be_total_cost :: 'd
  be_platform_fee :: 'd
  be_host_fee :: 'd
  be_disk_type :: u32
  be_replication_factor :: u32
  be_cushion_enabled :: bool

definition BillingEntry_new ::
  "'d decimal_api \<Rightarrow> string \<Rightarrow> AccountId \<Rightarrow> int \<Rightarrow> u32 \<Rightarrow> 'd \<Rightarrow> 'd \<Rightarrow> u32 \<Rightarrow> u32 \<Rightarrow> bool \<Rightarrow>
   'd BillingEntry result" where
  "BillingEntry_new D uuid account_id timestamp hours data_volume_tb hourly_rate disk_type
     replication_factor cushion_enabled =
     try_then (or_panic (dmul D hourly_rate data_volume_tb))
       (\<lambda>x. try_then (or_panic (dmul D x (dlit D (of_nat (unat hours)))))
         (\<lambda>total_cost. try_then (or_panic (dmul D total_cost (PLATFORM_SHARE D)))
           (\<lambda>platform_fee. try_then (or_panic (dmul D total_cost (HOST_SHARE D)))
             (\<lambda>host_fee. Inr
               \<lparr>be_id = uuid, be_account_id = account_id, be_timestamp = timestamp,
                be_hours = hours, be_data_volume_tb = data_volume_tb,
                be_hourly_rate = hourly_rate, be_total_cost = total_cost,
                be_platform_fee = platform_fee, be_host_fee = host_fee,
                be_disk_type = disk_type, be_replication_factor = replication_factor,
                be_cushion_enabled = cushion_enabled\<rparr>))))"

definition BillingEntry_verify_split :: "'d decimal_api \<Rightarrow> 'd BillingEntry \<Rightarrow> bool result" where
  "BillingEntry_verify_split D e =
     try_then (or_panic (dadd D (be_platform_fee e) (be_host_fee e)))
       (\<lambda>s. Inr (dval D s = dval D (be_total_cost e)))"

datatype TransactionType = TxDeposit | TxWithdrawal | TxBillingCharge | TxRefund | TxPlatformFee | TxHostPayout

record 'd Transaction =
  tx_id :: string
  tx_account_id :: AccountId
  tx_type :: TransactionType
  tx_amount :: 'd
  tx_balance_after :: 'd
  tx_timestamp :: int
  tx_description :: string

section \<open>The calculator\<close>

definition calculate_hourly ::
  "'d decimal_api \<Rightarrow> string \<Rightarrow> int \<Rightarrow> AccountId \<Rightarrow> u64 \<Rightarrow> DiskType \<Rightarrow> ReplicationFactor \<Rightarrow> bool \<Rightarrow>
   'd BillingEntry result" where
  "calculate_hourly D uuid now account_id data_volume_bytes disk_type replication cushion_enabled =
     try_then (or_panic (ddiv D (dlit D (of_nat (unat data_volume_bytes))) (dlit D 1099511627776)))
       (\<lambda>data_volume_tb. try_then (calculate_hourly_rate D disk_type replication cushion_enabled)
         (\<lambda>hourly_rate. BillingEntry_new D uuid account_id now 1 data_volume_tb hourly_rate
            (DiskType_as_u32 disk_type) (replicas replication) cushion_enabled))"

definition split_revenue :: "'d decimal_api \<Rightarrow> 'd \<Rightarrow> ('d \<times> 'd) result" where
  "split_revenue D tot =
     try_then (or_panic (dmul D tot (PLATFORM_SHARE D)))
       (\<lambda>platform. try_then (or_panic (dsub D tot platform)) (\<lambda>host. Inr (platform, host)))"

definition verify_split :: "'d decimal_api \<Rightarrow> 'd \<Rightarrow> 'd \<Rightarrow> 'd \<Rightarrow> bool result" where
  "verify_split D tot platform host =
     try_then (or_panic (dadd D platform host)) (\<lambda>s. Inr (dval D tot = dval D s))"

definition daily_cost :: "'d decimal_api \<Rightarrow> 'd \<Rightarrow> 'd \<Rightarrow> 'd result" where
  "daily_cost D hourly_rate data_volume_tb =
     try_then (or_panic (dmul D hourly_rate data_volume_tb))
       (\<lambda>x. or_panic (dmul D x (HOURS_PER_DAY D)))"

definition monthly_cost :: "'d decimal_api \<Rightarrow> 'd \<Rightarrow> 'd result" where
  "monthly_cost D daily = or_panic (dmul D daily (dlit D 30))"

definition is_balance_sufficient :: "'d decimal_api \<Rightarrow> 'd \<Rightarrow> bool" where
  "is_balance_sufficient D balance = (dval D balance > 0)"

definition remaining_hours :: "'d decimal_api \<Rightarrow> 'd \<Rightarrow> 'd \<Rightarrow> 'd \<Rightarrow> 'd result" where
  "remaining_hours D balance hourly_rate data_volume_tb =
     try_then (or_panic (dmul D hourly_rate data_volume_tb))
       (\<lambda>hourly_cost. if dval D hourly_cost = dval D (dlit D 0) then Inr (dmax D)
         else or_panic (ddiv D balance hourly_cost))"

section \<open>The constants are exact\<close>

lemma small_decimal: "\<bar>n\<bar> < 2 ^ 96 \<Longrightarrow> representable (of_int n / 100)"
  by (rule representableI [of 2], rule fitsI [of _ _ n]) simp_all

lemma share_exact:
  assumes "decimal_laws D"
  shows "dval D (PLATFORM_SHARE D) = 1 / 10" "dval D (HOST_SHARE D) = 9 / 10"
    "dval D (CUSHION_MULTIPLIER D) = 5 / 4" "dval D (BASE_RATE_PER_TB_HOUR D) = 3 / 10"
    "dval D (HOURS_PER_DAY D) = 24" "dval D (MIN_WITHDRAWAL D) = 100"
  using assms small_decimal [of 10] small_decimal [of 90] small_decimal [of 125] small_decimal [of 30]
    representable_int [of 24] representable_int [of 100]
  by (simp_all add: PLATFORM_SHARE_def HOST_SHARE_def CUSHION_MULTIPLIER_def
      BASE_RATE_PER_TB_HOUR_def HOURS_PER_DAY_def MIN_WITHDRAWAL_def dlit_exact)

definition disk_factor :: "DiskType \<Rightarrow> rat" where
  "disk_factor d = (case d of Hdd \<Rightarrow> 1 | Ssd \<Rightarrow> 3 / 2 | Nvme \<Rightarrow> 2)"

lemma DiskType_multiplier_exact:
  "decimal_laws D \<Longrightarrow> dval D (DiskType_multiplier D d) = disk_factor d"
  using representable_int [of 1] representable_int [of 2] small_decimal [of 150]
  by (cases d) (simp_all add: disk_factor_def dlit_exact)

declare DiskType_multiplier.simps [simp del]

lemma DiskType_from_as: "DiskType_from_u32 (DiskType_as_u32 d) = d"
  by (cases d) (simp_all add: DiskType_from_u32_def)

lemma u32_lt: "unat (n :: u32) < 2 ^ 32"
  using unsigned_less [of n, where ?'a = nat] by simp

lemma replication_exact:
  "decimal_laws D \<Longrightarrow> dval D (ReplicationFactor_multiplier D r) = of_nat (unat (replicas r))"
proof -
  have "unat (replicas r) < 2 ^ 96"
    by (rule less_trans [OF u32_lt]) simp
  then show "decimal_laws D \<Longrightarrow> ?thesis"
    by (simp add: ReplicationFactor_multiplier_def dlit_exact representable_nat)
qed

section \<open>Properties\<close>

lemma ten_thousandth: "\<bar>n\<bar> < 2 ^ 96 \<Longrightarrow> representable (of_int n / 10000)"
  by (rule representableI [of 4], rule fitsI [of _ _ n]) simp_all

text \<open>A rate for k ten thousandths and any number of replicas has four decimal places.\<close>

lemma rate_representable:
  assumes "0 \<le> k" and "k \<le> 10000"
  shows "representable (of_int (k * int (unat (replicas rep))) / 10000)"
proof (rule ten_thousandth)
  let ?n = "int (unat (replicas rep))"
  have n: "0 \<le> ?n" "?n < 2 ^ 32" using u32_lt [of "replicas rep"] by simp_all
  have "k * ?n \<le> 10000 * 2 ^ 32" using assms n by (intro mult_mono) simp_all
  then show "\<bar>k * ?n\<bar> < 2 ^ 96" using assms n by (simp add: abs_mult)
qed

text \<open>
  C12: the tariff.  For every disk type, every 32-bit replication factor and with or without
  the cushion, the hourly rate is computed without overflow and without rounding:
  0.30 times the number of replicas times 1, 1.5 or 2, times 1.25 with the cushion.
\<close>

theorem hourly_rate_exact:
  assumes "decimal_laws D"
  shows "\<exists>rate. calculate_hourly_rate D disk rep cushion = Inr rate \<and>
    dval D rate = 3 / 10 * of_nat (unat (replicas rep)) * disk_factor disk *
      (if cushion then 5 / 4 else 1)"
proof -
  note rep = rate_representable [of _ rep]
  have "representable (dval D (BASE_RATE_PER_TB_HOUR D) * dval D (ReplicationFactor_multiplier D rep))"
    using rep [of 3000] by (simp add: share_exact replication_exact assms)
  from dmul_exact [OF assms this] obtain x where
    x: "dmul D (BASE_RATE_PER_TB_HOUR D) (ReplicationFactor_multiplier D rep) = Some x"
    "dval D x = 3 / 10 * of_nat (unat (replicas rep))"
    by (metis share_exact(4) replication_exact assms)
  have "representable (dval D x * dval D (DiskType_multiplier D disk))"
    using rep [of 3000] rep [of 4500] rep [of 6000]
    by (cases disk) (simp_all add: x DiskType_multiplier_exact assms disk_factor_def)
  from dmul_exact [OF assms this] obtain r where
    r: "dmul D x (DiskType_multiplier D disk) = Some r"
    "dval D r = 3 / 10 * of_nat (unat (replicas rep)) * disk_factor disk"
    by (metis x(2) DiskType_multiplier_exact assms)
  have "representable (dval D r * dval D (CUSHION_MULTIPLIER D))"
    using rep [of 3750] rep [of 5625] rep [of 7500]
    by (cases disk) (simp_all add: r share_exact assms disk_factor_def)
  from dmul_exact [OF assms this] obtain c where
    c: "dmul D r (CUSHION_MULTIPLIER D) = Some c" "dval D c = dval D r * dval D (CUSHION_MULTIPLIER D)" .
  have c2: "dval D c = 3 / 10 * of_nat (unat (replicas rep)) * disk_factor disk * (5 / 4)"
    unfolding c(2) r(2) share_exact(3) [OF assms] ..
  show ?thesis
  proof (intro exI conjI)
    show "calculate_hourly_rate D disk rep cushion = Inr (if cushion then c else r)"
      using x(1) r(1) c(1) by (simp add: calculate_hourly_rate_def)
    show "dval D (if cushion then c else r) = 3 / 10 * of_nat (unat (replicas rep)) * disk_factor disk *
        (if cushion then 5 / 4 else 1)"
      by (cases cushion) (simp_all only: if_True if_False c2 r(2) mult_1_right)
  qed
qed

theorem hourly_rate_exact_witness:
  "\<exists>rate. calculate_hourly_rate sample_decimal Nvme (ReplicationFactor 3) True = Inr rate \<and>
    rate = 9 / 4"
  using hourly_rate_exact [OF sample_decimal_laws, of Nvme "ReplicationFactor 3" True]
  by (simp add: disk_factor_def)

lemma tenth_representable:
  fixes t :: rat
  assumes "t * 10 ^ s = of_int m" and "s \<le> 27" and "9 * \<bar>m\<bar> < 2 ^ 96"
  shows "representable (t / 10)" "representable (9 * t / 10)" "representable t"
proof -
  show "representable (t / 10)"
    by (rule representableI [of "Suc s"], rule fitsI [of _ _ m]) (use assms in auto)
  show "representable (9 * t / 10)"
    by (rule representableI [of "Suc s"], rule fitsI [of _ _ "9 * m"]) (use assms in auto)
  show "representable t"
    by (rule representableI [of s], rule fitsI [of _ _ m]) (use assms in auto)
qed

text \<open>
  C13: the split of an amount with at most 27 decimal places (and a mantissa below a ninth of
  the 96-bit bound).  Both ways the code splits it, \<open>split_revenue\<close> and the fees of a billing
  entry, give the platform exactly 10 percent and the hosts exactly 90 percent, and the sum
  check succeeds.
\<close>

theorem split_exact:
  assumes "decimal_laws D"
    and "dval D tot * 10 ^ s = of_int m" and "s \<le> 27" and "9 * \<bar>m\<bar> < 2 ^ 96"
  shows "(\<exists>p h. split_revenue D tot = Inr (p, h) \<and> dval D p = dval D tot / 10 \<and>
      dval D h = 9 * dval D tot / 10 \<and> verify_split D tot p h = Inr True) \<and>
    (\<forall>u acc ts hrs vol rate dt rf c e.
       BillingEntry_new D u acc ts hrs vol rate dt rf c = Inr e \<and> be_total_cost e = tot \<longrightarrow>
       dval D (be_platform_fee e) = dval D tot / 10 \<and>
       dval D (be_host_fee e) = 9 * dval D tot / 10 \<and>
       BillingEntry_verify_split D e = Inr True)"
proof -
  note rep = tenth_representable [OF assms(2-4)]
  from dmul_exact [OF assms(1), of tot "PLATFORM_SHARE D"] rep(1) obtain p where
    p: "dmul D tot (PLATFORM_SHARE D) = Some p" "dval D p = dval D tot / 10"
    by (auto simp: share_exact assms(1))
  from dmul_exact [OF assms(1), of tot "HOST_SHARE D"] rep(2) obtain f where
    f: "dmul D tot (HOST_SHARE D) = Some f" "dval D f = 9 * dval D tot / 10"
    by (auto simp: share_exact assms(1) mult.commute)
  have diff: "dval D tot - dval D p = 9 * dval D tot / 10" using p(2) by simp
  from dsub_exact [OF assms(1), of tot p] rep(2) diff obtain h where
    h: "dsub D tot p = Some h" "dval D h = 9 * dval D tot / 10" by auto
  have sum: "\<exists>x. dadd D p y = Some x \<and> dval D x = dval D tot" if "dval D y = 9 * dval D tot / 10" for y
  proof -
    have "dval D p + dval D y = dval D tot" using p(2) that by simp
    with dadd_exact [OF assms(1), of p y] rep(3) show ?thesis by metis
  qed
  from sum [OF h(2)] sum [OF f(2)] show ?thesis
    using p f h
    by (auto simp: split_revenue_def verify_split_def BillingEntry_new_def BillingEntry_verify_split_def
        result_simps)
qed

theorem split_exact_witness:
  "\<exists>p h. split_revenue sample_decimal (1 / 4) = Inr (p, h) \<and> p = 1 / 40 \<and> h = 9 / 40 \<and>
     verify_split sample_decimal (1 / 4) p h = Inr True"
  using split_exact [OF sample_decimal_laws, of "1 / 4" 2 25] by auto

end
