(* ===== verification/Clock.thy ===== *)
theory Clock
  imports Prelude
begin

text \<open>
  Time.  An instant (\<open>DateTime<Utc>\<close>) and a time span (\<open>Duration\<close>) are integers, in
  nanoseconds; \<open>Utc::now()\<close> is an argument of the operation that reads it.  The operations of
  the chrono crate that can panic or round are a parameter; \<open>None\<close> is a panic, and
  \<open>chrono_laws\<close> holds what the crate documents of them within its date range (about 262000
  years around the epoch).
\<close>

record chrono_api =
  c_hours :: "int \<Rightarrow> int option"
  c_days :: "int \<Rightarrow> int option"
  c_add :: "int \<Rightarrow> int \<Rightarrow> int option"
  c_num_seconds :: "int \<Rightarrow> int"
  c_num_days :: "int \<Rightarrow> int"

definition ns_per_s :: int where
  "ns_per_s = 1000000000"

definition ns_per_hour :: int where
  "ns_per_hour = 3600 * ns_per_s"

definition ns_per_day :: int where
  "ns_per_day = 24 * ns_per_hour"

definition date_limit :: int where
  "date_limit = 8000000000000 * ns_per_s"

text \<open>Division that drops the fraction, towards zero.\<close>

definition trunc_div :: "int \<Rightarrow> int \<Rightarrow> int" where
  "trunc_div a b = (if 0 \<le> a then a div b else - ((- a) div b))"

definition chrono_laws :: "chrono_api \<Rightarrow> bool" where
  "chrono_laws C \<longleftrightarrow>
     (\<forall>h. \<bar>h\<bar> \<le> 2562047788015 \<longrightarrow> c_hours C h = Some (h * ns_per_hour)) \<and>
     (\<forall>d. \<bar>d\<bar> \<le> 106751991167 \<longrightarrow> c_days C d = Some (d * ns_per_day)) \<and>
     (\<forall>t d. \<bar>t + d\<bar> \<le> date_limit \<longrightarrow> c_add C t d = Some (t + d)) \<and>
     (\<forall>d. c_num_seconds C d = trunc_div d ns_per_s) \<and>
     (\<forall>d. c_num_days C d = trunc_div d ns_per_day)"

lemma chrono_hours: "chrono_laws C \<Longrightarrow> \<bar>h\<bar> \<le> 2562047788015 \<Longrightarrow> c_hours C h = Some (h * ns_per_hour)"
  and chrono_days: "chrono_laws C \<Longrightarrow> \<bar>d\<bar> \<le> 106751991167 \<Longrightarrow> c_days C d = Some (d * ns_per_day)"
  and chrono_add: "chrono_laws C \<Longrightarrow> \<bar>t + d\<bar> \<le> date_limit \<Longrightarrow> c_add C t d = Some (t + d)"
  and chrono_num_seconds: "chrono_laws C \<Longrightarrow> c_num_seconds C d = trunc_div d ns_per_s"
  and chrono_num_days: "chrono_laws C \<Longrightarrow> c_num_days C d = trunc_div d ns_per_day"
  by (simp_all add: chrono_laws_def)

lemma time_units_pos [simp]: "0 < ns_per_s" "0 < ns_per_hour" "0 < ns_per_day"
  by (simp_all add: ns_per_s_def ns_per_hour_def ns_per_day_def)

lemma trunc_div_nonpos: "a \<le> 0 \<Longrightarrow> 0 < b \<Longrightarrow> trunc_div a b \<le> 0"
  by (cases "a = 0") (simp_all add: trunc_div_def pos_imp_zdiv_nonneg_iff)

lemma trunc_div_pos_iff: "0 < b \<Longrightarrow> 0 < trunc_div a b \<longleftrightarrow> b \<le> a"
  using trunc_div_nonpos [of a b] by (cases "0 < a") (auto simp: trunc_div_def pos_imp_zdiv_pos_iff)

lemma trunc_div_max0: "0 < b \<Longrightarrow> max 0 (trunc_div a b) = max 0 a div b"
  using trunc_div_nonpos [of a b]
  by (cases "0 < a") (simp_all add: trunc_div_def max_def pos_imp_zdiv_nonneg_iff)

text \<open>A crate without a range limit, for the witnesses.\<close>

definition sample_chrono :: chrono_api where
  "sample_chrono =
     \<lparr>c_hours = (\<lambda>h. Some (h * ns_per_hour)), c_days = (\<lambda>d. Some (d * ns_per_day)),
      c_add = (\<lambda>t d. Some (t + d)), c_num_seconds = (\<lambda>d. trunc_div d ns_per_s),
      c_num_days = (\<lambda>d. trunc_div d ns_per_day)\<rparr>"

lemma sample_chrono_laws: "chrono_laws sample_chrono"
  by (simp add: chrono_laws_def sample_chrono_def)

end
