(* ===== verification/Freeze.thy ===== *)
theory Freeze
  imports Clock
begin

text \<open>
  billing/src/freeze.rs: the life cycle of an account, Active, then FrozenExport with a window
  for exporting the data, then HardDeleted.  The clock is read once by each operation that uses
  it, the argument \<open>now\<close>; an operation with \<open>&mut self\<close> returns the new manager.
\<close>

section \<open>The manager\<close>

datatype FreezeState = Active | FrozenExport | HardDeleted

fun FreezeState_fmt :: "FreezeState \<Rightarrow> string" where
  "FreezeState_fmt Active = ''Active''"
| "FreezeState_fmt FrozenExport = ''FrozenExport''"
| "FreezeState_fmt HardDeleted = ''HardDeleted''"

record FreezeManager =
  fm_state :: FreezeState
  fm_frozen_at :: "int option"
  fm_export_duration :: int

definition FreezeManager_new :: "chrono_api \<Rightarrow> FreezeManager result" where
  "FreezeManager_new C =
     try_then (or_panic (c_hours C 48))
       (\<lambda>d. Inr \<lparr>fm_state = Active, fm_frozen_at = None, fm_export_duration = d\<rparr>)"

definition FreezeManager_default :: "chrono_api \<Rightarrow> FreezeManager result" where
  "FreezeManager_default C = FreezeManager_new C"

definition with_export_duration :: "chrono_api \<Rightarrow> i64 \<Rightarrow> FreezeManager result" where
  "with_export_duration C hours =
     try_then (or_panic (c_hours C (sint hours)))
       (\<lambda>d. Inr \<lparr>fm_state = Active, fm_frozen_at = None, fm_export_duration = d\<rparr>)"

definition trigger_freeze :: "int \<Rightarrow> FreezeManager \<Rightarrow> FreezeManager" where
  "trigger_freeze now m =
     (if fm_state m = Active then m\<lparr>fm_state := FrozenExport, fm_frozen_at := Some now\<rparr> else m)"

definition check_export_expiry ::
  "chrono_api \<Rightarrow> int \<Rightarrow> FreezeManager \<Rightarrow> (FreezeManager \<times> bool) result" where
  "check_export_expiry C now m =
     (if fm_state m \<noteq> FrozenExport then Inr (m, False)
      else case fm_frozen_at m of
        Some frozen_at \<Rightarrow> try_then (or_panic (c_add C frozen_at (fm_export_duration m)))
          (\<lambda>expiry. if now \<ge> expiry then Inr (m\<lparr>fm_state := HardDeleted\<rparr>, True) else Inr (m, False))
      | None \<Rightarrow> Inr (m, False))"

definition remaining_export_seconds :: "chrono_api \<Rightarrow> int \<Rightarrow> FreezeManager \<Rightarrow> int result" where
  "remaining_export_seconds C now m =
     (if fm_state m \<noteq> FrozenExport then Inr 0
      else case fm_frozen_at m of
        Some frozen_at \<Rightarrow> try_then (or_panic (c_add C frozen_at (fm_export_duration m)))
          (\<lambda>expiry. Inr (max (c_num_seconds C (expiry - now)) 0))
      | None \<Rightarrow> Inr 0)"

definition FreezeManager_state :: "FreezeManager \<Rightarrow> FreezeState" where
  "FreezeManager_state m = fm_state m"

definition unfreeze :: "FreezeManager \<Rightarrow> FreezeManager" where
  "unfreeze m =
     (if fm_state m = FrozenExport then m\<lparr>fm_state := Active, fm_frozen_at := None\<rparr> else m)"

definition FreezeManager_frozen_at :: "FreezeManager \<Rightarrow> int option" where
  "FreezeManager_frozen_at m = fm_frozen_at m"

section \<open>The life cycle as a contract\<close>

text \<open>What the account relies on: how the state moves, whatever the manager's representation.\<close>

locale lifecycle =
  fixes state :: "'m \<Rightarrow> FreezeState"
    and trigger :: "int \<Rightarrow> 'm \<Rightarrow> 'm"
    and release :: "'m \<Rightarrow> 'm"
  assumes trigger_active: "state m = Active \<Longrightarrow> state (trigger now m) = FrozenExport"
    and trigger_idle: "state m \<noteq> Active \<Longrightarrow> trigger now m = m"
    and release_frozen: "state m = FrozenExport \<Longrightarrow> state (release m) = Active"
    and release_idle: "state m \<noteq> FrozenExport \<Longrightarrow> release m = m"
begin

lemma trigger_state: "state (trigger now m) = (if state m = HardDeleted then HardDeleted else FrozenExport)"
  by (cases "state m") (simp_all add: trigger_active trigger_idle)

lemma trigger_not_active: "state (trigger now m) \<noteq> Active"
  by (simp add: trigger_state)

lemma trigger_twice: "trigger now' (trigger now m) = trigger now m"
  by (rule trigger_idle) (rule trigger_not_active)

lemma deleted_absorbing:
  "state m = HardDeleted \<Longrightarrow> trigger now m = m \<and> release m = m"
  by (simp add: trigger_idle release_idle)

lemma release_state: "state (release m) = (if state m = HardDeleted then HardDeleted else Active)"
  by (cases "state m") (simp_all add: release_frozen release_idle)

end

interpretation fz: lifecycle FreezeManager_state trigger_freeze unfreeze
  by unfold_locales (simp_all add: FreezeManager_state_def trigger_freeze_def unfreeze_def)

section \<open>Runs of a manager\<close>

datatype freeze_event = Trigger int | Check int | Unfreeze

inductive freeze_step :: "chrono_api \<Rightarrow> FreezeManager \<Rightarrow> freeze_event \<Rightarrow> FreezeManager \<Rightarrow> bool"
  for C :: chrono_api where
  step_trigger: "freeze_step C m (Trigger now) (trigger_freeze now m)"
| step_check: "check_export_expiry C now m = Inr (m', b) \<Longrightarrow> freeze_step C m (Check now) m'"
| step_unfreeze: "freeze_step C m Unfreeze (unfreeze m)"

inductive freeze_run :: "chrono_api \<Rightarrow> FreezeManager \<Rightarrow> freeze_event list \<Rightarrow> FreezeManager \<Rightarrow> bool"
  for C :: chrono_api and m :: FreezeManager where
  run_nil: "freeze_run C m [] m"
| run_snoc: "freeze_run C m evs m' \<Longrightarrow> freeze_step C m' ev m'' \<Longrightarrow> freeze_run C m (evs @ [ev]) m''"

inductive_cases step_triggerE: "freeze_step C m (Trigger now) m'"
inductive_cases step_checkE: "freeze_step C m (Check now) m'"
inductive_cases step_unfreezeE: "freeze_step C m Unfreeze m'"
inductive_simps freeze_run_nil [simp]: "freeze_run C m [] m'"
inductive_simps freeze_run_snoc: "freeze_run C m (evs @ [ev]) m'"

lemmas freeze_stepEs = step_triggerE step_checkE step_unfreezeE
lemmas freeze_defs = trigger_freeze_def check_export_expiry_def unfreeze_def

text \<open>The time of freezing is kept exactly while the manager is not active.\<close>

definition fm_inv :: "int \<Rightarrow> FreezeManager \<Rightarrow> bool" where
  "fm_inv d m \<longleftrightarrow> fm_export_duration m = d \<and> (fm_state m = Active \<longleftrightarrow> fm_frozen_at m = None)"

lemma FreezeManager_new_inv:
  "chrono_laws C \<Longrightarrow>
     \<exists>m. FreezeManager_new C = Inr m \<and> fm_inv (48 * ns_per_hour) m \<and> fm_state m = Active"
  by (simp add: FreezeManager_new_def chrono_hours fm_inv_def)

lemma with_export_duration_inv:
  "chrono_laws C \<Longrightarrow> \<bar>sint h\<bar> \<le> 2562047788015 \<Longrightarrow>
     \<exists>m. with_export_duration C h = Inr m \<and> fm_inv (sint h * ns_per_hour) m \<and> fm_state m = Active"
  by (simp add: with_export_duration_def chrono_hours fm_inv_def)

lemma freeze_step_inv:
  assumes "freeze_step C m ev m'" and "fm_inv d m"
  shows "fm_inv d m'"
  using assms
  by cases (auto simp: freeze_defs fm_inv_def result_simps split: if_splits option.splits)

lemma freeze_run_inv: "freeze_run C m evs m' \<Longrightarrow> fm_inv d m \<Longrightarrow> fm_inv d m'"
  by (induction rule: freeze_run.induct) (auto intro: freeze_step_inv)

text \<open>The check, when the addition stays inside the date range.\<close>

lemma check_frozen:
  assumes "chrono_laws C" and "fm_state m = FrozenExport" and "fm_frozen_at m = Some t"
    and "\<bar>t + fm_export_duration m\<bar> \<le> date_limit"
  shows "check_export_expiry C now m =
    Inr (if now \<ge> t + fm_export_duration m then (m\<lparr>fm_state := HardDeleted\<rparr>, True) else (m, False))"
  using assms by (simp add: check_export_expiry_def chrono_add)

lemma check_not_frozen: "fm_state m \<noteq> FrozenExport \<Longrightarrow> check_export_expiry C now m = Inr (m, False)"
  by (simp add: check_export_expiry_def)

lemma step_deleted: "freeze_step C m ev m' \<Longrightarrow> fm_state m = HardDeleted \<Longrightarrow> m' = m"
  by (cases rule: freeze_step.cases) (auto simp: freeze_defs)

lemma run_deleted: "freeze_run C m evs m' \<Longrightarrow> fm_state m = HardDeleted \<Longrightarrow> m' = m"
  by (induction rule: freeze_run.induct) (auto dest: step_deleted)

lemma freeze_run_append:
  "freeze_run C m (xs @ ys) m' \<longleftrightarrow> (\<exists>k. freeze_run C m xs k \<and> freeze_run C k ys m')"
proof (induction ys arbitrary: m' rule: rev_induct)
  case (snoc y ys)
  have "freeze_run C m ((xs @ ys) @ [y]) m' \<longleftrightarrow>
    (\<exists>k. freeze_run C m (xs @ ys) k \<and> freeze_step C k y m')" by (rule freeze_run_snoc)
  then have "freeze_run C m (xs @ ys @ [y]) m' \<longleftrightarrow>
    (\<exists>k. freeze_run C m (xs @ ys) k \<and> freeze_step C k y m')" by simp
  then show ?case by (auto simp: snoc.IH freeze_run_snoc)
qed simp

text \<open>A run that starts while the manager is frozen and has no \<open>Unfreeze\<close> never leaves the window.\<close>

lemma run_frozen:
  assumes "freeze_run C m evs m'" and "Unfreeze \<notin> set evs" and "fm_state m = FrozenExport"
  shows "m' = m \<or> m' = m\<lparr>fm_state := HardDeleted\<rparr>"
  using assms
proof (induction rule: freeze_run.induct)
  case (run_snoc evs m' ev m'')
  from run_snoc.prems run_snoc.IH have m': "m' = m \<or> m' = m\<lparr>fm_state := HardDeleted\<rparr>" by simp
  have ev: "ev \<noteq> Unfreeze" using run_snoc.prems by auto
  from run_snoc.hyps(2) m' ev run_snoc.prems(2) show ?case
    by cases
      (auto simp: freeze_defs result_simps split: option.splits if_splits)
qed simp

lemma freeze_step_total:
  assumes "chrono_laws C"
    and "\<And>t. fm_frozen_at m = Some t \<Longrightarrow> \<bar>t + fm_export_duration m\<bar> \<le> date_limit"
  shows "\<exists>m'. freeze_step C m ev m'"
proof (cases ev)
  case (Check now)
  have "\<exists>r. check_export_expiry C now m = Inr r"
    using assms by (cases "fm_frozen_at m") (auto simp: check_export_expiry_def chrono_add)
  then show ?thesis unfolding Check by (auto intro: freeze_step.intros)
qed (auto intro: freeze_step.intros)

lemma freeze_step_det: "freeze_step C m ev m1 \<Longrightarrow> freeze_step C m ev m2 \<Longrightarrow> m1 = m2"
  by (cases ev) (auto elim!: freeze_stepEs)

lemma freeze_run_det: "freeze_run C m evs m1 \<Longrightarrow> freeze_run C m evs m2 \<Longrightarrow> m1 = m2"
proof (induction arbitrary: m2 rule: freeze_run.induct)
  case (run_snoc evs m' ev m'')
  then show ?case by (metis freeze_run_snoc freeze_step_det)
qed simp

lemma freeze_run_Cons: "freeze_run C m (ev # evs) m' \<longleftrightarrow> (\<exists>k. freeze_step C m ev k \<and> freeze_run C k evs m')"
  using freeze_run_append [of C m "[ev]" evs m'] freeze_run_snoc [of C m "[]" ev] by simp

text \<open>Frozen at t, no unfreeze, and a late enough check: whatever follows, the account is deleted.\<close>

lemma run_deletes:
  assumes "chrono_laws C" and "fm_inv d k" and "fm_state k = Active" and "\<bar>t + d\<bar> \<le> date_limit"
    and "freeze_run C k (Trigger t # mid @ Check n # post) m" and "Unfreeze \<notin> set mid" and "t + d \<le> n"
  shows "fm_state m = HardDeleted"
proof -
  let ?f = "trigger_freeze t k"
  from assms(5) obtain c m' where c: "freeze_run C ?f mid c" "freeze_step C c (Check n) m'"
    "freeze_run C m' post m"
    by (auto simp: freeze_run_Cons freeze_run_append elim!: step_triggerE)
  have f: "fm_state ?f = FrozenExport" "fm_frozen_at ?f = Some t" "fm_export_duration ?f = d"
    using assms(2,3) by (simp_all add: trigger_freeze_def fm_inv_def)
  from run_frozen [OF c(1) assms(6) f(1)] have "fm_state m' = HardDeleted"
  proof
    assume "c = ?f"
    with check_frozen [OF assms(1) f(1,2)] f(3) assms(4,7) c(2) show ?thesis
      by (auto elim!: step_checkE)
  next
    assume "c = ?f\<lparr>fm_state := HardDeleted\<rparr>"
    with step_deleted [OF c(2)] show ?thesis by simp
  qed
  with run_deleted [OF c(3)] show ?thesis by simp
qed

section \<open>Why a manager is frozen or deleted\<close>

lemma frozen_since:
  assumes "freeze_run C m0 evs m" and "fm_inv d m0" and "fm_state m0 = Active"
    and "fm_state m = FrozenExport"
  shows "\<exists>pre t mid k. evs = pre @ Trigger t # mid \<and> freeze_run C m0 pre k \<and> fm_state k = Active \<and>
    Unfreeze \<notin> set mid \<and> fm_frozen_at m = Some t"
  using assms
proof (induction rule: freeze_run.induct)
  case (run_snoc evs m' ev m'')
  from run_snoc.hyps(2) consider
      (new) t where "ev = Trigger t" "fm_state m' = Active" "m'' = trigger_freeze t m'"
    | (old) "fm_state m' = FrozenExport" "ev \<noteq> Unfreeze" "m'' = m'"
    using run_snoc.prems(3)
    by cases (auto simp: freeze_defs result_simps split: if_splits option.splits)
  then show ?case
  proof cases
    case new
    then show ?thesis using run_snoc.hyps(1)
      by (intro exI [of _ evs] exI [of _ t] exI [of _ "[]"]) (auto simp: trigger_freeze_def)
  next
    case old
    from run_snoc.IH [OF run_snoc.prems(1,2) old(1)] obtain pre t mid k where
      "evs = pre @ Trigger t # mid" "freeze_run C m0 pre k" "fm_state k = Active"
      "Unfreeze \<notin> set mid" "fm_frozen_at m' = Some t" by blast
    with old show ?thesis
      by (intro exI [of _ pre] exI [of _ t] exI [of _ "mid @ [ev]"] exI [of _ k]) simp
  qed
qed simp

lemma check_deletes:
  assumes "check_export_expiry C n m = Inr (m', b)" and "fm_state m \<noteq> HardDeleted"
    and "fm_state m' = HardDeleted"
  shows "fm_state m = FrozenExport \<and> b"
  using assms by (auto simp: check_export_expiry_def result_simps split: if_splits option.splits)

lemma step_deletes:
  assumes "freeze_step C m ev m'" and "fm_state m \<noteq> HardDeleted" and "fm_state m' = HardDeleted"
  obtains n where "ev = Check n" "fm_state m = FrozenExport" "check_export_expiry C n m = Inr (m', True)"
  using assms(1)
proof cases
  case (step_check now b)
  with check_deletes [OF step_check(2) assms(2,3)] that show ?thesis by simp
qed (use assms(2,3) in \<open>simp_all add: trigger_freeze_def unfreeze_def split: if_splits\<close>)

lemma deleted_at:
  assumes "freeze_run C m0 evs m" and "fm_state m0 = Active" and "fm_state m = HardDeleted"
  shows "\<exists>pre n post k. evs = pre @ Check n # post \<and> freeze_run C m0 pre k \<and> fm_state k = FrozenExport \<and>
    check_export_expiry C n k = Inr (m, True)"
  using assms
proof (induction rule: freeze_run.induct)
  case (run_snoc evs m' ev m'')
  from run_snoc.hyps(2) consider
      (new) n where "ev = Check n" "fm_state m' = FrozenExport" "check_export_expiry C n m' = Inr (m'', True)"
    | (old) "fm_state m' = HardDeleted" "m'' = m'"
    using run_snoc.prems(2) step_deletes step_deleted by metis
  then show ?case
  proof cases
    case new
    then show ?thesis using run_snoc.hyps(1)
      by (intro exI [of _ evs] exI [of _ n] exI [of _ "[]"] exI [of _ m']) simp
  next
    case old
    from run_snoc.IH [OF run_snoc.prems(1) old(1)] obtain pre n post k where
      "evs = pre @ Check n # post" "freeze_run C m0 pre k" "fm_state k = FrozenExport"
      "check_export_expiry C n k = Inr (m', True)" by blast
    with old show ?thesis
      by (intro exI [of _ pre] exI [of _ n] exI [of _ "post @ [ev]"] exI [of _ k]) simp
  qed
qed simp

section \<open>Properties\<close>

text \<open>
  C14: an account's data is deleted exactly when it has to be.  After any run of a manager with
  the default window, the state is HardDeleted if and only if somewhere in the run the manager
  was active, a trigger froze it at a time t, and a check at a time at least 48 hours after t
  followed with no unfreeze in between.
\<close>

theorem freeze_deletion:
  assumes "chrono_laws C" and "FreezeManager_new C = Inr m0" and "freeze_run C m0 evs m"
    and "\<forall>t. Trigger t \<in> set evs \<longrightarrow> \<bar>t + 48 * ns_per_hour\<bar> \<le> date_limit"
  shows "fm_state m = HardDeleted \<longleftrightarrow>
    (\<exists>pre t mid n post k. evs = pre @ Trigger t # mid @ Check n # post \<and>
       freeze_run C m0 pre k \<and> fm_state k = Active \<and> Unfreeze \<notin> set mid \<and>
       t + 48 * ns_per_hour \<le> n)" (is "_ \<longleftrightarrow> ?due")
proof
  from FreezeManager_new_inv [OF assms(1)] assms(2)
  have m0: "fm_inv (48 * ns_per_hour) m0" "fm_state m0 = Active" by auto
  note inv = freeze_run_inv [OF _ m0(1)]
  show ?due if deleted: "fm_state m = HardDeleted"
  proof -
    from deleted_at [OF assms(3) m0(2) deleted] obtain before n post f where
      f: "evs = before @ Check n # post" "freeze_run C m0 before f" "fm_state f = FrozenExport"
      "check_export_expiry C n f = Inr (m, True)" by blast
    from frozen_since [OF f(2) m0 f(3)] obtain pre t mid k where
      k: "before = pre @ Trigger t # mid" "freeze_run C m0 pre k" "fm_state k = Active"
      "Unfreeze \<notin> set mid" "fm_frozen_at f = Some t" by blast
    from inv [OF f(2)] have "fm_export_duration f = 48 * ns_per_hour" by (simp add: fm_inv_def)
    moreover have "\<bar>t + 48 * ns_per_hour\<bar> \<le> date_limit" using assms(4) f(1) k(1) by simp
    ultimately have "t + 48 * ns_per_hour \<le> n"
      using f(4) check_frozen [OF assms(1) f(3) k(5)] by (auto split: if_splits)
    then show ?due using f(1) k
      by (intro exI [of _ pre] exI [of _ t] exI [of _ mid] exI [of _ n] exI [of _ post] exI [of _ k]) simp
  qed
  show "fm_state m = HardDeleted" if due: ?due
  proof -
    from due obtain pre t mid n post k where
      evs: "evs = pre @ Trigger t # mid @ Check n # post" and
      k: "freeze_run C m0 pre k" "fm_state k = Active" "Unfreeze \<notin> set mid" "t + 48 * ns_per_hour \<le> n"
      by blast
    from assms(3) evs freeze_run_det [OF k(1)]
    have "freeze_run C k (Trigger t # mid @ Check n # post) m" by (auto simp: freeze_run_append)
    moreover have "\<bar>t + 48 * ns_per_hour\<bar> \<le> date_limit" using assms(4) evs by simp
    ultimately show ?thesis
      using run_deletes [OF assms(1) inv [OF k(1)] k(2)] k(3,4) by blast
  qed
qed

definition frozen_sample :: FreezeManager where
  "frozen_sample = \<lparr>fm_state = Active, fm_frozen_at = None, fm_export_duration = 48 * ns_per_hour\<rparr>"

theorem freeze_deletion_witness:
  "\<exists>m. freeze_run sample_chrono frozen_sample [Trigger 0, Check (48 * ns_per_hour)] m \<and>
     fm_state m = HardDeleted"
proof -
  let ?m = "frozen_sample\<lparr>fm_state := HardDeleted, fm_frozen_at := Some 0\<rparr>"
  have start: "FreezeManager_new sample_chrono = Inr frozen_sample"
    by (simp add: FreezeManager_new_def frozen_sample_def sample_chrono_def)
  have "freeze_step sample_chrono (trigger_freeze 0 frozen_sample) (Check (48 * ns_per_hour)) ?m"
    by (rule step_check [where b = True])
      (simp add: check_export_expiry_def trigger_freeze_def frozen_sample_def sample_chrono_def)
  then have run: "freeze_run sample_chrono frozen_sample [Trigger 0, Check (48 * ns_per_hour)] ?m"
    by (auto simp: freeze_run_Cons intro: step_trigger)
  have "\<forall>t. Trigger t \<in> set [Trigger 0, Check (48 * ns_per_hour)] \<longrightarrow>
      \<bar>t + 48 * ns_per_hour\<bar> \<le> date_limit"
    by (simp add: ns_per_hour_def ns_per_s_def date_limit_def)
  from freeze_deletion [OF sample_chrono_laws start run this] have "fm_state ?m = HardDeleted"
    by simp
  with run show ?thesis by blast
qed

text \<open>
  C15: the export window.  For a frozen manager whose window ends inside the date range, the
  remaining time is the number of whole seconds left and never negative; the check deletes the
  account exactly at or after the end, never while a second is reported as remaining, and the
  report can already be 0 during the last second before the check succeeds.
\<close>

theorem export_window:
  assumes "chrono_laws C" and "fm_state m = FrozenExport" and "fm_frozen_at m = Some t"
    and "\<bar>t + fm_export_duration m\<bar> \<le> date_limit"
  shows "remaining_export_seconds C now m = Inr (max 0 (t + fm_export_duration m - now) div ns_per_s) \<and>
    (check_export_expiry C now m = Inr (m\<lparr>fm_state := HardDeleted\<rparr>, True) \<longleftrightarrow>
      t + fm_export_duration m \<le> now) \<and>
    (check_export_expiry C now m = Inr (m, False) \<longleftrightarrow> now < t + fm_export_duration m) \<and>
    (remaining_export_seconds C now m = Inr 0 \<longleftrightarrow> now > t + fm_export_duration m - ns_per_s)"
proof -
  let ?left = "t + fm_export_duration m - now"
  have rem: "remaining_export_seconds C now m = Inr (max 0 ?left div ns_per_s)"
    using assms by (simp add: remaining_export_seconds_def chrono_add chrono_num_seconds
        trunc_div_max0 max.commute [of _ 0])
  have "max 0 ?left div ns_per_s = 0 \<longleftrightarrow> ?left < ns_per_s"
    using pos_imp_zdiv_pos_iff [of ns_per_s "max 0 ?left"] pos_imp_zdiv_nonneg_iff [of ns_per_s "max 0 ?left"]
      time_units_pos(1) by linarith
  with rem check_frozen [OF assms] assms(2) show ?thesis
    by (auto simp: not_le)
qed

theorem export_window_witness:
  "remaining_export_seconds sample_chrono 1
     \<lparr>fm_state = FrozenExport, fm_frozen_at = Some 0, fm_export_duration = 48 * ns_per_hour\<rparr> = Inr 172799"
  using export_window [OF sample_chrono_laws, of
      "\<lparr>fm_state = FrozenExport, fm_frozen_at = Some 0, fm_export_duration = 48 * ns_per_hour\<rparr>" 0 1]
  by (simp add: ns_per_hour_def ns_per_s_def date_limit_def)

end
