(* ===== verification/Account.thy ===== *)
theory Account
  imports Billing Freeze
begin

text \<open>
  billing/src/account.rs: the balance, the transaction log and the freeze state of an account.
  An operation returns the account and its result; a refused operation returns the account as
  it was.  The transaction's UUID and the clock are arguments.  Messages of errors are the
  literals of the source without the formatted amounts.
\<close>

section \<open>The account\<close>

record 'd BillingAccount =
  acc_id :: AccountId
  acc_balance :: 'd
  acc_transactions :: "'d Transaction list"
  acc_freeze_manager :: FreezeManager

type_synonym 'd outcome = "'d BillingAccount \<times> unit result"

definition record_transaction ::
  "string \<Rightarrow> int \<Rightarrow> TransactionType \<Rightarrow> 'd \<Rightarrow> string \<Rightarrow> 'd BillingAccount \<Rightarrow> 'd BillingAccount" where
  "record_transaction uuid now tx amount description a =
     a\<lparr>acc_transactions := acc_transactions a @
        [\<lparr>tx_id = uuid, tx_account_id = acc_id a, tx_type = tx, tx_amount = amount,
          tx_balance_after = acc_balance a, tx_timestamp = now, tx_description = description\<rparr>]\<rparr>"

definition deposit ::
  "'d decimal_api \<Rightarrow> string \<Rightarrow> int \<Rightarrow> 'd \<Rightarrow> string \<Rightarrow> 'd BillingAccount \<Rightarrow> 'd outcome" where
  "deposit D uuid now amount description a =
     (if dval D amount \<le> 0 then (a, Inl (Err ''Deposit amount must be positive''))
      else if FreezeManager_state (acc_freeze_manager a) = HardDeleted
      then (a, Inl (Err ''Account has been hard deleted''))
      else case dadd D (acc_balance a) amount of
        None \<Rightarrow> (a, Inl Panic)
      | Some b \<Rightarrow> (record_transaction uuid now TxDeposit amount description (a\<lparr>acc_balance := b\<rparr>), Inr ()))"

text \<open>A charge reads the clock twice, for the transaction and for the freeze.\<close>

definition charge ::
  "'d decimal_api \<Rightarrow> string \<Rightarrow> int \<Rightarrow> int \<Rightarrow> 'd \<Rightarrow> string \<Rightarrow> 'd BillingAccount \<Rightarrow> 'd outcome" where
  "charge D uuid now now_frozen amount description a =
     (if dval D amount \<le> 0 then (a, Inl (Err ''Charge amount must be positive''))
      else case dsub D (acc_balance a) amount of
        None \<Rightarrow> (a, Inl Panic)
      | Some b \<Rightarrow>
          let a1 = record_transaction uuid now TxBillingCharge amount description (a\<lparr>acc_balance := b\<rparr>);
              a2 = (if dval D (acc_balance a1) \<le> 0
                    then a1\<lparr>acc_freeze_manager := trigger_freeze now_frozen (acc_freeze_manager a1)\<rparr> else a1)
          in (a2, Inr ()))"

definition request_withdrawal ::
  "'d decimal_api \<Rightarrow> string \<Rightarrow> int \<Rightarrow> 'd \<Rightarrow> string \<Rightarrow> 'd BillingAccount \<Rightarrow> 'd outcome" where
  "request_withdrawal D uuid now amount description a =
     (if dval D amount < dval D (MIN_WITHDRAWAL D) then (a, Inl (Err ''Minimum withdrawal''))
      else if dval D amount > dval D (acc_balance a) then (a, Inl (Err ''Insufficient balance''))
      else if FreezeManager_state (acc_freeze_manager a) \<noteq> Active
      then (a, Inl (Err ''Account is frozen or deleted, cannot withdraw''))
      else case dsub D (acc_balance a) amount of
        None \<Rightarrow> (a, Inl Panic)
      | Some b \<Rightarrow> (record_transaction uuid now TxWithdrawal amount description (a\<lparr>acc_balance := b\<rparr>), Inr ()))"

definition BillingAccount_new ::
  "'d decimal_api \<Rightarrow> chrono_api \<Rightarrow> string \<Rightarrow> string \<Rightarrow> int \<Rightarrow> 'd \<Rightarrow> 'd BillingAccount result" where
  "BillingAccount_new D C uuid tx_uuid now initial_deposit =
     try_then (FreezeManager_new C) (\<lambda>m.
       let account = \<lparr>acc_id = AccountId_new uuid, acc_balance = dlit D 0, acc_transactions = [],
                      acc_freeze_manager = m\<rparr>
       in if dval D initial_deposit > dval D (dlit D 0)
          then case deposit D tx_uuid now initial_deposit ''Initial deposit'' account of
                 (a, Inr _) \<Rightarrow> Inr a | (a, Inl _) \<Rightarrow> Inl Panic
          else Inr account)"

definition freeze_state :: "'d BillingAccount \<Rightarrow> FreezeState" where
  "freeze_state a = FreezeManager_state (acc_freeze_manager a)"

definition can_store :: "'d decimal_api \<Rightarrow> 'd BillingAccount \<Rightarrow> bool" where
  "can_store D a \<longleftrightarrow> FreezeManager_state (acc_freeze_manager a) = Active \<and> dval D (acc_balance a) > 0"

definition can_download :: "'d BillingAccount \<Rightarrow> bool" where
  "can_download a \<longleftrightarrow> FreezeManager_state (acc_freeze_manager a) \<in> {Active, FrozenExport}"

section \<open>Runs of an account\<close>

text \<open>
  The public operations, with the calls that the clients make on the public field
  \<open>freeze_manager\<close>.
\<close>

datatype 'd account_op =
    Deposit string int 'd string
  | Charge string int int 'd string
  | Withdraw string int 'd string
  | CheckExpiry int
  | UnfreezeAccount

fun account_apply ::
  "'d decimal_api \<Rightarrow> chrono_api \<Rightarrow> 'd account_op \<Rightarrow> 'd BillingAccount \<Rightarrow> 'd outcome" where
  "account_apply D C (Deposit u t x s) a = deposit D u t x s a"
| "account_apply D C (Charge u t t2 x s) a = charge D u t t2 x s a"
| "account_apply D C (Withdraw u t x s) a = request_withdrawal D u t x s a"
| "account_apply D C (CheckExpiry t) a =
    (case check_export_expiry C t (acc_freeze_manager a) of
       Inl e \<Rightarrow> (a, Inl e) | Inr (m, _) \<Rightarrow> (a\<lparr>acc_freeze_manager := m\<rparr>, Inr ()))"
| "account_apply D C UnfreezeAccount a =
    (a\<lparr>acc_freeze_manager := unfreeze (acc_freeze_manager a)\<rparr>, Inr ())"

text \<open>A panic ends a run; any other error is reported to the client, which goes on.\<close>

fun account_run ::
  "'d decimal_api \<Rightarrow> chrono_api \<Rightarrow> 'd account_op list \<Rightarrow> 'd BillingAccount \<Rightarrow> 'd BillingAccount result" where
  "account_run D C [] a = Inr a"
| "account_run D C (op # ops) a =
    (case account_apply D C op a of
       (a', Inl Panic) \<Rightarrow> Inl Panic
     | (a', _) \<Rightarrow> account_run D C ops a')"

section \<open>Amounts on a grid\<close>

text \<open>
  Exact sums.  An amount is on the grid \<open>s\<close> when it has at most \<open>s\<close> decimal places; sums of
  such amounts are exact as long as they stay below the 96-bit bound.
\<close>

definition on_grid :: "nat \<Rightarrow> rat \<Rightarrow> bool" where
  "on_grid s q \<longleftrightarrow> (\<exists>m :: int. q * 10 ^ s = of_int m)"

lemma on_grid_add: "on_grid s p \<Longrightarrow> on_grid s q \<Longrightarrow> on_grid s (p + q)"
proof -
  assume "on_grid s p" and "on_grid s q"
  then obtain m n where "p * 10 ^ s = of_int m" "q * 10 ^ s = of_int n" by (auto simp: on_grid_def)
  then have "(p + q) * 10 ^ s = of_int (m + n)" by (simp add: distrib_right)
  then show ?thesis by (auto simp only: on_grid_def)
qed

lemma on_grid_uminus: "on_grid s q \<Longrightarrow> on_grid s (- q)"
proof -
  assume "on_grid s q"
  then obtain m where "q * 10 ^ s = of_int m" by (auto simp: on_grid_def)
  then have "(- q) * 10 ^ s = of_int (- m)" by simp
  then show ?thesis by (auto simp only: on_grid_def)
qed

lemma on_grid_diff: "on_grid s p \<Longrightarrow> on_grid s q \<Longrightarrow> on_grid s (p - q)"
  using on_grid_add [of s p "- q"] on_grid_uminus [of s q] by simp

lemma on_grid_0 [simp]: "on_grid s 0"
  by (auto simp: on_grid_def intro: exI [of _ 0])

lemma on_grid_representable:
  assumes "on_grid s q" and "s \<le> 28" and "\<bar>q\<bar> * 10 ^ s < 2 ^ 96"
  shows "representable q"
proof -
  from assms(1) obtain m where m: "q * 10 ^ s = of_int m" by (auto simp: on_grid_def)
  have "\<bar>q\<bar> * 10 ^ s = \<bar>q * 10 ^ s\<bar>" by (simp add: abs_mult)
  with assms(3) m have "of_int \<bar>m\<bar> < (of_int (2 ^ 96) :: rat)" by simp
  then have "\<bar>m\<bar> < 2 ^ 96" by (simp only: of_int_less_iff)
  with m have "fits s q" by (auto simp only: fits_def)
  then show ?thesis using assms(2) by (rule representableI)
qed

section \<open>The log determines the balance\<close>

definition tx_delta :: "'d decimal_api \<Rightarrow> 'd Transaction \<Rightarrow> rat" where
  "tx_delta D t = (case tx_type t of
     TxDeposit \<Rightarrow> dval D (tx_amount t)
   | TxWithdrawal \<Rightarrow> - dval D (tx_amount t)
   | TxBillingCharge \<Rightarrow> - dval D (tx_amount t)
   | _ \<Rightarrow> 0)"

definition log_sum :: "'d decimal_api \<Rightarrow> 'd Transaction list \<Rightarrow> rat" where
  "log_sum D txs = sum_list (map (tx_delta D) txs)"

definition log_volume :: "'d decimal_api \<Rightarrow> 'd Transaction list \<Rightarrow> rat" where
  "log_volume D txs = sum_list (map (\<lambda>t. dval D (tx_amount t)) txs)"

definition log_ok :: "'d decimal_api \<Rightarrow> 'd BillingAccount \<Rightarrow> bool" where
  "log_ok D a \<longleftrightarrow>
     dval D (acc_balance a) = log_sum D (acc_transactions a) \<and>
     (\<forall>i < length (acc_transactions a).
        dval D (tx_balance_after (acc_transactions a ! i)) = log_sum D (take (Suc i) (acc_transactions a))) \<and>
     (\<forall>t \<in> set (acc_transactions a). 0 < dval D (tx_amount t) \<and> tx_account_id t = acc_id a)"

text \<open>The freeze manager's window is the default one and ends inside the date range.\<close>

definition window_ok :: "'d BillingAccount \<Rightarrow> bool" where
  "window_ok a \<longleftrightarrow> fm_export_duration (acc_freeze_manager a) = 48 * ns_per_hour \<and>
     (\<forall>t. fm_frozen_at (acc_freeze_manager a) = Some t \<longrightarrow> \<bar>t + 48 * ns_per_hour\<bar> \<le> date_limit)"

definition account_ok :: "'d decimal_api \<Rightarrow> nat \<Rightarrow> 'd BillingAccount \<Rightarrow> bool" where
  "account_ok D s a \<longleftrightarrow> log_ok D a \<and> window_ok a \<and>
     on_grid s (dval D (acc_balance a)) \<and>
     \<bar>dval D (acc_balance a)\<bar> \<le> log_volume D (acc_transactions a)"

lemma log_sum_simps [simp]: "log_sum D [] = 0" "log_sum D (xs @ ys) = log_sum D xs + log_sum D ys"
    "log_sum D (t # xs) = tx_delta D t + log_sum D xs"
  by (simp_all add: log_sum_def)

lemma log_volume_simps [simp]: "log_volume D [] = 0" "log_volume D (xs @ [t]) = log_volume D xs + dval D (tx_amount t)"
  by (simp_all add: log_volume_def)

text \<open>Appending the transaction that explains the new balance keeps the log right.\<close>

lemma log_ok_record:
  assumes "log_ok D a" and "0 < dval D x"
    and "dval D b = dval D (acc_balance a) + (case ty of TxDeposit \<Rightarrow> dval D x | TxWithdrawal \<Rightarrow> - dval D x
      | TxBillingCharge \<Rightarrow> - dval D x | _ \<Rightarrow> 0)"
  shows "log_ok D (record_transaction u now ty x s (a\<lparr>acc_balance := b\<rparr>))"
  using assms
  by (cases ty) (auto simp: log_ok_def record_transaction_def tx_delta_def nth_append less_Suc_eq)

lemma log_ok_manager [simp]: "log_ok D (a\<lparr>acc_freeze_manager := m\<rparr>) = log_ok D a"
  by (simp add: log_ok_def)

lemma record_simps [simp]:
  "acc_balance (record_transaction u t ty x s a) = acc_balance a"
  "acc_freeze_manager (record_transaction u t ty x s a) = acc_freeze_manager a"
  "acc_id (record_transaction u t ty x s a) = acc_id a"
  "log_volume D (acc_transactions (record_transaction u t ty x s a)) =
     log_volume D (acc_transactions a) + dval D x"
  by (simp_all add: record_transaction_def)

lemma window_ok_record [simp]: "window_ok (record_transaction u t ty x s a) = window_ok a"
  and window_ok_balance [simp]: "window_ok (a\<lparr>acc_balance := b\<rparr>) = window_ok a"
  by (simp_all add: window_ok_def)

lemma window_ok_trigger:
  "window_ok a \<Longrightarrow> \<bar>t + 48 * ns_per_hour\<bar> \<le> date_limit \<Longrightarrow>
    window_ok (a\<lparr>acc_freeze_manager := trigger_freeze t (acc_freeze_manager a)\<rparr>)"
  by (auto simp: window_ok_def trigger_freeze_def)

lemma window_ok_unfreeze:
  "window_ok a \<Longrightarrow> window_ok (a\<lparr>acc_freeze_manager := unfreeze (acc_freeze_manager a)\<rparr>)"
  by (simp add: window_ok_def unfreeze_def)

lemma window_ok_check:
  assumes "chrono_laws C" and "window_ok a"
  shows "\<exists>m b. check_export_expiry C t (acc_freeze_manager a) = Inr (m, b) \<and>
    window_ok (a\<lparr>acc_freeze_manager := m\<rparr>)"
  using assms
  by (cases "fm_frozen_at (acc_freeze_manager a)")
    (auto simp: check_export_expiry_def window_ok_def chrono_add)

section \<open>Every operation keeps the account consistent\<close>

fun op_amount :: "'d decimal_api \<Rightarrow> 'd account_op \<Rightarrow> rat" where
  "op_amount D (Deposit u t x s) = dval D x"
| "op_amount D (Charge u t t2 x s) = dval D x"
| "op_amount D (Withdraw u t x s) = dval D x"
| "op_amount D _ = 0"

fun op_time_ok :: "'d account_op \<Rightarrow> bool" where
  "op_time_ok (Charge u t t2 x s) \<longleftrightarrow> \<bar>t2 + 48 * ns_per_hour\<bar> \<le> date_limit"
| "op_time_ok _ \<longleftrightarrow> True"

definition op_volume :: "'d decimal_api \<Rightarrow> 'd account_op \<Rightarrow> rat" where
  "op_volume D op = max 0 (op_amount D op)"

text \<open>A new balance that moves by a positive amount is exact within the volume bound.\<close>

lemma move_representable:
  assumes "on_grid s p" and "on_grid s q" and "s \<le> 28" and "\<bar>p\<bar> \<le> v" and "0 < q"
    and "(v + q) * 10 ^ s < 2 ^ 96"
  shows "representable (p + q)" and "representable (p - q)"
    and "\<bar>p + q\<bar> \<le> v + q" and "\<bar>p - q\<bar> \<le> v + q"
proof -
  show b: "\<bar>p + q\<bar> \<le> v + q" "\<bar>p - q\<bar> \<le> v + q" using assms(4,5) by linarith+
  have "\<bar>r\<bar> * 10 ^ s < 2 ^ 96" if "\<bar>r\<bar> \<le> v + q" for r
    by (rule le_less_trans [OF mult_right_mono [OF that] assms(6)]) simp
  with b assms(1-3) show "representable (p + q)" "representable (p - q)"
    by (auto intro!: on_grid_representable [of s] on_grid_add on_grid_diff)
qed

text \<open>The two ways a balance moves.\<close>

lemma account_ok_record:
  assumes ok: "account_ok D s a" and "0 < dval D x" and "on_grid s (dval D b)"
    and b: "dval D b = dval D (acc_balance a) + (case ty of TxDeposit \<Rightarrow> dval D x | TxWithdrawal \<Rightarrow> - dval D x
      | TxBillingCharge \<Rightarrow> - dval D x | _ \<Rightarrow> 0)"
    and "\<bar>dval D b\<bar> \<le> log_volume D (acc_transactions a) + dval D x"
  shows "account_ok D s (record_transaction u t ty x d (a\<lparr>acc_balance := b\<rparr>))"
  using assms log_ok_record [OF _ _ b] by (auto simp: account_ok_def)

lemma account_ok_manager:
  "account_ok D s a \<Longrightarrow> window_ok (a\<lparr>acc_freeze_manager := m\<rparr>) \<Longrightarrow> account_ok D s (a\<lparr>acc_freeze_manager := m\<rparr>)"
  by (simp add: account_ok_def)

lemma min_withdrawal_pos: "decimal_laws D \<Longrightarrow> dval D (MIN_WITHDRAWAL D) = 100"
  by (rule share_exact)

definition step_ok ::
  "'d decimal_api \<Rightarrow> nat \<Rightarrow> 'd account_op \<Rightarrow> 'd BillingAccount \<Rightarrow> 'd outcome \<Rightarrow> bool" where
  "step_ok D s op a r \<longleftrightarrow> snd r \<noteq> Inl Panic \<and> account_ok D s (fst r) \<and>
     log_volume D (acc_transactions (fst r)) \<le> log_volume D (acc_transactions a) + op_volume D op"

lemma step_ok_refused: "account_ok D s a \<Longrightarrow> e \<noteq> Inl Panic \<Longrightarrow> step_ok D s op a (a, e)"
  by (simp add: step_ok_def op_volume_def)

text \<open>Preconditions shared by the three operations that move money.\<close>

definition amount_ok :: "'d decimal_api \<Rightarrow> nat \<Rightarrow> 'd account_op \<Rightarrow> 'd BillingAccount \<Rightarrow> bool" where
  "amount_ok D s op a \<longleftrightarrow> on_grid s (op_amount D op) \<and> op_time_ok op \<and>
     (log_volume D (acc_transactions a) + op_volume D op) * 10 ^ s < 2 ^ 96"

lemma amount_move:
  assumes "decimal_laws D" and "s \<le> 28" and "account_ok D s a" and "amount_ok D s op a"
    and "op_amount D op = dval D x" and "0 < dval D x"
  obtains b c where
    "dadd D (acc_balance a) x = Some b" "dval D b = dval D (acc_balance a) + dval D x"
    "on_grid s (dval D b)" "\<bar>dval D b\<bar> \<le> log_volume D (acc_transactions a) + dval D x"
    "dsub D (acc_balance a) x = Some c" "dval D c = dval D (acc_balance a) - dval D x"
    "on_grid s (dval D c)" "\<bar>dval D c\<bar> \<le> log_volume D (acc_transactions a) + dval D x"
proof -
  from assms(3) have a: "on_grid s (dval D (acc_balance a))"
      "\<bar>dval D (acc_balance a)\<bar> \<le> log_volume D (acc_transactions a)"
    by (simp_all add: account_ok_def)
  from assms(4-6) have x: "on_grid s (dval D x)"
      "(log_volume D (acc_transactions a) + dval D x) * 10 ^ s < 2 ^ 96"
    by (simp_all add: amount_ok_def op_volume_def max_def)
  note m = move_representable [OF a(1) x(1) assms(2) a(2) assms(6) x(2)]
  from dadd_exact [OF assms(1) m(1)] dsub_exact [OF assms(1) m(2)] that m(3,4)
    on_grid_add [OF a(1) x(1)] on_grid_diff [OF a(1) x(1)]
  show thesis by metis
qed

lemma deposit_ok:
  assumes "decimal_laws D" and "s \<le> 28" and ok: "account_ok D s a" and "amount_ok D s (Deposit u t x d) a"
  shows "step_ok D s (Deposit u t x d) a (deposit D u t x d a)"
proof (cases "dval D x \<le> 0 \<or> freeze_state a = HardDeleted")
  case True
  with ok show ?thesis by (auto simp: deposit_def freeze_state_def intro!: step_ok_refused)
next
  case False
  with amount_move [OF assms, of x] obtain b where
    "dadd D (acc_balance a) x = Some b" "dval D b = dval D (acc_balance a) + dval D x"
    "on_grid s (dval D b)" "\<bar>dval D b\<bar> \<le> log_volume D (acc_transactions a) + dval D x"
    by auto
  with False ok show ?thesis
    by (auto simp: deposit_def freeze_state_def step_ok_def op_volume_def intro!: account_ok_record)
qed

lemma charge_ok:
  assumes "decimal_laws D" and "s \<le> 28" and ok: "account_ok D s a" and "amount_ok D s (Charge u t t2 x d) a"
  shows "step_ok D s (Charge u t t2 x d) a (charge D u t t2 x d a)"
proof (cases "dval D x \<le> 0")
  case True
  with ok show ?thesis by (auto simp: charge_def intro!: step_ok_refused)
next
  case False
  with amount_move [OF assms, of x] obtain b where
    b: "dsub D (acc_balance a) x = Some b" "dval D b = dval D (acc_balance a) - dval D x"
    "on_grid s (dval D b)" "\<bar>dval D b\<bar> \<le> log_volume D (acc_transactions a) + dval D x"
    by auto
  let ?a = "record_transaction u t TxBillingCharge x d (a\<lparr>acc_balance := b\<rparr>)"
  have rec: "account_ok D s ?a" using False ok b by (auto intro!: account_ok_record)
  have "\<bar>t2 + 48 * ns_per_hour\<bar> \<le> date_limit" using assms(4) by (simp add: amount_ok_def)
  with rec have "account_ok D s (?a\<lparr>acc_freeze_manager := trigger_freeze t2 (acc_freeze_manager ?a)\<rparr>)"
    by (intro account_ok_manager window_ok_trigger) (simp_all only: account_ok_def)
  with rec False b(1) show ?thesis
    by (simp add: charge_def step_ok_def op_volume_def Let_def)
qed

lemma withdrawal_ok:
  assumes "decimal_laws D" and "s \<le> 28" and ok: "account_ok D s a" and "amount_ok D s (Withdraw u t x d) a"
  shows "step_ok D s (Withdraw u t x d) a (request_withdrawal D u t x d a)"
proof (cases "dval D x < 100 \<or> dval D x > dval D (acc_balance a) \<or> freeze_state a \<noteq> Active")
  case True
  with ok show ?thesis
    by (auto simp: request_withdrawal_def freeze_state_def min_withdrawal_pos assms(1) intro!: step_ok_refused)
next
  case False
  then have x: "0 < dval D x" "op_amount D (Withdraw u t x d) = dval D x" by simp_all
  obtain b where
    b: "dsub D (acc_balance a) x = Some b" "dval D b = dval D (acc_balance a) - dval D x"
    "on_grid s (dval D b)" "\<bar>dval D b\<bar> \<le> log_volume D (acc_transactions a) + dval D x"
    by (rule amount_move [OF assms x(2,1)])
  then have "account_ok D s (record_transaction u t TxWithdrawal x d (a\<lparr>acc_balance := b\<rparr>))"
    by (intro account_ok_record ok x) simp_all
  with False b(1) show ?thesis
    by (simp add: request_withdrawal_def freeze_state_def step_ok_def op_volume_def min_withdrawal_pos
        assms(1))
qed

text \<open>One step of any kind, and a whole run.\<close>

lemma account_step_ok:
  assumes "decimal_laws D" and "chrono_laws C" and "s \<le> 28" and "account_ok D s a" and "amount_ok D s op a"
  shows "step_ok D s op a (account_apply D C op a)"
proof (cases op)
  case (CheckExpiry t)
  from assms(4) have "window_ok a" by (simp add: account_ok_def)
  from window_ok_check [OF assms(2) this, of t] obtain m b where
    m: "check_export_expiry C t (acc_freeze_manager a) = Inr (m, b)" "window_ok (a\<lparr>acc_freeze_manager := m\<rparr>)"
    by blast
  with account_ok_manager [OF assms(4) m(2)] show ?thesis
    by (simp add: CheckExpiry step_ok_def op_volume_def)
next
  case UnfreezeAccount
  from assms(4) have "window_ok a" by (simp add: account_ok_def)
  from account_ok_manager [OF assms(4) window_ok_unfreeze [OF this]] show ?thesis
    by (simp add: UnfreezeAccount step_ok_def op_volume_def)
qed (use assms deposit_ok charge_ok withdrawal_ok in simp_all)

definition run_ok :: "'d decimal_api \<Rightarrow> nat \<Rightarrow> 'd account_op list \<Rightarrow> 'd BillingAccount \<Rightarrow> bool" where
  "run_ok D s ops a \<longleftrightarrow> (\<forall>op \<in> set ops. on_grid s (op_amount D op) \<and> op_time_ok op) \<and>
     (log_volume D (acc_transactions a) + sum_list (map (op_volume D) ops)) * 10 ^ s < 2 ^ 96"

lemma op_volume_nonneg: "0 \<le> op_volume D op"
  by (simp add: op_volume_def)

lemma ops_volume_nonneg: "0 \<le> sum_list (map (op_volume D) ops)"
  by (induction ops) (simp_all add: op_volume_nonneg)

lemma run_ok_step:
  assumes "run_ok D s (op # ops) a"
  shows "amount_ok D s op a"
    and "log_volume D (acc_transactions a') \<le> log_volume D (acc_transactions a) + op_volume D op \<Longrightarrow>
      run_ok D s ops a'"
proof -
  let ?v = "log_volume D (acc_transactions a) + op_volume D op"
  let ?w = "sum_list (map (op_volume D) ops)"
  from assms have lim: "(?v + ?w) * 10 ^ s < 2 ^ 96" by (simp add: run_ok_def add.assoc)
  have "?v * 10 ^ s < 2 ^ 96"
    by (rule le_less_trans [OF mult_right_mono lim]) (simp_all add: ops_volume_nonneg)
  with assms show "amount_ok D s op a" by (simp add: run_ok_def amount_ok_def)
  assume "log_volume D (acc_transactions a') \<le> ?v"
  then have "(log_volume D (acc_transactions a') + ?w) * 10 ^ s < 2 ^ 96"
    by (intro le_less_trans [OF mult_right_mono lim]) simp_all
  with assms show "run_ok D s ops a'" by (simp add: run_ok_def)
qed

lemma account_run_Cons:
  "snd (account_apply D C op a) \<noteq> Inl Panic \<Longrightarrow>
    account_run D C (op # ops) a = account_run D C ops (fst (account_apply D C op a))"
  by (auto split: prod.splits sum.splits rust_error.splits)

lemma account_run_ok:
  assumes "decimal_laws D" and "chrono_laws C" and "s \<le> 28" and "account_ok D s a" and "run_ok D s ops a"
  shows "\<exists>a'. account_run D C ops a = Inr a' \<and> account_ok D s a'"
  using assms(4,5)
proof (induction ops arbitrary: a)
  case (Cons op ops)
  let ?r = "account_apply D C op a"
  from account_step_ok [OF assms(1-3) Cons.prems(1) run_ok_step(1) [OF Cons.prems(2)]]
  have r: "snd ?r \<noteq> Inl Panic" "account_ok D s (fst ?r)"
    "log_volume D (acc_transactions (fst ?r)) \<le> log_volume D (acc_transactions a) + op_volume D op"
    unfolding step_ok_def by blast+
  from Cons.IH [OF r(2) run_ok_step(2) [OF Cons.prems(2) r(3)]] show ?case
    by (simp only: account_run_Cons [OF r(1)])
qed simp

text \<open>A new account, with or without an initial deposit, is consistent.\<close>

lemma new_account_ok:
  assumes "decimal_laws D" and "chrono_laws C" and "s \<le> 28" and "on_grid s (dval D x)"
    and "max 0 (dval D x) * 10 ^ s < 2 ^ 96"
  shows "\<exists>a. BillingAccount_new D C u v t x = Inr a \<and> account_ok D s a \<and>
    log_volume D (acc_transactions a) = max 0 (dval D x) \<and> freeze_state a = Active \<and>
    0 \<le> dval D (acc_balance a)"
proof -
  from FreezeManager_new_inv [OF assms(2)] obtain m where
    m: "FreezeManager_new C = Inr m" "fm_inv (48 * ns_per_hour) m" "fm_state m = Active" by blast
  let ?a = "\<lparr>acc_id = AccountId_new u, acc_balance = dlit D 0, acc_transactions = [], acc_freeze_manager = m\<rparr>"
  have a: "account_ok D s ?a"
    using m assms(1) by (simp add: account_ok_def log_ok_def window_ok_def fm_inv_def)
  have act: "freeze_state ?a = Active" using m(3) by (simp add: freeze_state_def FreezeManager_state_def)
  show ?thesis
  proof (cases "0 < dval D x")
    case True
    then have "amount_ok D s (Deposit v t x ''Initial deposit'') ?a"
      using assms(4,5) by (simp add: amount_ok_def op_volume_def)
    from amount_move [OF assms(1,3) a this] True obtain b where
      b: "dadd D (dlit D 0) x = Some b" "dval D b = dval D x" "on_grid s (dval D b)"
      using assms(1) by auto
    have "account_ok D s (record_transaction v t TxDeposit x ''Initial deposit'' (?a\<lparr>acc_balance := b\<rparr>))"
      using b True assms(1) by (intro account_ok_record a) simp_all
    with b(1,2) True m(1) act assms(1) show ?thesis
      by (simp add: BillingAccount_new_def deposit_def Let_def freeze_state_def)
  next
    case False
    with a act m(1) assms(1) show ?thesis by (simp add: BillingAccount_new_def Let_def)
  qed
qed

section \<open>The freeze state of an account\<close>

lemma account_apply_state:
  assumes "op \<noteq> UnfreezeAccount" and "freeze_state a \<noteq> Active"
  shows "freeze_state (fst (account_apply D C op a)) \<noteq> Active"
proof (cases op)
  case (CheckExpiry t)
  with assms(2) show ?thesis
    by (auto simp: freeze_state_def FreezeManager_state_def check_export_expiry_def try_then_def
        split: option.splits sum.splits if_splits)
qed (use assms fz.trigger_not_active in
    \<open>auto simp: deposit_def charge_def request_withdrawal_def freeze_state_def Let_def split: option.splits\<close>)

definition solvent :: "'d decimal_api \<Rightarrow> 'd BillingAccount \<Rightarrow> bool" where
  "solvent D a \<longleftrightarrow> (freeze_state a = Active \<longrightarrow> 0 \<le> dval D (acc_balance a))"

lemma charge_solvent:
  "charge D u t t2 x d a = (a', Inr ()) \<Longrightarrow> freeze_state a' = Active \<Longrightarrow> 0 < dval D (acc_balance a')"
  using fz.trigger_not_active
  by (auto simp: charge_def freeze_state_def Let_def split: if_splits option.splits)

lemma refused_unchanged:
  "snd (charge D u t t2 x d a) \<noteq> Inr () \<Longrightarrow> fst (charge D u t t2 x d a) = a"
  "snd (deposit D u t x d a) \<noteq> Inr () \<Longrightarrow> fst (deposit D u t x d a) = a"
  "snd (request_withdrawal D u t x d a) \<noteq> Inr () \<Longrightarrow> fst (request_withdrawal D u t x d a) = a"
  by (auto simp: charge_def deposit_def request_withdrawal_def Let_def split: option.splits)

lemma solvent_step:
  assumes "decimal_laws D" and "s \<le> 28" and ok: "account_ok D s a" and am: "amount_ok D s op a"
    and "op \<noteq> UnfreezeAccount" and "solvent D a"
  shows "solvent D (fst (account_apply D C op a))"
proof (cases op)
  case (Charge u t t2 x d)
  show ?thesis
  proof (cases "snd (charge D u t t2 x d a) = Inr ()")
    case True
    with charge_solvent [of D u t t2 x d a] show ?thesis
      unfolding Charge solvent_def by (cases "charge D u t t2 x d a") fastforce
  next
    case False
    from refused_unchanged(1) [OF this] show ?thesis using assms(6) by (simp add: Charge)
  qed
next
  case (Deposit u t x d)
  show ?thesis
  proof (cases "0 < dval D x")
    case True
    with Deposit amount_move [OF assms(1,2) ok am, of x] obtain b where
      "dadd D (acc_balance a) x = Some b" "dval D b = dval D (acc_balance a) + dval D x" by auto
    with True assms(6) show ?thesis by (simp add: Deposit deposit_def solvent_def freeze_state_def)
  next
    case False
    then show ?thesis using assms(6) by (simp add: Deposit deposit_def)
  qed
next
  case (Withdraw u t x d)
  show ?thesis
  proof (cases "100 \<le> dval D x \<and> dval D x \<le> dval D (acc_balance a)")
    case True
    then have x: "op_amount D op = dval D x" "0 < dval D x" using Withdraw by simp_all
    obtain b where "dsub D (acc_balance a) x = Some b" "dval D b = dval D (acc_balance a) - dval D x"
      by (rule amount_move [OF assms(1,2) ok am x])
    with True assms(6) show ?thesis
      by (simp add: Withdraw request_withdrawal_def solvent_def freeze_state_def)
  next
    case False
    with assms(6) show ?thesis
      by (auto simp: Withdraw request_withdrawal_def min_withdrawal_pos assms(1))
  qed
next
  case (CheckExpiry t)
  with assms(6) show ?thesis
    by (auto simp: solvent_def freeze_state_def FreezeManager_state_def check_export_expiry_def try_then_def
        split: option.splits sum.splits if_splits)
qed (use assms in simp)

lemma solvent_run:
  assumes "decimal_laws D" and "chrono_laws C" and "s \<le> 28" and "account_ok D s a" and "run_ok D s ops a"
    and "UnfreezeAccount \<notin> set ops" and "solvent D a"
  shows "\<exists>a'. account_run D C ops a = Inr a' \<and> solvent D a'"
  using assms(4-7)
proof (induction ops arbitrary: a)
  case (Cons op ops)
  let ?r = "account_apply D C op a"
  note am = run_ok_step(1) [OF Cons.prems(2)]
  from account_step_ok [OF assms(1-3) Cons.prems(1) am]
  have r: "snd ?r \<noteq> Inl Panic" "account_ok D s (fst ?r)"
    "log_volume D (acc_transactions (fst ?r)) \<le> log_volume D (acc_transactions a) + op_volume D op"
    unfolding step_ok_def by blast+
  from Cons.prems(3) have op: "op \<noteq> UnfreezeAccount" "UnfreezeAccount \<notin> set ops" by auto
  from Cons.IH [OF r(2) run_ok_step(2) [OF Cons.prems(2) r(3)] op(2)
      solvent_step [OF assms(1,3) Cons.prems(1) am op(1) Cons.prems(4)]]
  show ?case by (simp only: account_run_Cons [OF r(1)])
qed simp

section \<open>Properties\<close>

text \<open>
  C16: the transaction log accounts for the balance.  Take amounts with at most \<open>s\<close> decimal
  places whose total, with the initial deposit, stays below the decimal type's 96 bits, and
  any sequence of operations on a new account, refused ones included.  Nothing panics; the
  balance is the sum of the deposits minus the charges and withdrawals in the log; each entry
  records the balance after it; and every logged amount is positive and under the account's id.
\<close>

theorem account_ledger:
  assumes "decimal_laws D" and "chrono_laws C" and "s \<le> 28" and "on_grid s (dval D x)"
    and "\<forall>op \<in> set ops. on_grid s (op_amount D op) \<and> op_time_ok op"
    and "(max 0 (dval D x) + sum_list (map (op_volume D) ops)) * 10 ^ s < 2 ^ 96"
  shows "\<exists>a0 a. BillingAccount_new D C u v t x = Inr a0 \<and> account_run D C ops a0 = Inr a \<and> log_ok D a"
proof -
  have "max 0 (dval D x) * 10 ^ s < 2 ^ 96"
    by (rule le_less_trans [OF mult_right_mono assms(6)]) (simp_all add: ops_volume_nonneg)
  from new_account_ok [OF assms(1-4) this] obtain a0 where
    a0: "BillingAccount_new D C u v t x = Inr a0" "account_ok D s a0"
      "log_volume D (acc_transactions a0) = max 0 (dval D x)" by blast
  have "run_ok D s ops a0" using assms(5,6) a0(3) by (simp add: run_ok_def)
  from account_run_ok [OF assms(1-3) a0(2) this] a0(1) show ?thesis
    by (auto simp: account_ok_def)
qed

lemma quarter_on_grid: "on_grid 2 (1 / 4)" "on_grid 2 100" "on_grid 2 500"
proof -
  have "(1 / 4 :: rat) * 10 ^ 2 = of_int 25" "(100 :: rat) * 10 ^ 2 = of_int 10000"
    "(500 :: rat) * 10 ^ 2 = of_int 50000" by simp_all
  then show "on_grid 2 (1 / 4)" "on_grid 2 100" "on_grid 2 500" unfolding on_grid_def by blast+
qed

theorem account_ledger_witness:
  "\<exists>a0 a. BillingAccount_new sample_decimal sample_chrono ''a'' ''d'' 0 500 = Inr a0 \<and>
     account_run sample_decimal sample_chrono
       [Charge ''c'' 1 2 (1 / 4) ''hour'', Withdraw ''w'' 2 100 ''payout''] a0 = Inr a \<and>
     log_ok sample_decimal a"
  by (rule account_ledger [OF sample_decimal_laws sample_chrono_laws, of 2])
    (simp_all add: quarter_on_grid op_volume_def ns_per_hour_def ns_per_s_def date_limit_def)

text \<open>
  C17: an active account is never in debt.  In any run as in C16 that does not lift a freeze by
  hand, an active account has a balance of at least zero; a charge that leaves zero or less
  leaves the account frozen or deleted, so a charged account that is still active has money.
\<close>

theorem account_solvent:
  assumes "decimal_laws D" and "chrono_laws C" and "s \<le> 28" and "on_grid s (dval D x)"
    and "\<forall>op \<in> set ops. on_grid s (op_amount D op) \<and> op_time_ok op" and "UnfreezeAccount \<notin> set ops"
    and "(max 0 (dval D x) + sum_list (map (op_volume D) ops)) * 10 ^ s < 2 ^ 96"
  shows "\<exists>a0 a. BillingAccount_new D C u v t x = Inr a0 \<and> account_run D C ops a0 = Inr a \<and>
    (freeze_state a = Active \<longrightarrow> 0 \<le> dval D (acc_balance a)) \<and>
    (\<forall>u t t2 y d a'. charge D u t t2 y d a = (a', Inr ()) \<and> freeze_state a' = Active \<longrightarrow>
       0 < dval D (acc_balance a'))"
proof -
  have "max 0 (dval D x) * 10 ^ s < 2 ^ 96"
    by (rule le_less_trans [OF mult_right_mono assms(7)]) (simp_all add: ops_volume_nonneg)
  from new_account_ok [OF assms(1-4) this] obtain a0 where
    a0: "BillingAccount_new D C u v t x = Inr a0" "account_ok D s a0"
      "log_volume D (acc_transactions a0) = max 0 (dval D x)" "0 \<le> dval D (acc_balance a0)" by blast
  have run: "run_ok D s ops a0" using assms(5,7) a0(3) by (simp add: run_ok_def)
  from a0(4) have "solvent D a0" by (simp add: solvent_def)
  from solvent_run [OF assms(1-3) a0(2) run assms(6) this] obtain a where
    "account_run D C ops a0 = Inr a" "freeze_state a = Active \<longrightarrow> 0 \<le> dval D (acc_balance a)"
    unfolding solvent_def by blast
  moreover have "\<forall>u t t2 y d a'. charge D u t t2 y d a = (a', Inr ()) \<and> freeze_state a' = Active \<longrightarrow>
      0 < dval D (acc_balance a')"
    by (intro allI impI, elim conjE, rule charge_solvent)
  ultimately show ?thesis using a0(1) by blast
qed

theorem account_solvent_witness:
  "\<exists>a0 a. BillingAccount_new sample_decimal sample_chrono ''a'' ''d'' 0 500 = Inr a0 \<and>
     account_run sample_decimal sample_chrono [Charge ''c'' 1 2 500 ''hour''] a0 = Inr a \<and>
     (freeze_state a = Active \<longrightarrow> 0 \<le> acc_balance a)"
proof -
  have "\<forall>op \<in> set [Charge ''c'' 1 2 500 ''hour'']. on_grid 2 (op_amount sample_decimal op) \<and> op_time_ok op"
    by (simp add: quarter_on_grid ns_per_hour_def ns_per_s_def date_limit_def)
  then show ?thesis
    using account_solvent [OF sample_decimal_laws sample_chrono_laws, of 2 500
        "[Charge ''c'' 1 2 500 ''hour'']" "''a''" "''d''" 0]
    by (auto simp: quarter_on_grid op_volume_def)
qed

text \<open>
  C18: withdrawals.  With enough precision for the difference, a withdrawal succeeds exactly
  for an active account, an amount of at least 100, and no more than the balance; it then
  leaves the exact difference, at least zero, and does not touch the freeze state.  Otherwise
  the account is unchanged and the error is the first guard that fails.  Withdrawing all of
  the balance is allowed and leaves an active account that may not store.
\<close>

theorem withdrawal_spec:
  assumes "decimal_laws D" and "representable (dval D (acc_balance a) - dval D x)"
  shows "\<exists>a' r. request_withdrawal D u t x d a = (a', r) \<and>
    (r = Inr () \<longleftrightarrow> 100 \<le> dval D x \<and> dval D x \<le> dval D (acc_balance a) \<and> freeze_state a = Active) \<and>
    (r = Inr () \<longrightarrow> dval D (acc_balance a') = dval D (acc_balance a) - dval D x \<and>
       0 \<le> dval D (acc_balance a') \<and> acc_freeze_manager a' = acc_freeze_manager a \<and>
       length (acc_transactions a') = Suc (length (acc_transactions a)) \<and>
       (dval D x = dval D (acc_balance a) \<longrightarrow> freeze_state a' = Active \<and> \<not> can_store D a')) \<and>
    (r \<noteq> Inr () \<longrightarrow> a' = a \<and>
       r = Inl (Err (if dval D x < 100 then ''Minimum withdrawal''
                     else if dval D x > dval D (acc_balance a) then ''Insufficient balance''
                     else ''Account is frozen or deleted, cannot withdraw'')))"
proof -
  obtain b where b: "dsub D (acc_balance a) x = Some b" "dval D b = dval D (acc_balance a) - dval D x"
    by (rule dsub_exact [OF assms])
  let ?ok = "100 \<le> dval D x \<and> dval D x \<le> dval D (acc_balance a) \<and> freeze_state a = Active"
  let ?a = "record_transaction u t TxWithdrawal x d (a\<lparr>acc_balance := b\<rparr>)"
  show ?thesis
  proof (cases ?ok)
    case True
    then have w: "request_withdrawal D u t x d a = (?a, Inr ())"
      using b(1) assms(1) by (simp add: request_withdrawal_def min_withdrawal_pos freeze_state_def)
    have "length (acc_transactions ?a) = Suc (length (acc_transactions a))"
      by (simp add: record_transaction_def)
    with True b(2) show ?thesis
      unfolding w by (intro exI conjI) (auto simp: freeze_state_def can_store_def)
  next
    case False
    then show ?thesis
      using assms(1) by (auto simp: request_withdrawal_def min_withdrawal_pos freeze_state_def)
  qed
qed

definition sample_account :: "rat BillingAccount" where
  "sample_account = \<lparr>acc_id = AccountId ''a'', acc_balance = 100, acc_transactions = [],
     acc_freeze_manager = frozen_sample\<rparr>"

theorem withdrawal_spec_witness:
  "\<exists>a'. request_withdrawal sample_decimal ''w'' 1 100 ''all'' sample_account = (a', Inr ()) \<and>
     acc_balance a' = 0 \<and> freeze_state a' = Active \<and> \<not> can_store sample_decimal a'"
  using withdrawal_spec [OF sample_decimal_laws, of sample_account 100 "''w''" 1 "''all''"]
  by (auto simp: sample_account_def freeze_state_def FreezeManager_state_def frozen_sample_def)

text \<open>
  C19: money does not lift a freeze.  Once an account is frozen or deleted, no sequence of
  deposits, charges, withdrawals and expiry checks makes it active again: however large its
  balance, it may not store, and every withdrawal of an affordable amount is refused.
\<close>

theorem deposits_never_unfreeze:
  assumes "freeze_state a \<noteq> Active" and "UnfreezeAccount \<notin> set ops"
    and "account_run D C ops a = Inr a'"
  shows "freeze_state a' \<noteq> Active \<and> \<not> can_store D a' \<and>
    (\<forall>u t x d. dval D (MIN_WITHDRAWAL D) \<le> dval D x \<and> dval D x \<le> dval D (acc_balance a') \<longrightarrow>
       request_withdrawal D u t x d a' = (a', Inl (Err ''Account is frozen or deleted, cannot withdraw'')))"
proof -
  have "freeze_state a' \<noteq> Active"
    using assms
  proof (induction ops arbitrary: a)
    case (Cons op ops)
    let ?r = "account_apply D C op a"
    from Cons.prems have op: "op \<noteq> UnfreezeAccount" "UnfreezeAccount \<notin> set ops" by auto
    from Cons.prems(3) have "account_run D C ops (fst ?r) = Inr a'"
      by (auto split: prod.splits sum.splits rust_error.splits)
    with Cons.IH [OF account_apply_state [OF op(1) Cons.prems(1)] op(2)] show ?case by blast
  qed simp
  then show ?thesis
    by (auto simp: can_store_def freeze_state_def request_withdrawal_def)
qed

theorem deposits_never_unfreeze_witness:
  "\<exists>a'. account_run sample_decimal sample_chrono [Deposit ''d'' 1 1000 ''top up'']
     (sample_account\<lparr>acc_balance := -5, acc_freeze_manager := trigger_freeze 0 frozen_sample\<rparr>) = Inr a' \<and>
     acc_balance a' = round28 (-5 + 1000) \<and> \<not> can_store sample_decimal a'"
proof -
  let ?a = "sample_account\<lparr>acc_balance := -5, acc_freeze_manager := trigger_freeze 0 frozen_sample\<rparr>"
  let ?ops = "[Deposit ''d'' 1 1000 ''top up'']"
  have a: "freeze_state ?a = FrozenExport"
    by (simp add: freeze_state_def FreezeManager_state_def trigger_freeze_def frozen_sample_def)
  then have "account_run sample_decimal sample_chrono ?ops ?a =
      Inr (record_transaction ''d'' 1 TxDeposit 1000 ''top up'' (?a\<lparr>acc_balance := round28 (-5 + 1000)\<rparr>))"
    by (simp add: deposit_def freeze_state_def)
  moreover from deposits_never_unfreeze [OF _ _ this] a
  have "\<not> can_store sample_decimal
    (record_transaction ''d'' 1 TxDeposit 1000 ''top up'' (?a\<lparr>acc_balance := round28 (-5 + 1000)\<rparr>))" by simp
  ultimately show ?thesis by simp
qed

end
