(* ===== verification/Subscription.thy ===== *)
theory Subscription
  imports Billing Clock
begin

text \<open>
  billing/src/subscription.rs: the tiers, the subscription state and the change of tier with a
  pro-rata amount.  \<open>D\<close> is the decimal crate, \<open>C\<close> the chrono crate, \<open>now\<close> the clock.  The
  clock is read once for each occurrence of \<open>Utc::now()\<close> in the source.
\<close>

section \<open>Tiers\<close>

datatype SubscriptionTier = Archive | Standard | Premium

fun tier_name :: "SubscriptionTier \<Rightarrow> string" where
  "tier_name Archive = ''archive''"
| "tier_name Standard = ''standard''"
| "tier_name Premium = ''premium''"

fun price_monthly :: "'d decimal_api \<Rightarrow> SubscriptionTier \<Rightarrow> 'd" where
  "price_monthly D Archive = dlit D (0 / 100)"
| "price_monthly D Standard = dlit D (19900 / 100)"
| "price_monthly D Premium = dlit D (49900 / 100)"

fun tier_weight :: "SubscriptionTier \<Rightarrow> u8" where
  "tier_weight Archive = 1"
| "tier_weight Standard = 2"
| "tier_weight Premium = 3"

fun upload_rate_limit :: "SubscriptionTier \<Rightarrow> u32" where
  "upload_rate_limit Archive = 10"
| "upload_rate_limit Standard = 50"
| "upload_rate_limit Premium = 0"

fun download_rate_limit :: "SubscriptionTier \<Rightarrow> u32" where
  "download_rate_limit Archive = 20"
| "download_rate_limit Standard = 100"
| "download_rate_limit Premium = 0"

fun sla_uptime :: "'d decimal_api \<Rightarrow> SubscriptionTier \<Rightarrow> 'd" where
  "sla_uptime D Archive = dlit D (990 / 10)"
| "sla_uptime D Standard = dlit D (999 / 10)"
| "sla_uptime D Premium = dlit D (9999 / 100)"

fun max_replication_threads :: "SubscriptionTier \<Rightarrow> u32" where
  "max_replication_threads Archive = 1"
| "max_replication_threads Standard = 3"
| "max_replication_threads Premium = 8"

definition tier_from_name :: "string \<Rightarrow> SubscriptionTier" where
  "tier_from_name name =
     (if name = ''standard'' then Standard else if name = ''premium'' then Premium else Archive)"

section \<open>State and manager\<close>

record SubscriptionState =
  sub_tier :: SubscriptionTier
  sub_started_at :: int
  sub_paid_until :: int
  sub_auto_renew :: bool

definition sub_is_active :: "int \<Rightarrow> SubscriptionState \<Rightarrow> bool" where
  "sub_is_active now s \<longleftrightarrow> now < sub_paid_until s"

definition days_remaining :: "chrono_api \<Rightarrow> int \<Rightarrow> SubscriptionState \<Rightarrow> int" where
  "days_remaining C now s = max (c_num_days C (sub_paid_until s - now)) 0"

record SubscriptionManager =
  sm_current :: SubscriptionState

definition SubscriptionManager_new :: "int \<Rightarrow> SubscriptionManager" where
  "SubscriptionManager_new now =
     \<lparr>sm_current = \<lparr>sub_tier = Archive, sub_started_at = now, sub_paid_until = now, sub_auto_renew = False\<rparr>\<rparr>"

definition SubscriptionManager_default :: "int \<Rightarrow> SubscriptionManager" where
  "SubscriptionManager_default now = SubscriptionManager_new now"

definition subscribe ::
  "chrono_api \<Rightarrow> int \<Rightarrow> SubscriptionTier \<Rightarrow> SubscriptionManager \<Rightarrow> (SubscriptionManager \<times> unit) result" where
  "subscribe C now tier m =
     try_then (or_panic (c_days C 30)) (\<lambda>d. try_then (or_panic (c_add C now d)) (\<lambda>paid_until.
       Inr (m\<lparr>sm_current := \<lparr>sub_tier = tier, sub_started_at = now, sub_paid_until = paid_until,
                            sub_auto_renew = True\<rparr>\<rparr>, ())))"

text \<open>
  \<open>30 - remaining_days\<close> is an unused 32-bit subtraction; in the release profile it wraps, so it
  has no effect.  The cast of the days to \<open>u32\<close> keeps the low 32 bits.
\<close>

definition change_tier ::
  "'d decimal_api \<Rightarrow> chrono_api \<Rightarrow> int \<Rightarrow> int \<Rightarrow> SubscriptionTier \<Rightarrow> SubscriptionManager \<Rightarrow>
   (SubscriptionManager \<times> 'd) result" where
  "change_tier D C now1 now2 new_tier m =
     (let old_tier = sub_tier (sm_current m) in
      if old_tier = new_tier then Inl (Err (''Already on '' @ tier_name new_tier @ '' tier''))
      else
        let remaining_days = (word_of_int (days_remaining C now1 (sm_current m)) :: u32);
            days = dlit D (of_nat (unat remaining_days))
        in try_then (or_panic (ddiv D (price_monthly D old_tier) (dlit D 30))) (\<lambda>old_daily.
           try_then (or_panic (dmul D old_daily days)) (\<lambda>refund.
           try_then (or_panic (ddiv D (price_monthly D new_tier) (dlit D 30))) (\<lambda>new_daily.
           try_then (or_panic (dmul D new_daily days)) (\<lambda>charge.
           try_then (or_panic (dsub D charge refund)) (\<lambda>net_amount.
           try_then (or_panic (c_days C (int (unat remaining_days)))) (\<lambda>d.
           try_then (or_panic (c_add C now2 d)) (\<lambda>paid_until.
             Inr (m\<lparr>sm_current := \<lparr>sub_tier = new_tier, sub_started_at = sub_started_at (sm_current m),
                      sub_paid_until = paid_until, sub_auto_renew = True\<rparr>\<rparr>, net_amount)))))))))"

definition current_tier :: "SubscriptionManager \<Rightarrow> SubscriptionTier" where
  "current_tier m = sub_tier (sm_current m)"

definition sm_is_active :: "int \<Rightarrow> SubscriptionManager \<Rightarrow> bool" where
  "sm_is_active now m = sub_is_active now (sm_current m)"

section \<open>Facts\<close>

lemma tier_from_name_name: "tier_from_name (tier_name t) = t"
  by (cases t) (simp_all add: tier_from_name_def)

definition tier_price :: "SubscriptionTier \<Rightarrow> rat" where
  "tier_price t = (case t of Archive \<Rightarrow> 0 | Standard \<Rightarrow> 199 | Premium \<Rightarrow> 499)"

lemma price_exact: "decimal_laws D \<Longrightarrow> dval D (price_monthly D t) = tier_price t"
  using representable_int [of 199] representable_int [of 499]
  by (cases t) (simp_all add: tier_price_def dlit_exact)

lemma days_remaining_div:
  "chrono_laws C \<Longrightarrow> days_remaining C now s = max 0 (sub_paid_until s - now) div ns_per_day"
  by (simp add: days_remaining_def chrono_num_days max.commute [of _ 0] trunc_div_max0)

lemma days_remaining_nonneg: "0 \<le> days_remaining C now s"
  by (simp add: days_remaining_def)

lemma unat_days:
  assumes "0 \<le> k" and "k < 2 ^ 32"
  shows "uint (word_of_int k :: u32) = k"
  using assms by (simp add: unsigned_of_int take_bit_int_eq_self)

lemma whole_days_bounds:
  fixes x :: int
  assumes "0 \<le> x"
  shows "x div ns_per_day * ns_per_day \<le> x" and "x < x div ns_per_day * ns_per_day + ns_per_day"
  using div_mult_mod_eq [of x ns_per_day] pos_mod_bound [of ns_per_day x] pos_mod_sign [of ns_per_day x]
    time_units_pos(3) by linarith+

text \<open>The state after a change of tier, whatever the amounts are.\<close>

lemma change_tier_state:
  assumes "change_tier D C now1 now2 t m = Inr (m', net)" and "chrono_laws C"
    and "days_remaining C now1 (sm_current m) < 2 ^ 32"
    and "\<bar>now2 + days_remaining C now1 (sm_current m) * ns_per_day\<bar> \<le> date_limit"
  shows "sm_current m' = \<lparr>sub_tier = t, sub_started_at = sub_started_at (sm_current m),
    sub_paid_until = now2 + days_remaining C now1 (sm_current m) * ns_per_day, sub_auto_renew = True\<rparr>"
proof -
  let ?k = "days_remaining C now1 (sm_current m)"
  have k: "uint (word_of_int ?k :: u32) = ?k"
    by (rule unat_days [OF days_remaining_nonneg assms(3)])
  have "c_days C ?k = Some (?k * ns_per_day)"
    using assms(2,3) days_remaining_nonneg [of C now1 "sm_current m"] by (simp add: chrono_days)
  with assms(1,2,4) show ?thesis
    by (auto simp: change_tier_def Let_def k chrono_add result_simps split: if_splits)
qed

section \<open>Properties\<close>

text \<open>
  C20: the end of a subscription after a change of tier.  The code reads the clock twice, for
  the days that are left (\<open>now1\<close>) and for the new end (\<open>now2\<close>); nothing is assumed of the order
  of the readings.  With fewer than \<open>2 ^ 32\<close> days left, a successful change keeps the start,
  turns the renewal on, and sets the end to \<open>now2\<close> and the whole days that were left at \<open>now1\<close>:
  the number of whole days left is kept from one reading to the other.  While the
  subscription is paid, the fraction of a day is lost and the time between the readings gained,
  so the end moves later exactly if that time is longer than the fraction, and never by more
  than that time; less than a day is lost in all.  The end of an expired subscription
  becomes \<open>now2\<close>.
\<close>

theorem change_tier_days:
  assumes "chrono_laws C" and "change_tier D C now1 now2 t m = Inr (m', net)"
    and "sub_paid_until (sm_current m) - now1 < 2 ^ 32 * ns_per_day"
    and "\<bar>now2\<bar> \<le> date_limit" and "sub_paid_until (sm_current m) + (now2 - now1) \<le> date_limit"
  shows "current_tier m' = t \<and> t \<noteq> current_tier m \<and>
    sub_started_at (sm_current m') = sub_started_at (sm_current m) \<and> sub_auto_renew (sm_current m') \<and>
    days_remaining C now2 (sm_current m') = days_remaining C now1 (sm_current m) \<and>
    (let paid = sub_paid_until (sm_current m); paid' = sub_paid_until (sm_current m') in
      paid' = now2 + days_remaining C now1 (sm_current m) * ns_per_day \<and>
      (if now1 \<le> paid
       then paid' \<le> paid + (now2 - now1) \<and> paid + (now2 - now1) < paid' + ns_per_day \<and>
         (paid < paid' \<longleftrightarrow> (paid - now1) mod ns_per_day < now2 - now1)
       else paid' = now2))"
proof -
  let ?paid = "sub_paid_until (sm_current m)" and ?k = "days_remaining C now1 (sm_current m)"
  have k: "?k = max 0 (?paid - now1) div ns_per_day" by (rule days_remaining_div [OF assms(1)])
  note b = whole_days_bounds [OF max.cobounded1 [of 0 "?paid - now1"], folded k]
  have k0: "0 \<le> ?k * ns_per_day"
    by (rule mult_nonneg_nonneg [OF days_remaining_nonneg]) (simp add: less_imp_le)
  have "max 0 (?paid - now1) < 2 ^ 32 * ns_per_day" using assms(3) by simp
  with b(1) have "?k * ns_per_day < 2 ^ 32 * ns_per_day" by (rule le_less_trans)
  then have klt: "?k < 2 ^ 32" by simp
  have "\<bar>now2 + ?k * ns_per_day\<bar> \<le> date_limit"
    using b(1) k0 assms(4,5) by linarith
  note st = change_tier_state [OF assms(2,1) klt this]
  have tier: "t \<noteq> current_tier m"
    using assms(2) by (auto simp: change_tier_def current_tier_def)
  have days: "days_remaining C now2 (sm_current m') = ?k"
    using k0 by (simp add: days_remaining_div assms(1) st k)
  have expired: "?k = 0" if "\<not> now1 \<le> ?paid"
    using that by (simp add: k max_def)
  have split: "?k * ns_per_day + (?paid - now1) mod ns_per_day = ?paid - now1" if "now1 \<le> ?paid"
    using that by (simp add: k max_def)
  from st days tier expired split b show ?thesis
    by (auto simp: Let_def current_tier_def max_def)
qed

text \<open>Two samples: a moment less than thirty days left, and five days to the nanosecond.\<close>

definition sample_manager :: "int \<Rightarrow> SubscriptionManager" where
  "sample_manager paid = \<lparr>sm_current = \<lparr>sub_tier = Archive, sub_started_at = 0,
     sub_paid_until = paid, sub_auto_renew = True\<rparr>\<rparr>"

lemma sample_change:
  obtains m' net where "change_tier sample_decimal sample_chrono now1 now2 Standard (sample_manager paid) = Inr (m', net)"
  by (simp add: change_tier_def Let_def sample_decimal_def sample_chrono_def sample_manager_def)

theorem change_tier_days_witness:
  "(\<exists>m' net. change_tier sample_decimal sample_chrono 0 0 Standard (sample_manager (30 * ns_per_day - 1)) = Inr (m', net) \<and>
     sub_paid_until (sm_current m') = 29 * ns_per_day) \<and>
   (\<exists>m' net. change_tier sample_decimal sample_chrono 0 7 Standard (sample_manager (5 * ns_per_day)) = Inr (m', net) \<and>
     5 * ns_per_day < sub_paid_until (sm_current m'))"
proof
  note units = ns_per_day_def ns_per_hour_def ns_per_s_def date_limit_def
  obtain m' net where c: "change_tier sample_decimal sample_chrono 0 0 Standard (sample_manager (30 * ns_per_day - 1)) = Inr (m', net)"
    by (rule sample_change)
  have "days_remaining sample_chrono 0 (sm_current (sample_manager (30 * ns_per_day - 1))) = 29"
    by (simp add: days_remaining_div sample_chrono_laws sample_manager_def units)
  with change_tier_days [OF sample_chrono_laws c] c
  show "\<exists>m' net. change_tier sample_decimal sample_chrono 0 0 Standard (sample_manager (30 * ns_per_day - 1)) = Inr (m', net) \<and>
     sub_paid_until (sm_current m') = 29 * ns_per_day"
    by (auto simp: sample_manager_def units Let_def)
next
  note units = ns_per_day_def ns_per_hour_def ns_per_s_def date_limit_def
  obtain m' net where c: "change_tier sample_decimal sample_chrono 0 7 Standard (sample_manager (5 * ns_per_day)) = Inr (m', net)"
    by (rule sample_change)
  from change_tier_days [OF sample_chrono_laws c] c
  show "\<exists>m' net. change_tier sample_decimal sample_chrono 0 7 Standard (sample_manager (5 * ns_per_day)) = Inr (m', net) \<and>
     5 * ns_per_day < sub_paid_until (sm_current m')"
    by (auto simp: sample_manager_def units Let_def)
qed

text \<open>
  C21: upgrading costs nothing when no whole day is left.  When dividing the monthly prices by
  30 does not panic, then for a new manager, and for any
  subscription with less than a day to run, a change to another tier succeeds, the pro-rata
  amount is exactly 0, and the new tier ends at the second reading of the clock: it is not active
  then or later, whenever the two readings were.  By contrast
  \<open>subscribe\<close> always activates the tier for exactly 30 days.
\<close>

theorem change_tier_free:
  assumes "decimal_laws D" and "chrono_laws C" and "\<bar>now2\<bar> + 30 * ns_per_day \<le> date_limit"
    and "\<forall>t. ddiv D (price_monthly D t) (dlit D 30) \<noteq> None"
    and "sub_paid_until (sm_current m) < now1 + ns_per_day" and "t \<noteq> current_tier m"
  shows "(\<exists>m' net. change_tier D C now1 now2 t m = Inr (m', net) \<and> dval D net = 0 \<and>
      current_tier m' = t \<and> (\<forall>i. sm_is_active i m' \<longleftrightarrow> i < now2)) \<and>
    (\<exists>m'. subscribe C now2 t m = Inr (m', ()) \<and> current_tier m' = t \<and>
      (\<forall>i. sm_is_active i m' \<longleftrightarrow> i < now2 + 30 * ns_per_day))"
proof
  have days: "days_remaining C now1 (sm_current m) = 0"
    using assms(5) by (simp add: days_remaining_div assms(2) max_def)
  have zero: "dval D (dlit D 0) = 0" using assms(1) by simp
  from assms(4) have daily: "\<exists>p. ddiv D (price_monthly D t) (dlit D 30) = Some p" for t by blast
  have mul: "\<exists>x. dmul D p (dlit D 0) = Some x \<and> dval D x = 0" for p
    using dmul_exact [OF assms(1), of p "dlit D 0"] zero by auto
  from daily mul obtain p q x y where
    p: "ddiv D (price_monthly D (current_tier m)) (dlit D 30) = Some p" "dmul D p (dlit D 0) = Some x"
       "dval D x = 0"
    and q: "ddiv D (price_monthly D t) (dlit D 30) = Some q" "dmul D q (dlit D 0) = Some y" "dval D y = 0"
    by metis
  obtain z where z: "dsub D y x = Some z" "dval D z = 0"
    using dsub_exact [OF assms(1), of y x] p(3) q(3) by auto
  have lim: "\<bar>now2\<bar> \<le> date_limit" "\<bar>now2 + 30 * ns_per_day\<bar> \<le> date_limit"
    using assms(3) time_units_pos(3) by linarith+
  show "\<exists>m' net. change_tier D C now1 now2 t m = Inr (m', net) \<and> dval D net = 0 \<and>
      current_tier m' = t \<and> (\<forall>i. sm_is_active i m' \<longleftrightarrow> i < now2)"
    using p q z assms(2,6) lim
    by (auto simp: change_tier_def Let_def days current_tier_def sm_is_active_def sub_is_active_def
        chrono_days chrono_add)
  show "\<exists>m'. subscribe C now2 t m = Inr (m', ()) \<and> current_tier m' = t \<and>
      (\<forall>i. sm_is_active i m' \<longleftrightarrow> i < now2 + 30 * ns_per_day)"
    using lim assms(2)
    by (simp add: subscribe_def chrono_days chrono_add current_tier_def sm_is_active_def sub_is_active_def)
qed

theorem change_tier_free_witness:
  "\<exists>m' net. change_tier sample_decimal sample_chrono 5 6 Premium (SubscriptionManager_new 5) = Inr (m', net) \<and>
     net = 0 \<and> \<not> sm_is_active 6 m'"
proof -
  have div: "\<forall>t. ddiv sample_decimal (price_monthly sample_decimal t) (dlit sample_decimal 30) \<noteq> None"
    by (simp add: sample_decimal_def)
  from change_tier_free [OF sample_decimal_laws sample_chrono_laws _ div, of 6 "SubscriptionManager_new 5" 5 Premium]
  show ?thesis
    by (auto simp: SubscriptionManager_new_def current_tier_def ns_per_day_def ns_per_hour_def ns_per_s_def
        date_limit_def)
qed

end
