(* ===== verification/LedgerStore.thy ===== *)
theory LedgerStore
  imports Merkle
begin

text \<open>
  ledger/src/schema.rs and ledger/src/store.rs: the SQLite ledger.  A table is the list of its
  rows and a SQL statement of the source is a function on tables, with its key constraints; the
  engine's own failures (I/O, lock timeouts) and its PRAGMAs are left out.  \<open>J\<close> is serde_json:
  a value is opaque, read through \<open>j_i64\<close> and \<open>j_str\<close>.
\<close>

section \<open>JSON values\<close>

datatype json_field = JInt int | JStr string

record 'j json_api =
  j_object :: "(string \<times> json_field) list \<Rightarrow> 'j"
  j_i64 :: "'j \<Rightarrow> string \<Rightarrow> int option"
  j_str :: "'j \<Rightarrow> string \<Rightarrow> string option"
  j_to_string :: "'j \<Rightarrow> string"

text \<open>
  What the macro \<open>json!\<close> and the accessors promise: a field is read back as what was put in,
  and only as that type.
\<close>

definition json_laws :: "'j json_api \<Rightarrow> bool" where
  "json_laws J \<longleftrightarrow> (\<forall>fs k. distinct (map fst fs) \<longrightarrow>
     j_i64 J (j_object J fs) k = (case map_of fs k of Some (JInt i) \<Rightarrow> Some i | _ \<Rightarrow> None) \<and>
     j_str J (j_object J fs) k = (case map_of fs k of Some (JStr s) \<Rightarrow> Some s | _ \<Rightarrow> None))"

section \<open>The tables\<close>

record entry_row =
  er_seq :: int
  er_id :: string
  er_entry_type :: string
  er_account_id :: string
  er_amount :: string
  er_balance_after :: string
  er_timestamp :: string
  er_merkle_leaf :: string
  er_synced :: bool
  er_created_at :: string

record root_row =
  rr_seq :: int
  rr_root_hash :: string
  rr_entry_count :: int
  rr_timestamp :: string

text \<open>\<open>db_autoinc\<close> is the largest sequence number ever used, which AUTOINCREMENT keeps.\<close>

record LedgerDb =
  db_entries :: "entry_row list"
  db_autoinc :: int
  db_roots :: "root_row list"
  db_meta :: "(string, string) hmap"

definition fresh_db :: LedgerDb where
  "fresh_db = \<lparr>db_entries = [], db_autoinc = 0, db_roots = [], db_meta = hm_empty\<rparr>"

definition insert_or_ignore :: "string \<Rightarrow> string \<Rightarrow> (string, string) hmap \<Rightarrow> (string, string) hmap" where
  "insert_or_ignore k v m = (if hm_get m k = None then hm_insert k v m else m)"

definition init_schema :: "LedgerDb \<Rightarrow> LedgerDb" where
  "init_schema db = db\<lparr>db_meta :=
     insert_or_ignore ''local_peer_id'' ''''
       (insert_or_ignore ''last_sync_seq'' ''0''
         (insert_or_ignore ''schema_version'' ''1'' (db_meta db)))\<rparr>"

text \<open>An insertion beyond the largest 64-bit rowid fails, as does a second row with the id.\<close>

definition insert_entry ::
  "string \<Rightarrow> string \<Rightarrow> string \<Rightarrow> string \<Rightarrow> string \<Rightarrow> string \<Rightarrow> string \<Rightarrow> string \<Rightarrow> LedgerDb \<Rightarrow>
   LedgerDb \<times> int result" where
  "insert_entry sql_now eid entry_type account_id amount balance_after timestamp merkle_leaf db =
     (if eid \<in> er_id ` set (db_entries db)
      then (db, Inl (Err ''UNIQUE constraint failed: ledger_entries.id''))
      else if db_autoinc db \<ge> 2 ^ 63 - 1 then (db, Inl (Err ''database or disk is full''))
      else let seq = db_autoinc db + 1 in
        (db\<lparr>db_entries := db_entries db @
             [\<lparr>er_seq = seq, er_id = eid, er_entry_type = entry_type, er_account_id = account_id,
               er_amount = amount, er_balance_after = balance_after, er_timestamp = timestamp,
               er_merkle_leaf = merkle_leaf, er_synced = False, er_created_at = sql_now\<rparr>],
            db_autoinc := seq\<rparr>, Inr seq))"

definition get_latest_seq :: "LedgerDb \<Rightarrow> int" where
  "get_latest_seq db = (if db_entries db = [] then 0 else Max (er_seq ` set (db_entries db)))"

definition row_json :: "'j json_api \<Rightarrow> entry_row \<Rightarrow> 'j" where
  "row_json J r = j_object J
     [(''seq'', JInt (er_seq r)), (''id'', JStr (er_id r)), (''entry_type'', JStr (er_entry_type r)),
      (''account_id'', JStr (er_account_id r)), (''amount'', JStr (er_amount r)),
      (''balance_after'', JStr (er_balance_after r)), (''timestamp'', JStr (er_timestamp r)),
      (''merkle_leaf'', JStr (er_merkle_leaf r))]"

text \<open>\<open>LIMIT\<close> with a negative number is no limit.\<close>

definition sql_limit :: "int \<Rightarrow> 'a list \<Rightarrow> 'a list" where
  "sql_limit n xs = (if n < 0 then xs else take (nat n) xs)"

definition select_from :: "int \<Rightarrow> int \<Rightarrow> LedgerDb \<Rightarrow> entry_row list" where
  "select_from from_seq limit db =
     sql_limit limit (sort_key er_seq (filter (\<lambda>r. er_seq r > from_seq) (db_entries db)))"

definition get_entries_from :: "'j json_api \<Rightarrow> int \<Rightarrow> u64 \<Rightarrow> LedgerDb \<Rightarrow> 'j list" where
  "get_entries_from J from_seq limit db = map (row_json J) (select_from from_seq (sint limit) db)"

definition schema_mark_synced :: "int \<Rightarrow> LedgerDb \<Rightarrow> LedgerDb" where
  "schema_mark_synced up_to_seq db = db\<lparr>db_entries :=
     map (\<lambda>r. if er_seq r \<le> up_to_seq \<and> \<not> er_synced r then r\<lparr>er_synced := True\<rparr> else r) (db_entries db)\<rparr>"

definition select_unsynced :: "LedgerDb \<Rightarrow> entry_row list" where
  "select_unsynced db = sort_key er_seq (filter (\<lambda>r. \<not> er_synced r) (db_entries db))"

definition get_unsynced_entries :: "'j json_api \<Rightarrow> LedgerDb \<Rightarrow> 'j list" where
  "get_unsynced_entries J db = map (row_json J) (select_unsynced db)"

definition store_merkle_root :: "string \<Rightarrow> int \<Rightarrow> string \<Rightarrow> int \<Rightarrow> LedgerDb \<Rightarrow> LedgerDb \<times> unit result" where
  "store_merkle_root sql_now seq root_hash entry_count db =
     (if seq \<in> rr_seq ` set (db_roots db)
      then (db, Inl (Err ''UNIQUE constraint failed: merkle_roots.seq''))
      else (db\<lparr>db_roots := db_roots db @
             [\<lparr>rr_seq = seq, rr_root_hash = root_hash, rr_entry_count = entry_count, rr_timestamp = sql_now\<rparr>]\<rparr>,
            Inr ()))"

definition get_latest_merkle_root :: "LedgerDb \<Rightarrow> (int \<times> string) option" where
  "get_latest_merkle_root db =
     (case sql_limit 1 (rev (sort_key rr_seq (db_roots db))) of
        [] \<Rightarrow> None | r # _ \<Rightarrow> Some (rr_seq r, rr_root_hash r))"

section \<open>The store\<close>

text \<open>
  The connection is behind a mutex, so that the operations on one store run one at a time.
\<close>

definition open_in_memory :: LedgerDb where
  "open_in_memory = init_schema fresh_db"

definition store_open :: "LedgerDb \<Rightarrow> LedgerDb" where
  "store_open file = init_schema file"

definition record_entry ::
  "crypto \<Rightarrow> string \<Rightarrow> string \<Rightarrow> string \<Rightarrow> string \<Rightarrow> string \<Rightarrow> string \<Rightarrow> string \<Rightarrow> LedgerDb \<Rightarrow>
   LedgerDb \<times> int result" where
  "record_entry cr uuid now sql_now entry_type account_id amount balance_after db =
     (let merkle_leaf = hex_encode cr (blake3 cr (as_bytes
            (uuid @ '':'' @ entry_type @ '':'' @ amount @ '':'' @ now)))
      in insert_entry sql_now uuid entry_type account_id amount balance_after now merkle_leaf db)"

definition store_get_entries_from :: "'j json_api \<Rightarrow> int \<Rightarrow> LedgerDb \<Rightarrow> 'j list" where
  "store_get_entries_from J from_seq db = get_entries_from J from_seq 10000 db"

definition get_unsynced :: "'j json_api \<Rightarrow> LedgerDb \<Rightarrow> 'j list" where
  "get_unsynced J db = get_unsynced_entries J db"

definition mark_synced :: "int \<Rightarrow> LedgerDb \<Rightarrow> LedgerDb" where
  "mark_synced up_to_seq db = schema_mark_synced up_to_seq db"

definition latest_seq :: "LedgerDb \<Rightarrow> int" where
  "latest_seq db = get_latest_seq db"

text \<open>One round of the loop \<open>while hashes.len() > 1\<close>, and the loop.\<close>

definition ledger_next_level :: "crypto \<Rightarrow> bytes list \<Rightarrow> bytes list" where
  "ledger_next_level cr hashes =
     map (\<lambda>i. let left = hashes ! i;
                  right = (if i + 1 < length hashes then hashes ! (i + 1) else hashes ! i)
              in blake3 cr (left @ right))
       (step_by 0 (length hashes) 2)"

interpretation ledger: level_reduction "\<lambda>l r. blake3 cr (l @ r)" "ledger_next_level cr" for cr
proof
  show "ledger_next_level cr [] = []" by (simp add: ledger_next_level_def)
  show "ledger_next_level cr [x] = [blake3 cr (x @ x)]" for x
    by (simp add: ledger_next_level_def step_by_0)
  show "ledger_next_level cr (x # y # zs) = blake3 cr (x @ y) # ledger_next_level cr zs" for x y zs
    by (simp add: ledger_next_level_def step_by_0 Let_def o_def)
qed

declare ledger.next_shrinks [termination_simp]

function reduce_hashes :: "crypto \<Rightarrow> bytes list \<Rightarrow> bytes list" where
  "reduce_hashes cr hashes =
     (if length hashes > 1 then reduce_hashes cr (ledger_next_level cr hashes) else hashes)"
  by pat_completeness auto
termination
  by (relation "measure (\<lambda>(cr, hashes). length hashes)") (auto simp: ledger.next_shrinks)

declare reduce_hashes.simps [simp del]

definition compute_merkle_root :: "crypto \<Rightarrow> 'j json_api \<Rightarrow> LedgerDb \<Rightarrow> string" where
  "compute_merkle_root cr J db =
     (let entries = get_entries_from J 0 100000 db in
      if entries = [] then hex_encode cr (blake3 cr (as_bytes ''empty''))
      else let hashes = reduce_hashes cr (map (\<lambda>e. blake3 cr (as_bytes (j_to_string J e))) entries)
           in hex_encode cr (hashes ! 0))"

definition store_merkle_checkpoint :: "string \<Rightarrow> string \<Rightarrow> LedgerDb \<Rightarrow> LedgerDb \<times> unit result" where
  "store_merkle_checkpoint sql_now root_hash db =
     (let seq = get_latest_seq db in store_merkle_root sql_now seq root_hash seq db)"

end
