(* ===== verification/LedgerProofs.thy ===== *)
theory LedgerProofs
  imports LedgerStore
begin

text \<open>
  The ledger as an append-only log: the invariant of the tables, what the queries return, and
  the Merkle root as the one of core/src/merkle.rs.
\<close>

section \<open>The invariant\<close>

definition db_inv :: "LedgerDb \<Rightarrow> bool" where
  "db_inv db \<longleftrightarrow> map er_seq (db_entries db) = map int [1..<Suc (length (db_entries db))] \<and>
     db_autoinc db = int (length (db_entries db)) \<and> distinct (map er_id (db_entries db)) \<and>
     length (db_entries db) < 2 ^ 63"

text \<open>The states a ledger reaches through its public operations.\<close>

inductive ledger_reach :: "crypto \<Rightarrow> LedgerDb \<Rightarrow> bool" for cr :: crypto where
  reach_open: "ledger_reach cr open_in_memory"
| reach_reopen: "ledger_reach cr db \<Longrightarrow> ledger_reach cr (store_open db)"
| reach_record: "ledger_reach cr db \<Longrightarrow> record_entry cr u t now ty acc am bal db = (db', r) \<Longrightarrow> ledger_reach cr db'"
| reach_mark: "ledger_reach cr db \<Longrightarrow> ledger_reach cr (mark_synced n db)"
| reach_checkpoint: "ledger_reach cr db \<Longrightarrow> store_merkle_checkpoint now h db = (db', r) \<Longrightarrow> ledger_reach cr db'"

lemma db_inv_open: "db_inv open_in_memory"
  by (simp add: db_inv_def open_in_memory_def init_schema_def fresh_db_def)

lemma db_inv_seq: "db_inv db \<Longrightarrow> i < length (db_entries db) \<Longrightarrow> er_seq (db_entries db ! i) = int i + 1"
proof -
  assume inv: "db_inv db" and i: "i < length (db_entries db)"
  then have "map er_seq (db_entries db) ! i = map int [1..<Suc (length (db_entries db))] ! i"
    unfolding db_inv_def by metis
  with i show ?thesis by (simp add: nth_append split: if_splits)
qed

lemma db_inv_sorted: "db_inv db \<Longrightarrow> sorted (map er_seq (db_entries db))"
  unfolding db_inv_def by (simp add: sorted_map sorted_wrt_upt del: upt_Suc)

lemma insert_entry_inv:
  assumes "db_inv db" and "insert_entry now i ty acc am bal t l db = (db', r)"
  shows "db_inv db'"
proof (cases "i \<in> er_id ` set (db_entries db) \<or> db_autoinc db \<ge> 2 ^ 63 - 1")
  case True
  with assms show ?thesis by (auto simp: insert_entry_def split: if_splits)
next
  case False
  with assms show ?thesis by (auto simp: insert_entry_def db_inv_def Let_def)
qed

lemma schema_mark_synced_inv: "db_inv db \<Longrightarrow> db_inv (schema_mark_synced n db)"
  unfolding db_inv_def schema_mark_synced_def
  by (simp add: o_def if_distrib [of er_seq] if_distrib [of er_id] cong: if_cong)

lemma ledger_reach_inv: "ledger_reach cr db \<Longrightarrow> db_inv db"
proof (induction rule: ledger_reach.induct)
  case (reach_record db u t now ty acc am bal db' r)
  then show ?case by (auto simp: record_entry_def Let_def intro: insert_entry_inv)
next
  case (reach_checkpoint db now h db' r)
  then show ?case
    by (auto simp: store_merkle_checkpoint_def store_merkle_root_def db_inv_def Let_def split: if_splits)
qed (simp_all add: db_inv_open mark_synced_def schema_mark_synced_inv, simp add: store_open_def init_schema_def db_inv_def)

section \<open>The queries\<close>

lemma latest_seq_length: "db_inv db \<Longrightarrow> get_latest_seq db = int (length (db_entries db))"
proof -
  assume inv: "db_inv db"
  let ?n = "length (db_entries db)"
  show ?thesis
  proof (cases "?n = 0")
    case False
    have "er_seq ` set (db_entries db) = set (map int [1..<Suc ?n])"
      using inv unfolding db_inv_def by (metis list.set_map)
    moreover have "Max (set (map int [1..<Suc ?n])) = int ?n"
      using False by (intro Max_eqI) (auto simp: Suc_le_eq simp del: upt_Suc intro!: imageI)
    ultimately show ?thesis using False by (auto simp: get_latest_seq_def)
  qed (simp add: get_latest_seq_def)
qed

lemma filter_seq_drop:
  assumes "map er_seq rows = map int [a..<a + length rows]"
  shows "filter (\<lambda>r. er_seq r > int a + int k - 1) rows = drop k rows"
  using assms
proof (induction rows arbitrary: a k)
  case (Cons r rows)
  from Cons.prems have "er_seq r = int a" and rest: "map er_seq rows = map int [Suc a..<Suc a + length rows]"
    by (simp_all add: upt_conv_Cons del: upt_Suc)
  then show ?case
  proof (cases k)
    case 0
    have "filter (\<lambda>r. er_seq r > int a - 1) rows = rows"
    proof (rule filter_True, rule ballI)
      fix x assume "x \<in> set rows"
      then have "er_seq x \<in> set (map int [Suc a..<Suc a + length rows])" unfolding rest [symmetric] by simp
      then show "er_seq x > int a - 1" by auto
    qed
    with 0 \<open>er_seq r = int a\<close> show ?thesis by simp
  next
    case (Suc j)
    from Cons.IH [OF rest, of j] Suc \<open>er_seq r = int a\<close> show ?thesis by (simp add: algebra_simps)
  qed
qed simp

lemma select_from_drop:
  assumes "db_inv db" and "0 \<le> k"
  shows "select_from k limit db = sql_limit limit (drop (nat k) (db_entries db))"
proof -
  have f: "filter (\<lambda>r. er_seq r > k) (db_entries db) = drop (nat k) (db_entries db)"
    using filter_seq_drop [of "db_entries db" 1 "nat k"] assms by (simp add: db_inv_def)
  have "sorted (map er_seq (drop (nat k) (db_entries db)))"
    using db_inv_sorted [OF assms(1)] by (simp add: drop_map [symmetric] sorted_wrt_drop)
  then show ?thesis by (simp add: select_from_def f sorted_sort_id sort_key_id_if_sorted)
qed

lemma entries_from:
  assumes "db_inv db" and "0 \<le> k" and "0 \<le> sint limit"
  shows "get_entries_from J k limit db =
    map (row_json J) (take (nat (sint limit)) (drop (nat k) (db_entries db)))"
  using assms by (simp add: get_entries_from_def select_from_drop sql_limit_def)

lemma select_unsynced_filter: "db_inv db \<Longrightarrow> select_unsynced db = filter (\<lambda>r. \<not> er_synced r) (db_entries db)"
  using db_inv_sorted by (simp add: select_unsynced_def sort_key_id_if_sorted sorted_filter)

text \<open>The answers of a peer, as the sync manager uses them.\<close>

locale entry_log =
  fixes inv :: "'s \<Rightarrow> bool"
    and rows :: "'s \<Rightarrow> 'e list"
    and page :: nat
    and answer :: "int \<Rightarrow> 's \<Rightarrow> 'e list"
  assumes answer: "inv s \<Longrightarrow> 0 \<le> k \<Longrightarrow> answer k s = take page (drop (nat k) (rows s))"
begin

lemma answer_all: "inv s \<Longrightarrow> length (rows s) \<le> page \<Longrightarrow> answer 0 s = rows s"
  by (simp add: answer)

lemma answer_misses: "inv s \<Longrightarrow> 0 \<le> k \<Longrightarrow> length (rows s) \<le> page \<Longrightarrow> rows s = take (nat k) (rows s) @ answer k s"
  by (simp add: answer)

lemma answer_empty: "inv s \<Longrightarrow> 0 \<le> k \<Longrightarrow> length (rows s) \<le> nat k \<Longrightarrow> answer k s = []"
  by (simp add: answer)

end

interpretation elog: entry_log db_inv "\<lambda>db. map (row_json J) (db_entries db)" 10000 "store_get_entries_from J" for J
  by unfold_locales (simp add: store_get_entries_from_def entries_from take_map drop_map)

section \<open>The Merkle root\<close>

lemma ledger_next_level_core: "ledger_next_level cr hs = next_layer cr hs"
  by (rule core.next_unique) (simp_all only: ledger.next_Nil ledger.next_one ledger.next_pair)

lemma reduce_hashes_top: "hs \<noteq> [] \<Longrightarrow> reduce_hashes cr hs ! 0 = top_hash cr hs"
proof (induction cr hs rule: reduce_hashes.induct)
  case (1 cr hs)
  show ?case
  proof (cases "1 < length hs")
    case True
    then have "reduce_hashes cr hs ! 0 = top_hash cr (next_layer cr hs)"
      using "1.IH" by (subst reduce_hashes.simps) (simp add: ledger_next_level_core core.next_nonempty "1.prems")
    with True show ?thesis by (simp add: top_hash_step)
  next
    case False
    with "1.prems" have "length hs = 1" by (cases hs) simp_all
    then show ?thesis by (subst reduce_hashes.simps) (simp add: top_hash_single)
  qed
qed

lemma mark_synced_rows:
  "db_inv db \<Longrightarrow> map (row_json J) (db_entries (mark_synced n db)) = map (row_json J) (db_entries db)"
  by (simp add: mark_synced_def schema_mark_synced_def o_def row_json_def if_distrib [of "\<lambda>r. row_json J r"] cong: if_cong)

section \<open>Checkpoints\<close>

lemma insort_key_last: "f a \<le> f x \<Longrightarrow> insort_key f a (zs @ [x]) = insort_key f a zs @ [x]"
  for f :: "'a \<Rightarrow> 'b :: linorder"
  by (induction zs) auto

lemma sort_key_last: "\<forall>y \<in> set xs. f y \<le> f x \<Longrightarrow> sort_key f (xs @ [x]) = sort_key f xs @ [x]"
  for f :: "'a \<Rightarrow> 'b :: linorder"
  by (induction xs) (simp_all add: insort_key_last)

lemma latest_root_append:
  assumes "\<forall>r \<in> set (db_roots db). rr_seq r < seq"
  shows "get_latest_merkle_root (db\<lparr>db_roots := db_roots db @
    [\<lparr>rr_seq = seq, rr_root_hash = h, rr_entry_count = n, rr_timestamp = t\<rparr>]\<rparr>) = Some (seq, h)"
proof -
  let ?new = "\<lparr>rr_seq = seq, rr_root_hash = h, rr_entry_count = n, rr_timestamp = t\<rparr>"
  have "sort_key rr_seq (db_roots db @ [?new]) = sort_key rr_seq (db_roots db) @ [?new]"
    by (rule sort_key_last) (use assms in auto)
  then show ?thesis by (simp add: get_latest_merkle_root_def sql_limit_def)
qed

definition roots_inv :: "LedgerDb \<Rightarrow> bool" where
  "roots_inv db \<longleftrightarrow> (\<forall>r \<in> set (db_roots db). rr_seq r \<le> get_latest_seq db)"

lemma ledger_reach_roots: "ledger_reach cr db \<Longrightarrow> roots_inv db"
proof (induction rule: ledger_reach.induct)
  case (reach_record db u t now ty acc am bal db' r)
  note inv = ledger_reach_inv [OF reach_record.hyps(1)]
  have inv': "db_inv db'" using insert_entry_inv [OF inv] reach_record.hyps(2)
    by (auto simp: record_entry_def Let_def)
  have "db_roots db' = db_roots db" "length (db_entries db) \<le> length (db_entries db')"
    using reach_record.hyps(2) by (auto simp: record_entry_def insert_entry_def Let_def split: if_splits)
  with reach_record.IH latest_seq_length [OF inv] latest_seq_length [OF inv'] show ?case
    by (force simp: roots_inv_def)
next
  case (reach_mark db n)
  have "map er_seq (db_entries (mark_synced n db)) = map er_seq (db_entries db)"
    by (simp add: mark_synced_def schema_mark_synced_def o_def if_distrib [of er_seq] cong: if_cong)
  then have "er_seq ` set (db_entries (mark_synced n db)) = er_seq ` set (db_entries db)"
    by (metis list.set_map)
  moreover have "db_roots (mark_synced n db) = db_roots db"
    "db_entries (mark_synced n db) = [] \<longleftrightarrow> db_entries db = []"
    by (simp_all add: mark_synced_def schema_mark_synced_def)
  ultimately have "get_latest_seq (mark_synced n db) = get_latest_seq db"
    by (simp only: get_latest_seq_def)
  with reach_mark.IH show ?case by (simp add: roots_inv_def mark_synced_def schema_mark_synced_def)
next
  case (reach_checkpoint db now h db' r)
  then show ?case
    by (auto simp: store_merkle_checkpoint_def store_merkle_root_def roots_inv_def get_latest_seq_def Let_def
        split: if_splits)
next
  case (reach_reopen db)
  have "get_latest_seq (store_open db) = get_latest_seq db" "db_roots (store_open db) = db_roots db"
    by (simp_all add: get_latest_seq_def store_open_def init_schema_def)
  with reach_reopen.IH show ?case by (simp add: roots_inv_def)
qed (simp add: roots_inv_def open_in_memory_def init_schema_def fresh_db_def)

section \<open>Properties\<close>

text \<open>
  C22: the ledger is an append-only log.  In every state it can reach, the rows are numbered
  1, 2, 3, ... without gaps, \<open>latest_seq\<close> is their number, and \<open>get_entries_from k\<close> answers
  with the rows after the first k, in order, at most 10000 of them.  Recording an entry under a
  new id appends one unsynced row, with the next number, and returns that number; a known id is
  refused and leaves the ledger as it was.
\<close>

theorem ledger_append_only:
  assumes "ledger_reach cr db"
  shows "(\<forall>i < length (db_entries db). er_seq (db_entries db ! i) = int i + 1) \<and>
    latest_seq db = int (length (db_entries db)) \<and>
    (\<forall>k \<ge> 0. store_get_entries_from J k db =
       map (row_json J) (take 10000 (drop (nat k) (db_entries db)))) \<and>
    (\<forall>u t now ty acc am bal. case record_entry cr u t now ty acc am bal db of (db', r) \<Rightarrow>
       if u \<in> er_id ` set (db_entries db) then db' = db \<and> r = Inl (Err ''UNIQUE constraint failed: ledger_entries.id'')
       else latest_seq db < 2 ^ 63 - 1 \<longrightarrow> r = Inr (latest_seq db + 1) \<and>
         (\<exists>row. db_entries db' = db_entries db @ [row] \<and> er_id row = u \<and> er_seq row = latest_seq db + 1 \<and>
            er_entry_type row = ty \<and> er_account_id row = acc \<and> er_amount row = am \<and>
            er_balance_after row = bal \<and> er_timestamp row = t \<and> \<not> er_synced row))"
proof -
  from assms have inv: "db_inv db" by (rule ledger_reach_inv)
  have auto: "db_autoinc db = latest_seq db"
    using inv latest_seq_length [OF inv] by (simp add: db_inv_def latest_seq_def)
  have rec: "case record_entry cr u t now ty acc am bal db of (db', r) \<Rightarrow>
       if u \<in> er_id ` set (db_entries db) then db' = db \<and> r = Inl (Err ''UNIQUE constraint failed: ledger_entries.id'')
       else latest_seq db < 2 ^ 63 - 1 \<longrightarrow> r = Inr (latest_seq db + 1) \<and>
         (\<exists>row. db_entries db' = db_entries db @ [row] \<and> er_id row = u \<and> er_seq row = latest_seq db + 1 \<and>
            er_entry_type row = ty \<and> er_account_id row = acc \<and> er_amount row = am \<and>
            er_balance_after row = bal \<and> er_timestamp row = t \<and> \<not> er_synced row)"
    for u t now ty acc am bal
    using auto by (simp add: record_entry_def insert_entry_def Let_def)
  have "store_get_entries_from J k db = map (row_json J) (take 10000 (drop (nat k) (db_entries db)))"
    if "0 \<le> k" for k
    using elog.answer [OF inv that] by (simp add: take_map drop_map)
  with rec db_inv_seq [OF inv] latest_seq_length [OF inv] show ?thesis
    by (simp add: latest_seq_def)
qed

definition sample_json :: "(string \<times> json_field) list json_api" where
  "sample_json = \<lparr>j_object = (\<lambda>fs. fs),
     j_i64 = (\<lambda>fs k. case map_of fs k of Some (JInt i) \<Rightarrow> Some i | _ \<Rightarrow> None),
     j_str = (\<lambda>fs k. case map_of fs k of Some (JStr s) \<Rightarrow> Some s | _ \<Rightarrow> None),
     j_to_string = (\<lambda>fs. concat (map (\<lambda>(k, v). k @ (case v of JInt i \<Rightarrow> ''0'' | JStr s \<Rightarrow> s)) fs))\<rparr>"

lemma sample_json_laws: "json_laws sample_json"
  by (simp add: json_laws_def sample_json_def)

definition one_entry :: LedgerDb where
  "one_entry = fst (record_entry sample_crypto ''id1'' ''t1'' ''now'' ''deposit'' ''acc1'' ''100.00'' ''100.00''
     open_in_memory)"

lemma one_entry_reach: "ledger_reach sample_crypto one_entry"
  unfolding one_entry_def by (rule reach_record [OF reach_open]) (rule prod.collapse [symmetric])

theorem ledger_append_only_witness:
  "latest_seq one_entry = 1 \<and>
   record_entry sample_crypto ''id1'' ''t2'' ''now'' ''charge'' ''acc1'' ''1.00'' ''99.00'' one_entry =
     (one_entry, Inl (Err ''UNIQUE constraint failed: ledger_entries.id''))"
proof -
  have rows: "length (db_entries one_entry) = 1" "''id1'' \<in> er_id ` set (db_entries one_entry)"
    by (simp_all add: one_entry_def record_entry_def insert_entry_def open_in_memory_def init_schema_def
        fresh_db_def Let_def)
  have "case record_entry sample_crypto ''id1'' ''t2'' ''now'' ''charge'' ''acc1'' ''1.00'' ''99.00'' one_entry
      of (db', r) \<Rightarrow> db' = one_entry \<and> r = Inl (Err ''UNIQUE constraint failed: ledger_entries.id'')"
    using ledger_append_only [OF one_entry_reach, of sample_json, THEN conjunct2, THEN conjunct2,
        THEN conjunct2, rule_format, of "''id1''" "''charge''" "''acc1''" "''1.00''" "''99.00''" "''t2''" "''now''"]
      rows(2) by simp
  moreover have "latest_seq one_entry = 1"
    using ledger_append_only [OF one_entry_reach, of sample_json] rows(1) by linarith
  ultimately show ?thesis by (simp split: prod.splits)
qed

text \<open>
  Sync marks.  In a reachable ledger \<open>get_unsynced\<close> returns the unsynced rows in order.
  Marking up to n takes exactly the rows numbered at most n out of it, changes no other answer
  (\<open>get_entries_from\<close>, \<open>latest_seq\<close>, the Merkle root), and a row recorded later is unsynced.
\<close>

theorem ledger_sync_marks:
  assumes "ledger_reach cr db"
  shows "get_unsynced J (mark_synced n db) =
      map (row_json J) (filter (\<lambda>r. \<not> er_synced r \<and> er_seq r > n) (db_entries db)) \<and>
    get_unsynced J db = map (row_json J) (filter (\<lambda>r. \<not> er_synced r) (db_entries db)) \<and>
    (\<forall>k \<ge> 0. store_get_entries_from J k (mark_synced n db) = store_get_entries_from J k db) \<and>
    latest_seq (mark_synced n db) = latest_seq db \<and>
    compute_merkle_root cr J (mark_synced n db) = compute_merkle_root cr J db \<and>
    (\<forall>u t now ty acc am bal db' s. record_entry cr u t now ty acc am bal db = (db', Inr s) \<longrightarrow>
       (\<exists>row. er_seq row = s \<and> get_unsynced J db' = get_unsynced J db @ [row_json J row]))"
proof -
  from assms have inv: "db_inv db" by (rule ledger_reach_inv)
  then have inv': "db_inv (mark_synced n db)" by (simp add: mark_synced_def schema_mark_synced_inv)
  have len: "length (db_entries (mark_synced n db)) = length (db_entries db)"
    by (simp add: mark_synced_def schema_mark_synced_def)
  have page: "get_entries_from J k limit (mark_synced n db) = get_entries_from J k limit db"
    if "0 \<le> k" "0 \<le> sint limit" for k limit
    using that inv inv' mark_synced_rows [OF inv, of J n]
    by (simp add: entries_from take_map [symmetric] drop_map [symmetric])
  have "map (row_json J) (filter (\<lambda>r. \<not> er_synced r) (db_entries (mark_synced n db))) =
      map (row_json J) (filter (\<lambda>r. \<not> er_synced r \<and> er_seq r > n) (db_entries db))"
    by (simp add: mark_synced_def schema_mark_synced_def filter_map o_def not_le)
       (rule map_cong, auto intro: filter_cong)
  then have unsynced: "get_unsynced J (mark_synced n db) =
      map (row_json J) (filter (\<lambda>r. \<not> er_synced r \<and> er_seq r > n) (db_entries db))"
    by (simp add: get_unsynced_def get_unsynced_entries_def select_unsynced_filter inv')
  have "\<exists>row. er_seq row = s \<and> get_unsynced J db' = get_unsynced J db @ [row_json J row]"
    if r: "record_entry cr u t now ty acc am bal db = (db', Inr s)" for u t now ty acc am bal db' s
  proof -
    from r have inv2: "db_inv db'"
      using insert_entry_inv [OF inv] by (auto simp: record_entry_def Let_def)
    from r have "\<exists>row. er_seq row = s \<and> \<not> er_synced row \<and> db_entries db' = db_entries db @ [row]"
      by (auto simp: record_entry_def insert_entry_def Let_def split: if_splits)
    then show ?thesis
      using inv inv2 by (auto simp: get_unsynced_def get_unsynced_entries_def select_unsynced_filter)
  qed
  moreover have "store_get_entries_from J k (mark_synced n db) = store_get_entries_from J k db" if "0 \<le> k" for k
    using page [OF that, of 10000] by (simp add: store_get_entries_from_def)
  moreover have "compute_merkle_root cr J (mark_synced n db) = compute_merkle_root cr J db"
    using page [of 0 100000] by (simp add: compute_merkle_root_def)
  ultimately show ?thesis
    using unsynced latest_seq_length [OF inv] latest_seq_length [OF inv'] len
    by (simp add: get_unsynced_def get_unsynced_entries_def select_unsynced_filter inv latest_seq_def)
qed

theorem ledger_sync_marks_witness:
  "get_unsynced sample_json (mark_synced 1 one_entry) = [] \<and> length (get_unsynced sample_json one_entry) = 1"
proof -
  have rows: "\<exists>r. db_entries one_entry = [r] \<and> er_seq r = 1 \<and> \<not> er_synced r"
    by (simp add: one_entry_def record_entry_def insert_entry_def open_in_memory_def init_schema_def
        fresh_db_def Let_def)
  with ledger_sync_marks [OF one_entry_reach, of sample_json 1] show ?thesis by auto
qed

text \<open>
  C24: the ledger's own Merkle loop computes the root of core/src/merkle.rs.  For a reachable
  ledger with rows, the root is \<open>root_hex\<close> of the tree over the hashes of the serialised first
  100000 rows; from 100000 rows on, recording an entry does not change it any more.
\<close>

theorem ledger_root:
  assumes "ledger_reach cr db" and "db_entries db \<noteq> []"
  shows "compute_merkle_root cr J db =
      root_hex cr (from_chunks cr
        (map (\<lambda>r. as_bytes (j_to_string J (row_json J r))) (take 100000 (db_entries db)))) \<and>
    (100000 \<le> length (db_entries db) \<longrightarrow>
      (\<forall>u t now ty acc am bal. compute_merkle_root cr J (fst (record_entry cr u t now ty acc am bal db)) =
         compute_merkle_root cr J db))"
proof
  from assms(1) have inv: "db_inv db" by (rule ledger_reach_inv)
  have e: "get_entries_from J 0 100000 d = map (row_json J) (take 100000 (db_entries d))" if "db_inv d" for d
    using entries_from [OF that, of 0 100000 J] by simp
  let ?c = "map (\<lambda>r. as_bytes (j_to_string J (row_json J r))) (take 100000 (db_entries db))"
  have "map (\<lambda>e. blake3 cr (as_bytes (j_to_string J e))) (map (row_json J) (take 100000 (db_entries db))) =
      map (blake3 cr) ?c" by (simp add: o_def)
  then show "compute_merkle_root cr J db = root_hex cr (from_chunks cr ?c)"
    using assms(2) by (simp add: compute_merkle_root_def e [OF inv] Let_def reduce_hashes_top root_hex_def
        from_chunks_def from_hashes_nonempty del: map_map)
  show "100000 \<le> length (db_entries db) \<longrightarrow>
      (\<forall>u t now ty acc am bal. compute_merkle_root cr J (fst (record_entry cr u t now ty acc am bal db)) =
         compute_merkle_root cr J db)"
  proof (intro impI allI)
    fix u t now ty acc am bal
    assume big: "100000 \<le> length (db_entries db)"
    let ?d = "fst (record_entry cr u t now ty acc am bal db)"
    have inv': "db_inv ?d" by (rule ledger_reach_inv [OF reach_record [OF assms(1)]]) (rule prod.collapse [symmetric])
    have "take 100000 (db_entries ?d) = take 100000 (db_entries db)"
      using big by (simp add: record_entry_def insert_entry_def Let_def)
    then show "compute_merkle_root cr J ?d = compute_merkle_root cr J db"
      by (simp add: compute_merkle_root_def e [OF inv] e [OF inv'])
  qed
qed

theorem ledger_root_witness:
  "compute_merkle_root sample_crypto sample_json one_entry =
     root_hex sample_crypto (from_chunks sample_crypto
       (map (\<lambda>r. as_bytes (j_to_string sample_json (row_json sample_json r))) (take 100000 (db_entries one_entry))))"
proof -
  have "db_entries one_entry \<noteq> []"
    by (simp add: one_entry_def record_entry_def insert_entry_def open_in_memory_def init_schema_def
        fresh_db_def Let_def)
  from ledger_root [OF one_entry_reach this] show ?thesis by blast
qed

text \<open>
  Checkpoints.  In a reachable ledger a checkpoint is stored exactly when there is none
  yet for the latest sequence number; it then is the latest root.  A second checkpoint before
  the next entry is refused and the first one stays the latest.
\<close>

theorem ledger_checkpoint:
  assumes "ledger_reach cr db"
  shows "case store_merkle_checkpoint t h db of (db1, r) \<Rightarrow>
    (r = Inr () \<longleftrightarrow> latest_seq db \<notin> rr_seq ` set (db_roots db)) \<and>
    (r = Inr () \<longrightarrow> get_latest_merkle_root db1 = Some (latest_seq db, h) \<and>
      (\<forall>t' h'. store_merkle_checkpoint t' h' db1 =
         (db1, Inl (Err ''UNIQUE constraint failed: merkle_roots.seq'')))) \<and>
    (r \<noteq> Inr () \<longrightarrow> db1 = db)"
proof (cases "latest_seq db \<in> rr_seq ` set (db_roots db)")
  case True
  then show ?thesis
    by (simp add: store_merkle_checkpoint_def store_merkle_root_def latest_seq_def Let_def)
next
  case False
  have "\<forall>r \<in> set (db_roots db). rr_seq r \<le> latest_seq db"
    using ledger_reach_roots [OF assms] by (simp add: roots_inv_def latest_seq_def)
  with False have "\<forall>r \<in> set (db_roots db). rr_seq r < latest_seq db" by (force simp: less_le)
  note last = latest_root_append [OF this]
  from False last show ?thesis
    by (simp add: store_merkle_checkpoint_def store_merkle_root_def latest_seq_def get_latest_seq_def Let_def)
qed

theorem ledger_checkpoint_witness:
  "\<exists>db. store_merkle_checkpoint ''t'' ''root'' one_entry = (db, Inr ()) \<and>
     get_latest_merkle_root db = Some (1, ''root'') \<and>
     snd (store_merkle_checkpoint ''t2'' ''root2'' db) \<noteq> Inr ()"
proof -
  have "db_roots one_entry = []" "latest_seq one_entry = 1"
    by (simp_all add: one_entry_def record_entry_def insert_entry_def open_in_memory_def init_schema_def
        fresh_db_def Let_def latest_seq_def get_latest_seq_def)
  with ledger_checkpoint [OF one_entry_reach, of "''root''" "''t''"] show ?thesis
    by (auto split: prod.splits)
qed

end
