(* ===== verification/Conflict.thy ===== *)
theory Conflict
  imports LedgerStore "HOL-Library.Char_ord" "HOL-Library.List_Lexorder"
begin

text \<open>
  ledger/src/conflict.rs: conflicting versions of a ledger entry and who wins.  Strings are
  compared byte by byte, the lexicographic order on lists of characters.
\<close>

section \<open>A conflict\<close>

record 'j LedgerConflict =
  lc_local_entry :: 'j
  lc_remote_entry :: 'j
  lc_local_seq :: int
  lc_remote_seq :: int
  lc_local_timestamp :: string
  lc_remote_timestamp :: string

definition unwrap_or :: "'a option \<Rightarrow> 'a \<Rightarrow> 'a" where
  "unwrap_or x d = (case x of None \<Rightarrow> d | Some a \<Rightarrow> a)"

definition LedgerConflict_new :: "'j json_api \<Rightarrow> 'j \<Rightarrow> 'j \<Rightarrow> 'j LedgerConflict" where
  "LedgerConflict_new J local_entry remote_entry =
     \<lparr>lc_local_entry = local_entry, lc_remote_entry = remote_entry,
      lc_local_seq = unwrap_or (j_i64 J local_entry ''seq'') 0,
      lc_remote_seq = unwrap_or (j_i64 J remote_entry ''seq'') 0,
      lc_local_timestamp = unwrap_or (j_str J local_entry ''timestamp'') '''',
      lc_remote_timestamp = unwrap_or (j_str J remote_entry ''timestamp'') ''''\<rparr>"

definition resolve_by_timestamp :: "'j LedgerConflict \<Rightarrow> bool" where
  "resolve_by_timestamp c \<longleftrightarrow> lc_remote_timestamp c > lc_local_timestamp c"

definition resolve_by_majority :: "u32 \<Rightarrow> u32 \<Rightarrow> 'j LedgerConflict \<Rightarrow> bool" where
  "resolve_by_majority votes_for_local votes_for_remote c \<longleftrightarrow>
     (if votes_for_remote > votes_for_local then True
      else if votes_for_local > votes_for_remote then False
      else resolve_by_timestamp c)"

section \<open>The resolver\<close>

record ConflictResolver =
  cr_resolved_count :: u64
  cr_local_wins :: u64
  cr_remote_wins :: u64

datatype 'j ResolveResult = UseLocal 'j | UseRemote 'j

definition ConflictResolver_new :: ConflictResolver where
  "ConflictResolver_new = \<lparr>cr_resolved_count = 0, cr_local_wins = 0, cr_remote_wins = 0\<rparr>"

text \<open>The map of local entries by id: entries without an id are skipped, a later one replaces.\<close>

definition local_map :: "'j json_api \<Rightarrow> 'j list \<Rightarrow> (string, 'j) hmap" where
  "local_map J local_entries =
     fold (\<lambda>e m. case j_str J e ''id'' of Some i \<Rightarrow> hm_insert i e m | None \<Rightarrow> m) local_entries hm_empty"

fun conflicts_from :: "'j json_api \<Rightarrow> (string, 'j) hmap \<Rightarrow> 'j list \<Rightarrow> 'j LedgerConflict list" where
  "conflicts_from J lm [] = []"
| "conflicts_from J lm (remote # rest) =
     (case j_str J remote ''id'' of
        Some remote_id \<Rightarrow>
          (case hm_get lm remote_id of
             Some loc \<Rightarrow>
               (if j_to_string J loc \<noteq> j_to_string J remote
                then LedgerConflict_new J loc remote # conflicts_from J lm rest
                else conflicts_from J lm rest)
           | None \<Rightarrow> conflicts_from J lm rest)
      | None \<Rightarrow> conflicts_from J lm rest)"

definition detect_conflicts :: "'j json_api \<Rightarrow> 'j list \<Rightarrow> 'j list \<Rightarrow> 'j LedgerConflict list" where
  "detect_conflicts J local_entries remote_entries =
     conflicts_from J (local_map J local_entries) remote_entries"

definition conflict_resolve ::
  "'j LedgerConflict \<Rightarrow> u32 \<Rightarrow> u32 \<Rightarrow> ConflictResolver \<Rightarrow> ConflictResolver \<times> 'j ResolveResult" where
  "conflict_resolve c votes_for_local votes_for_remote r =
     (let r1 = r\<lparr>cr_resolved_count := cr_resolved_count r + 1\<rparr>;
          use_remote = resolve_by_majority votes_for_local votes_for_remote c
      in if use_remote
         then (r1\<lparr>cr_remote_wins := cr_remote_wins r1 + 1\<rparr>, UseRemote (lc_remote_entry c))
         else (r1\<lparr>cr_local_wins := cr_local_wins r1 + 1\<rparr>, UseLocal (lc_local_entry c)))"

definition ConflictResolver_default :: ConflictResolver where
  "ConflictResolver_default = ConflictResolver_new"

definition resolver_stats :: "ConflictResolver \<Rightarrow> u64 \<times> u64 \<times> u64" where
  "resolver_stats r = (cr_resolved_count r, cr_local_wins r, cr_remote_wins r)"

section \<open>Facts\<close>

definition entry_time :: "'j json_api \<Rightarrow> 'j \<Rightarrow> string" where
  "entry_time J e = unwrap_or (j_str J e ''timestamp'') ''''"

fun chosen :: "'j ResolveResult \<Rightarrow> 'j" where
  "chosen (UseLocal e) = e"
| "chosen (UseRemote e) = e"

lemma conflict_fields [simp]:
  "lc_local_entry (LedgerConflict_new J l r) = l" "lc_remote_entry (LedgerConflict_new J l r) = r"
  "lc_local_timestamp (LedgerConflict_new J l r) = entry_time J l"
  "lc_remote_timestamp (LedgerConflict_new J l r) = entry_time J r"
  by (simp_all add: LedgerConflict_new_def entry_time_def)

lemma chosen_resolve:
  "chosen (snd (conflict_resolve (LedgerConflict_new J l r) vl vr s)) =
    (if vr > vl \<or> (vr = vl \<and> entry_time J r > entry_time J l) then r else l)"
  by (auto simp: conflict_resolve_def resolve_by_majority_def resolve_by_timestamp_def Let_def)

text \<open>Every resolution is counted once, for one side.\<close>

definition stats_inv :: "ConflictResolver \<Rightarrow> bool" where
  "stats_inv r \<longleftrightarrow> cr_resolved_count r = cr_local_wins r + cr_remote_wins r"

lemma stats_inv_resolve: "stats_inv r \<Longrightarrow> stats_inv (fst (conflict_resolve c vl vr r))"
  by (simp add: stats_inv_def conflict_resolve_def Let_def)

text \<open>The local version of an id is the last local entry that carries it.\<close>

definition local_version :: "'j json_api \<Rightarrow> 'j list \<Rightarrow> 'j \<Rightarrow> 'j option" where
  "local_version J locals remote =
     (case j_str J remote ''id'' of None \<Rightarrow> None
      | Some i \<Rightarrow> find (\<lambda>e. j_str J e ''id'' = Some i) (rev locals))"

lemma local_map_get: "hm_get (local_map J locals) i = find (\<lambda>e. j_str J e ''id'' = Some i) (rev locals)"
proof (induction locals rule: rev_induct)
  case Nil
  then show ?case by (simp add: local_map_def hmap_simps)
next
  case (snoc e locals)
  then show ?case by (auto simp: local_map_def hmap_simps split: option.splits)
qed

definition in_conflict :: "'j json_api \<Rightarrow> 'j list \<Rightarrow> 'j \<Rightarrow> bool" where
  "in_conflict J locals remote = (case local_version J locals remote of None \<Rightarrow> False
     | Some l \<Rightarrow> j_to_string J l \<noteq> j_to_string J remote)"

lemma detect_conflicts_map:
  "detect_conflicts J locals remotes =
    map (\<lambda>r. LedgerConflict_new J (the (local_version J locals r)) r) (filter (in_conflict J locals) remotes)"
  unfolding detect_conflicts_def
  by (induction remotes)
    (auto simp: local_map_get in_conflict_def local_version_def split: option.splits)

section \<open>Properties\<close>

text \<open>
  C26: when two peers agree.  One peer holds l and receives r, the other holds r and receives
  l, and both see the same votes.  They end with the same entry exactly if the votes differ,
  or the timestamps differ, or the entries are the same; the winner is the entry with more
  votes and, when the votes are equal, the one with the later timestamp.
\<close>

theorem resolve_convergence:
  "chosen (snd (conflict_resolve (LedgerConflict_new J l r) vl vr s)) =
     (if vl < vr \<or> vl = vr \<and> entry_time J l < entry_time J r then r else l) \<and>
   (chosen (snd (conflict_resolve (LedgerConflict_new J l r) vl vr s)) =
     chosen (snd (conflict_resolve (LedgerConflict_new J r l) vr vl s')) \<longleftrightarrow>
   vl \<noteq> vr \<or> entry_time J l \<noteq> entry_time J r \<or> l = r)"
  unfolding chosen_resolve by (auto simp: not_less)

definition plain_json :: "string json_api" where
  "plain_json = \<lparr>j_object = (\<lambda>_. ''''), j_i64 = (\<lambda>_ _. None), j_str = (\<lambda>_ _. None), j_to_string = (\<lambda>s. s)\<rparr>"

theorem resolve_convergence_witness:
  "chosen (snd (conflict_resolve (LedgerConflict_new plain_json ''a'' ''b'') 1 2 ConflictResolver_new)) = ''b'' \<and>
   chosen (snd (conflict_resolve (LedgerConflict_new plain_json ''a'' ''b'') 0 0 ConflictResolver_new)) \<noteq>
   chosen (snd (conflict_resolve (LedgerConflict_new plain_json ''b'' ''a'') 0 0 ConflictResolver_new))"
proof -
  have "(1 :: u32) < 2" by (simp add: word_less_nat_alt)
  moreover have "entry_time plain_json s = ''''" for s
    by (simp add: entry_time_def plain_json_def unwrap_or_def)
  ultimately show ?thesis
    using resolve_convergence [of plain_json "''a''" "''b''" 1 2 ConflictResolver_new ConflictResolver_new]
      resolve_convergence [of plain_json "''a''" "''b''" 0 0 ConflictResolver_new ConflictResolver_new]
    by auto
qed

end
