(* ===== verification/GossipSync.thy ===== *)
theory GossipSync
  imports LedgerProofs Conflict
begin

text \<open>
  ledger/src/gossip_sync.rs: the sync manager, its messages, and the exchange of entries with a
  peer.  The clock (seconds) and the UUID of a request are arguments.
\<close>

section \<open>The manager\<close>

datatype 'j SyncMessage =
    StateAdvert (sa_peer_id: string) (sa_merkle_root: string) (sa_latest_seq: int)
  | EntryRequest (rq_from_seq: int) (rq_request_id: string)
  | EntryResponse (rs_request_id: string) (rs_entries: "'j list")
  | ConflictNotify (cn_conflicts: "'j list")

record PeerSyncState =
  ps_peer_id :: string
  ps_merkle_root :: string
  ps_latest_seq :: int
  ps_last_sync :: u64

record LedgerSyncManager =
  ls_local_peer_id :: string
  ls_local_merkle_root :: string
  ls_local_latest_seq :: int
  ls_peers :: "(string, PeerSyncState) hmap"
  ls_conflict_resolver :: ConflictResolver
  ls_pending_requests :: "(string, string) hmap"

definition LedgerSyncManager_new :: "string \<Rightarrow> LedgerSyncManager" where
  "LedgerSyncManager_new local_peer_id =
     \<lparr>ls_local_peer_id = local_peer_id, ls_local_merkle_root = '''', ls_local_latest_seq = 0,
      ls_peers = hm_empty, ls_conflict_resolver = ConflictResolver_new, ls_pending_requests = hm_empty\<rparr>"

definition update_local_state :: "string \<Rightarrow> int \<Rightarrow> LedgerSyncManager \<Rightarrow> LedgerSyncManager" where
  "update_local_state merkle_root latest m =
     m\<lparr>ls_local_merkle_root := merkle_root, ls_local_latest_seq := latest\<rparr>"

definition register_peer_state :: "int \<Rightarrow> string \<Rightarrow> string \<Rightarrow> int \<Rightarrow> LedgerSyncManager \<Rightarrow> LedgerSyncManager" where
  "register_peer_state now_secs peer_id merkle_root latest m =
     m\<lparr>ls_peers := hm_insert peer_id
        \<lparr>ps_peer_id = peer_id, ps_merkle_root = merkle_root, ps_latest_seq = latest,
         ps_last_sync = word_of_int now_secs\<rparr> (ls_peers m)\<rparr>"

definition needs_sync :: "string \<Rightarrow> LedgerSyncManager \<Rightarrow> bool" where
  "needs_sync peer_id m =
     (case hm_get (ls_peers m) peer_id of
        Some peer \<Rightarrow>
          if ps_merkle_root peer \<noteq> ls_local_merkle_root m then True
          else if ps_latest_seq peer > ls_local_latest_seq m then True
          else False
      | None \<Rightarrow> False)"

definition create_entry_request ::
  "string \<Rightarrow> string \<Rightarrow> LedgerSyncManager \<Rightarrow> LedgerSyncManager \<times> 'j SyncMessage" where
  "create_entry_request uuid peer_id m =
     (let m1 = m\<lparr>ls_pending_requests := hm_insert uuid peer_id (ls_pending_requests m)\<rparr>;
          from_seq = (case hm_get (ls_peers m1) peer_id of
              Some peer \<Rightarrow> max 0 (i64_wrap (i64_wrap (ls_local_latest_seq m1 - ps_latest_seq peer) + 1))
            | None \<Rightarrow> 0)
      in (m1, EntryRequest from_seq uuid))"

definition create_state_advert :: "LedgerSyncManager \<Rightarrow> 'j SyncMessage" where
  "create_state_advert m =
     StateAdvert (ls_local_peer_id m) (ls_local_merkle_root m) (ls_local_latest_seq m)"

text \<open>The loop over the conflicts, with the resolver threaded through; no votes are used.\<close>

fun resolve_all :: "'j LedgerConflict list \<Rightarrow> ConflictResolver \<Rightarrow> ConflictResolver \<times> 'j ResolveResult list" where
  "resolve_all [] r = (r, [])"
| "resolve_all (c # cs) r =
     (let (r1, res) = conflict_resolve c 0 0 r; (r2, rest) = resolve_all cs r1 in (r2, res # rest))"

definition process_entries ::
  "'j json_api \<Rightarrow> string \<Rightarrow> 'j list \<Rightarrow> 'j list \<Rightarrow> LedgerSyncManager \<Rightarrow> LedgerSyncManager \<times> 'j ResolveResult list" where
  "process_entries J request_id entries local_entries m =
     (case hm_get (ls_pending_requests m) request_id of
        Some peer_id \<Rightarrow>
          let m1 = m\<lparr>ls_pending_requests := hm_remove request_id (ls_pending_requests m)\<rparr>;
              conflicts = detect_conflicts J local_entries entries;
              (r, results) = resolve_all conflicts (ls_conflict_resolver m1)
          in (m1\<lparr>ls_conflict_resolver := r\<rparr>, results)
      | None \<Rightarrow> (m, []))"

definition peer_states :: "LedgerSyncManager \<Rightarrow> PeerSyncState list" where
  "peer_states m = hm_values (ls_peers m)"

definition conflict_stats :: "LedgerSyncManager \<Rightarrow> u64 \<times> u64 \<times> u64" where
  "conflict_stats m = resolver_stats (ls_conflict_resolver m)"

section \<open>Facts\<close>

text \<open>The winner of a remote entry against the local one, by timestamp.\<close>

definition newer :: "'j json_api \<Rightarrow> 'j \<Rightarrow> 'j \<Rightarrow> 'j ResolveResult" where
  "newer J l r = (if entry_time J r > entry_time J l then UseRemote r else UseLocal l)"

lemma conflict_resolve_newer: "snd (conflict_resolve (LedgerConflict_new J l r) 0 0 s) = newer J l r"
  by (simp add: conflict_resolve_def resolve_by_majority_def resolve_by_timestamp_def newer_def Let_def)

lemma resolve_all_results:
  "snd (resolve_all (map (\<lambda>r. LedgerConflict_new J (f r) r) rs) s) = map (\<lambda>r. newer J (f r) r) rs"
proof (induction rs arbitrary: s)
  case (Cons r rs)
  from Cons.IH [of "fst (conflict_resolve (LedgerConflict_new J (f r) r) 0 0 s)"]
    conflict_resolve_newer [of J "f r" r s]
  show ?case by (simp add: Let_def case_prod_unfold)
qed simp

lemma resolve_all_count:
  "cr_resolved_count (fst (resolve_all cs s)) = cr_resolved_count s + of_nat (length cs)"
proof (induction cs arbitrary: s)
  case (Cons c cs)
  have "cr_resolved_count (fst (conflict_resolve c 0 0 s)) = cr_resolved_count s + 1"
    by (simp add: conflict_resolve_def Let_def)
  with Cons show ?case by (simp add: Let_def case_prod_unfold algebra_simps)
qed simp

lemma resolve_all_stats: "stats_inv s \<Longrightarrow> stats_inv (fst (resolve_all cs s))"
  by (induction cs arbitrary: s) (simp_all add: Let_def case_prod_unfold stats_inv_resolve)

text \<open>A pending request.\<close>

lemma process_pending:
  assumes "hm_get (ls_pending_requests m) rid = Some p"
  shows "process_entries J rid entries locals m =
    (m\<lparr>ls_pending_requests := hm_remove rid (ls_pending_requests m),
       ls_conflict_resolver := fst (resolve_all (detect_conflicts J locals entries) (ls_conflict_resolver m))\<rparr>,
     map (\<lambda>r. newer J (the (local_version J locals r)) r) (filter (in_conflict J locals) entries))"
proof -
  have "snd (resolve_all (detect_conflicts J locals entries) (ls_conflict_resolver m)) =
      map (\<lambda>r. newer J (the (local_version J locals r)) r) (filter (in_conflict J locals) entries)"
    by (simp add: detect_conflicts_map resolve_all_results)
  with assms show ?thesis by (simp add: process_entries_def Let_def case_prod_unfold)
qed

section \<open>Properties\<close>

text \<open>
  C27: processing a response.  For a request that is pending, the results are, in the order
  received, one winner for each remote entry that has a local version with other content, the
  remote entry only if its timestamp is later; the request is no longer pending, so a second
  response to it does nothing, and the statistics grow by the number of conflicts, each counted
  for exactly one side.  An unknown request changes nothing.
\<close>

theorem process_entries_spec:
  "(case process_entries J rid entries locals m of (m', results) \<Rightarrow>
     (if hm_get (ls_pending_requests m) rid = None then m' = m \<and> results = []
      else results = map (\<lambda>r. newer J (the (local_version J locals r)) r) (filter (in_conflict J locals) entries) \<and>
        ls_pending_requests m' = hm_remove rid (ls_pending_requests m) \<and>
        ls_peers m' = ls_peers m \<and>
        cr_resolved_count (ls_conflict_resolver m') =
          cr_resolved_count (ls_conflict_resolver m) + of_nat (length results) \<and>
        (stats_inv (ls_conflict_resolver m) \<longrightarrow> stats_inv (ls_conflict_resolver m'))) \<and>
     (\<forall>entries' locals'. process_entries J rid entries' locals' m' = (m', [])))"
proof (cases "hm_get (ls_pending_requests m) rid")
  case None
  then show ?thesis by (simp add: process_entries_def)
next
  case (Some p)
  show ?thesis
    using Some resolve_all_stats unfolding process_pending [OF Some]
    by (auto simp: process_entries_def hmap_simps detect_conflicts_map resolve_all_count)
qed

definition old_entry :: "(string \<times> json_field) list" where
  "old_entry = [(''id'', JStr ''e1''), (''timestamp'', JStr ''2024-01-01''), (''amount'', JStr ''1'')]"

definition new_entry :: "(string \<times> json_field) list" where
  "new_entry = [(''id'', JStr ''e1''), (''timestamp'', JStr ''2024-01-02''), (''amount'', JStr ''1'')]"

definition pending_manager :: LedgerSyncManager where
  "pending_manager = fst (create_entry_request ''req'' ''peer'' (LedgerSyncManager_new ''me'') ::
     LedgerSyncManager \<times> (string \<times> json_field) list SyncMessage)"

lemma sample_conflict:
  "filter (in_conflict sample_json [old_entry]) [new_entry] = [new_entry]"
  "the (local_version sample_json [old_entry] new_entry) = old_entry"
  "newer sample_json old_entry new_entry = UseRemote new_entry"
  "hm_get (ls_pending_requests pending_manager) ''req'' = Some ''peer''"
  by (simp_all add: in_conflict_def local_version_def sample_json_def old_entry_def new_entry_def newer_def
      entry_time_def unwrap_or_def pending_manager_def create_entry_request_def LedgerSyncManager_new_def
      Let_def hmap_simps less_char_def)

theorem process_entries_spec_witness:
  "\<exists>m'. process_entries sample_json ''req'' [new_entry] [old_entry] pending_manager = (m', [UseRemote new_entry]) \<and>
     process_entries sample_json ''req'' [new_entry] [old_entry] m' = (m', [])"
  using process_entries_spec [where J = sample_json and rid = "''req''" and entries = "[new_entry]" and
      locals = "[old_entry]" and m = pending_manager]
  by (auto simp: sample_conflict simp del: filter.simps split: prod.splits)

text \<open>
  What an entry request gets.  The peer's ledger is reachable with n rows, at most the
  10000 of one answer, and the manager has the peer's true state.  The peer's answer to the
  request leaves out exactly its first \<open>max 0 (local - n + 1)\<close> rows: it has all of them if and
  only if the peer is ahead (or empty), and with equally long ledgers of n > 0 rows, which can
  differ in any row, the first row is never sent.
\<close>

theorem entry_request_answer:
  fixes J :: "'j json_api"
  assumes "ledger_reach cr db" and "length (db_entries db) \<le> 10000"
    and "0 \<le> ls_local_latest_seq m" and "ls_local_latest_seq m < 2 ^ 62"
    and "hm_get (ls_peers m) pid = Some p" and "ps_latest_seq p = latest_seq db"
  shows "\<exists>m' f. create_entry_request u pid m = (m', EntryRequest f u :: 'j SyncMessage) \<and>
    hm_get (ls_pending_requests m') u = Some pid \<and>
    f = max 0 (ls_local_latest_seq m - latest_seq db + 1) \<and>
    map (row_json J) (db_entries db) = take (nat f) (map (row_json J) (db_entries db)) @ store_get_entries_from J f db \<and>
    (store_get_entries_from J f db = map (row_json J) (db_entries db) \<longleftrightarrow>
      latest_seq db > ls_local_latest_seq m \<or> db_entries db = [])"
proof -
  let ?L = "ls_local_latest_seq m" and ?n = "latest_seq db" and ?rows = "map (row_json J) (db_entries db)"
  have inv: "db_inv db" by (rule ledger_reach_inv [OF assms(1)])
  have n: "?n = int (length (db_entries db))" by (simp add: latest_seq_def latest_seq_length [OF inv])
  have "?L - ?n + 1 < 2 ^ 63" "- (2 ^ 63) \<le> ?L - ?n + 1" "?L - ?n < 2 ^ 63" "- (2 ^ 63) \<le> ?L - ?n"
    using assms(2-4) n by simp_all
  then have f: "max 0 (i64_wrap (i64_wrap (?L - ?n) + 1)) = max 0 (?L - ?n + 1)"
    by (simp only: i64_wrap_id)
  let ?f = "max 0 (?L - ?n + 1)"
  have "create_entry_request u pid m = (m\<lparr>ls_pending_requests := hm_insert u pid (ls_pending_requests m)\<rparr>,
      EntryRequest ?f u :: 'j SyncMessage)"
    using assms(5,6) f by (simp add: create_entry_request_def Let_def)
  moreover have miss: "?rows = take (nat ?f) ?rows @ store_get_entries_from J ?f db"
    by (rule elog.answer_misses [OF inv]) (simp_all add: assms(2))
  moreover have "store_get_entries_from J ?f db = ?rows \<longleftrightarrow> ?n > ?L \<or> db_entries db = []"
  proof -
    have "store_get_entries_from J ?f db = ?rows \<longleftrightarrow> take (nat ?f) ?rows = []"
      using miss by (metis append_Nil self_append_conv2)
    also have "\<dots> \<longleftrightarrow> ?n > ?L \<or> db_entries db = []" by auto
    finally show ?thesis .
  qed
  ultimately show ?thesis by (simp add: hmap_simps)
qed

lemma one_entry_rows: "length (db_entries one_entry) = 1"
  by (simp add: one_entry_def record_entry_def insert_entry_def open_in_memory_def init_schema_def
      fresh_db_def Let_def)

theorem entry_request_answer_witness:
  "\<exists>f. snd (create_entry_request ''r'' ''p''
       (register_peer_state 0 ''p'' ''other root'' 1 (update_local_state ''root'' 1 (LedgerSyncManager_new ''me'')))) =
     (EntryRequest f ''r'' :: (string \<times> json_field) list SyncMessage) \<and>
     store_get_entries_from sample_json f one_entry \<noteq> map (row_json sample_json) (db_entries one_entry)"
proof -
  let ?m = "register_peer_state 0 ''p'' ''other root'' 1 (update_local_state ''root'' 1 (LedgerSyncManager_new ''me''))"
  have seq: "latest_seq one_entry = 1"
    using latest_seq_length [OF ledger_reach_inv [OF one_entry_reach]] by (simp add: latest_seq_def one_entry_rows)
  have m: "ls_local_latest_seq ?m = 1" "\<exists>p. hm_get (ls_peers ?m) ''p'' = Some p \<and> ps_latest_seq p = 1"
    by (simp_all add: register_peer_state_def update_local_state_def hmap_simps)
  then obtain p where p: "hm_get (ls_peers ?m) ''p'' = Some p" "ps_latest_seq p = latest_seq one_entry"
    using seq by auto
  from entry_request_answer [OF one_entry_reach _ _ _ p, where u = "''r''" and J = sample_json] one_entry_rows seq m(1)
  obtain m' f where "create_entry_request ''r'' ''p'' ?m = (m', EntryRequest f ''r'' :: (string \<times> json_field) list SyncMessage)"
    "store_get_entries_from sample_json f one_entry \<noteq> map (row_json sample_json) (db_entries one_entry)"
    by auto
  then show ?thesis by auto
qed

end
