(* ===== verification/SyncRound.thy ===== *)
theory SyncRound
  imports GossipSync
begin

text \<open>
  One round of ledger synchronisation between two peers, composed of the operations of
  ledger/src/gossip_sync.rs and of the store (ledger/src/store.rs) in the order their messages
  prescribe: state advertisement, entry request, answer from the peer's ledger, processing.
\<close>

section \<open>The round\<close>

text \<open>
  \<open>r\<close> and \<open>db\<close> are the manager and the ledger of the peer that advertises, \<open>m\<close> the manager that
  receives, with its own entries \<open>locals\<close>.
\<close>

definition sync_round ::
  "'j json_api \<Rightarrow> int \<Rightarrow> string \<Rightarrow> LedgerSyncManager \<Rightarrow> LedgerDb \<Rightarrow> 'j list \<Rightarrow> LedgerSyncManager \<Rightarrow>
     LedgerSyncManager \<times> 'j ResolveResult list" where
  "sync_round J now uuid r db locals m =
     (let advert = create_state_advert r :: 'j SyncMessage;
          m1 = register_peer_state now (sa_peer_id advert) (sa_merkle_root advert) (sa_latest_seq advert) m
      in if \<not> needs_sync (sa_peer_id advert) m1 then (m1, [])
         else let (m2, request) = create_entry_request uuid (sa_peer_id advert) m1 :: LedgerSyncManager \<times> 'j SyncMessage;
                  response = EntryResponse (rq_request_id request) (store_get_entries_from J (rq_from_seq request) db)
              in process_entries J (rs_request_id response) (rs_entries response) locals m2)"

section \<open>Facts\<close>

text \<open>An entry without a local version takes no part in the results.\<close>

lemma newer_known:
  assumes "in_conflict J locals r"
  shows "local_version J locals (chosen (newer J (the (local_version J locals r)) r)) \<noteq> None"
proof -
  from assms obtain i l where i: "j_str J r ''id'' = Some i"
    and l: "find (\<lambda>e. j_str J e ''id'' = Some i) (rev locals) = Some l"
    by (auto simp: in_conflict_def local_version_def split: option.splits)
  from l have "j_str J l ''id'' = Some i" by (auto simp: find_Some_iff)
  with i l show ?thesis by (simp add: newer_def local_version_def)
qed

lemma register_needs:
  "needs_sync p (register_peer_state now p root n m) \<longleftrightarrow>
    root \<noteq> ls_local_merkle_root m \<or> n > ls_local_latest_seq m"
  by (simp add: needs_sync_def register_peer_state_def hmap_simps)

section \<open>Property\<close>

text \<open>
  C28: what a round does.  The peer's ledger is reachable with n rows, at most the 10000 of one
  answer, and the peer advertises n.  Nothing is asked when the roots agree and the peer is not
  ahead.  Otherwise the first \<open>max 0 (local - n + 1)\<close> rows of the peer are never sent, of the
  others each that conflicts with a local entry gives the winner, and the request is closed.
  Every result, local or remote, has an id that the local ledger holds: an entry that only the
  peer has is never handed out, and the round leaves the question whether to synchronise as it was.
\<close>

theorem sync_round_spec:
  fixes J :: "'j json_api"
  assumes "ledger_reach cr db" and "length (db_entries db) \<le> 10000"
    and "0 \<le> ls_local_latest_seq m" and "ls_local_latest_seq m < 2 ^ 62"
    and "ls_local_latest_seq r = latest_seq db"
    and "sync_round J now u r db locals m = (m', results)"
    and "asked \<longleftrightarrow> ls_local_merkle_root r \<noteq> ls_local_merkle_root m \<or> latest_seq db > ls_local_latest_seq m"
    and "sent = drop (nat (max 0 (ls_local_latest_seq m - latest_seq db + 1))) (map (row_json J) (db_entries db))"
  shows "results = (if asked then map (\<lambda>e. newer J (the (local_version J locals e)) e) (filter (in_conflict J locals) sent)
      else []) \<and>
    (\<forall>x \<in> set results. local_version J locals (chosen x) \<noteq> None) \<and>
    (\<forall>i. hm_get (ls_pending_requests m') i = (if asked \<and> i = u then None else hm_get (ls_pending_requests m) i)) \<and>
    (needs_sync (ls_local_peer_id r) m' \<longleftrightarrow> asked)"
proof -
  let ?p = "ls_local_peer_id r"
  define m1 where "m1 = register_peer_state now ?p (ls_local_merkle_root r) (latest_seq db) m"
  have m1: "ls_local_latest_seq m1 = ls_local_latest_seq m" "ls_pending_requests m1 = ls_pending_requests m"
    "needs_sync ?p m1 \<longleftrightarrow> asked"
    and peer: "\<exists>p. hm_get (ls_peers m1) ?p = Some p \<and> ps_latest_seq p = latest_seq db"
    by (simp_all add: m1_def assms(7) register_needs) (simp_all add: register_peer_state_def hmap_simps)
  show ?thesis
  proof (cases asked)
    case False
    with assms(5,6) m1 show ?thesis by (auto simp: sync_round_def create_state_advert_def Let_def m1_def)
  next
    case True
    from peer obtain p where p: "hm_get (ls_peers m1) ?p = Some p" "ps_latest_seq p = latest_seq db" by blast
    obtain m2 f where req: "create_entry_request u ?p m1 = (m2, EntryRequest f u :: 'j SyncMessage)"
      and pend: "hm_get (ls_pending_requests m2) u = Some ?p"
      and f: "f = max 0 (ls_local_latest_seq m - latest_seq db + 1)"
      and rows: "map (row_json J) (db_entries db) =
        take (nat f) (map (row_json J) (db_entries db)) @ store_get_entries_from J f db"
      using entry_request_answer [OF assms(1,2) _ _ p, where u = u and J = J] assms(3,4) m1(1) by auto
    have sent: "store_get_entries_from J f db = sent"
      using rows by (metis append_eq_append_conv append_take_drop_id assms(8) f)
    have m2: "m2 = m1\<lparr>ls_pending_requests := hm_insert u ?p (ls_pending_requests m1)\<rparr>"
      using req by (simp add: create_entry_request_def Let_def)
    have run: "process_entries J u sent locals m2 = (m', results)"
      using assms(5,6) True m1(3) req sent
      by (simp add: sync_round_def create_state_advert_def Let_def m1_def [symmetric])
    note res = run [unfolded process_pending [OF pend]]
    from res have "results = map (\<lambda>e. newer J (the (local_version J locals e)) e) (filter (in_conflict J locals) sent)"
      by simp
    moreover from this have "\<forall>x \<in> set results. local_version J locals (chosen x) \<noteq> None"
      using newer_known [of J locals] by auto
    moreover from res m2 m1(2) have
      "\<forall>i. hm_get (ls_pending_requests m') i = (if i = u then None else hm_get (ls_pending_requests m) i)"
      by (auto simp: hmap_simps)
    moreover from res m2 m1(3) True have "needs_sync ?p m' \<longleftrightarrow> asked"
      by (auto simp: needs_sync_def split: option.splits)
    ultimately show ?thesis using True by auto
  qed
qed

text \<open>Two ledgers of one row with different roots: nothing is exchanged, and the next round asks again.\<close>

theorem sync_round_spec_witness:
  "\<exists>m'. sync_round sample_json 0 ''u'' (update_local_state ''root'' 1 (LedgerSyncManager_new ''peer''))
      one_entry [old_entry] (update_local_state ''other'' 1 (LedgerSyncManager_new ''me'')) = (m', []) \<and>
    needs_sync ''peer'' m'"
proof -
  let ?r = "update_local_state ''root'' 1 (LedgerSyncManager_new ''peer'')"
  let ?m = "update_local_state ''other'' 1 (LedgerSyncManager_new ''me'')"
  have r: "ls_local_latest_seq ?r = latest_seq one_entry"
    using latest_seq_length [OF ledger_reach_inv [OF one_entry_reach]] one_entry_rows
    by (simp add: latest_seq_def update_local_state_def)
  obtain m' results where run: "sync_round sample_json 0 ''u'' ?r one_entry [old_entry] ?m = (m', results)"
    by (cases "sync_round sample_json 0 ''u'' ?r one_entry [old_entry] ?m")
  from sync_round_spec [OF one_entry_reach _ _ _ r run refl refl] one_entry_rows r run show ?thesis
    by (auto simp: update_local_state_def LedgerSyncManager_new_def)
qed

end
