(* ===== verification/Gossip.thy ===== *)
theory Gossip
  imports CoreTypes Subscription
begin

text \<open>
  p2p/src/message.rs and p2p/src/gossip.rs: the messages, the queue with four priorities, the
  set of messages already seen, and the priority of a message.  The hash map of the queue and
  the hash set of seen messages are lists without duplicates, in any order: the order stands
  for the iteration order that the standard library leaves open.
\<close>

section \<open>Messages\<close>

datatype GossipTopic = TopicLedger | TopicChunkAvailability | TopicNodeInfo | TopicReplication | TopicBilling

fun topic_name :: "string \<Rightarrow> GossipTopic \<Rightarrow> string" where
  "topic_name prefix TopicLedger = prefix @ ''/ledger''"
| "topic_name prefix TopicChunkAvailability = prefix @ ''/chunks''"
| "topic_name prefix TopicNodeInfo = prefix @ ''/node-info''"
| "topic_name prefix TopicReplication = prefix @ ''/replication''"
| "topic_name prefix TopicBilling = prefix @ ''/billing''"

datatype P2pMessage =
    ChunkRequest ChunkId "nat list"
  | ChunkResponse ChunkId nat bytes
  | ChunkAnnounce ChunkId "nat list"
  | ChallengeRequest StorageChallenge
  | ChallengeResponse StorageProof
  | Heartbeat string u64 u64
  | HeartbeatAck string u64
  | LedgerSync string u64 "bytes list"
  | LedgerRequest u64
  | ReplicationRequest ChunkId "nat list"
  | NodeJoin string string u64

record GossipMessage =
  gm_sender_peer_id :: string
  gm_message :: P2pMessage
  gm_timestamp :: u64
  gm_sequence :: u64

section \<open>Priorities\<close>

datatype MessagePriority = Low | Normal | High | Critical

fun priority_rank :: "MessagePriority \<Rightarrow> nat" where
  "priority_rank Low = 0"
| "priority_rank Normal = 1"
| "priority_rank High = 2"
| "priority_rank Critical = 3"

lemma priority_rank_inject: "priority_rank a = priority_rank b \<Longrightarrow> a = b"
  by (cases a; cases b) simp_all

instantiation MessagePriority :: linorder
begin

definition less_eq_MessagePriority :: "MessagePriority \<Rightarrow> MessagePriority \<Rightarrow> bool" where
  "a \<le> b \<longleftrightarrow> priority_rank a \<le> priority_rank b"

definition less_MessagePriority :: "MessagePriority \<Rightarrow> MessagePriority \<Rightarrow> bool" where
  "a < b \<longleftrightarrow> priority_rank a < priority_rank b"

instance
  by standard (auto simp: less_eq_MessagePriority_def less_MessagePriority_def priority_rank_inject)

end

fun get_message_priority :: "P2pMessage \<Rightarrow> u8 \<Rightarrow> MessagePriority" where
  "get_message_priority (HeartbeatAck _ _) w = Low"
| "get_message_priority (Heartbeat _ _ _) w = Normal"
| "get_message_priority (NodeJoin _ _ _) w = Normal"
| "get_message_priority (ChunkAnnounce _ _) w = (if w \<ge> 3 then High else Normal)"
| "get_message_priority (ChunkRequest _ _) w = (if w \<ge> 3 then High else Normal)"
| "get_message_priority (LedgerSync _ _ _) w = High"
| "get_message_priority (LedgerRequest _) w = High"
| "get_message_priority (ChallengeRequest _) w = High"
| "get_message_priority (ChallengeResponse _) w = High"
| "get_message_priority (ReplicationRequest _ _) w = (if w \<ge> 3 then Critical else High)"
| "get_message_priority (ChunkResponse _ _ _) w = (if w \<ge> 2 then High else Normal)"

definition subscription_weight_from_tier :: "string \<Rightarrow> u8" where
  "subscription_weight_from_tier tier =
     (if tier = ''premium'' then 3 else if tier = ''standard'' then 2 else 1)"

section \<open>The queue\<close>

record GossipQueue =
  gq_queues :: "(MessagePriority, GossipMessage list) hmap"
  gq_max_queue_size :: nat
  gq_sequence_counter :: u64

definition GossipQueue_new :: "nat \<Rightarrow> GossipQueue" where
  "GossipQueue_new max_queue_size =
     \<lparr>gq_queues = hm_insert Low [] (hm_insert Normal [] (hm_insert High [] (hm_insert Critical [] hm_empty))),
      gq_max_queue_size = max_queue_size, gq_sequence_counter = 0\<rparr>"

definition queue_len :: "GossipQueue \<Rightarrow> nat" where
  "queue_len q = sum_list (map length (hm_values (gq_queues q)))"

definition queue_is_empty :: "GossipQueue \<Rightarrow> bool" where
  "queue_is_empty q \<longleftrightarrow> queue_len q = 0"

text \<open>A missing priority is the panic of \<open>get_mut(...).unwrap()\<close>.\<close>

definition enqueue ::
  "int \<Rightarrow> MessagePriority \<Rightarrow> string \<Rightarrow> P2pMessage \<Rightarrow> GossipQueue \<Rightarrow> GossipQueue \<times> unit result" where
  "enqueue now_secs priority peer_id message q =
     (let tot = sum_list (map length (hm_values (gq_queues q))) in
      if tot \<ge> gq_max_queue_size q then (q, Inl (Err ''Gossip queue full''))
      else
        let gossip_msg = \<lparr>gm_sender_peer_id = peer_id, gm_message = message,
                          gm_timestamp = word_of_int now_secs, gm_sequence = gq_sequence_counter q\<rparr>;
            q1 = q\<lparr>gq_sequence_counter := gq_sequence_counter q + 1\<rparr>
        in case hm_get (gq_queues q1) priority of
             None \<Rightarrow> (q1, Inl Panic)
           | Some l \<Rightarrow> (q1\<lparr>gq_queues := hm_insert priority (l @ [gossip_msg]) (gq_queues q1)\<rparr>, Inr ()))"

fun dequeue_from :: "MessagePriority list \<Rightarrow> GossipQueue \<Rightarrow> GossipQueue \<times> GossipMessage option" where
  "dequeue_from [] q = (q, None)"
| "dequeue_from (p # ps) q =
     (case hm_get (gq_queues q) p of
        Some (msg # rest) \<Rightarrow> (q\<lparr>gq_queues := hm_insert p rest (gq_queues q)\<rparr>, Some msg)
      | _ \<Rightarrow> dequeue_from ps q)"

definition dequeue :: "GossipQueue \<Rightarrow> GossipQueue \<times> GossipMessage option" where
  "dequeue q = dequeue_from [Critical, High, Normal, Low] q"

section \<open>Seen messages\<close>

record SeenMessages =
  sn_seen :: "u64 list"
  sn_max_size :: nat

definition SeenMessages_new :: "nat \<Rightarrow> SeenMessages" where
  "SeenMessages_new max_size = \<lparr>sn_seen = [], sn_max_size = max_size\<rparr>"

text \<open>\<open>retain\<close> visits the set in iteration order and keeps what comes after \<open>to_remove\<close>.\<close>

fun retain_after :: "nat \<Rightarrow> nat \<Rightarrow> 'a list \<Rightarrow> 'a list" where
  "retain_after count to_remove [] = []"
| "retain_after count to_remove (x # xs) =
     (let c = count + 1 in
      if c > to_remove then x # retain_after c to_remove xs else retain_after c to_remove xs)"

definition check_and_mark :: "u64 \<Rightarrow> SeenMessages \<Rightarrow> SeenMessages \<times> bool" where
  "check_and_mark seq s =
     (if seq \<in> set (sn_seen s) then (s, False)
      else
        let seen1 = (if length (sn_seen s) \<ge> sn_max_size s
                     then retain_after 0 (sn_max_size s div 2) (sn_seen s) else sn_seen s)
        in (s\<lparr>sn_seen := seq # seen1\<rparr>, True))"

definition seen_contains :: "u64 \<Rightarrow> SeenMessages \<Rightarrow> bool" where
  "seen_contains seq s \<longleftrightarrow> seq \<in> set (sn_seen s)"

section \<open>The contract of a priority queue\<close>

text \<open>
  A queue stands for the list of its entries, the one to leave first in front; \<open>after\<close> is the
  list with an entry added behind all entries of its own or a higher priority.
\<close>

fun after :: "'p :: linorder \<Rightarrow> 'e \<Rightarrow> ('p \<times> 'e) list \<Rightarrow> ('p \<times> 'e) list" where
  "after p e [] = [(p, e)]"
| "after p e ((p', e') # rest) = (if p \<le> p' then (p', e') # after p e rest else (p, e) # (p', e') # rest)"

text \<open>What a client sees that takes up to n entries out, one after the other.\<close>

fun drain_with :: "('q \<Rightarrow> 'q \<times> 'e option) \<Rightarrow> nat \<Rightarrow> 'q \<Rightarrow> 'e list" where
  "drain_with get 0 q = []"
| "drain_with get (Suc n) q = (case get q of (q', Some e) \<Rightarrow> e # drain_with get n q' | (q', None) \<Rightarrow> [])"

locale priority_queue =
  fixes inv :: "'q \<Rightarrow> bool"
    and abs :: "'q \<Rightarrow> ('p :: linorder \<times> 'e) list"
    and put :: "'p \<Rightarrow> 'e \<Rightarrow> 'q \<Rightarrow> 'q"
    and get :: "'q \<Rightarrow> 'q \<times> 'e option"
  assumes put_inv: "inv q \<Longrightarrow> inv (put p e q)"
    and put_abs: "inv q \<Longrightarrow> abs (put p e q) = after p e (abs q)"
    and get_inv: "inv q \<Longrightarrow> inv (fst (get q))"
    and get_empty: "inv q \<Longrightarrow> abs q = [] \<Longrightarrow> get q = (q, None)"
    and get_first: "inv q \<Longrightarrow> abs q = (p, e) # rest \<Longrightarrow> snd (get q) = Some e \<and> abs (fst (get q)) = rest"
begin

text \<open>Draining returns the entries of the list, in its order.\<close>

lemma drain_abs: "inv q \<Longrightarrow> length (abs q) \<le> n \<Longrightarrow> drain_with get n q = map snd (abs q)"
proof (induction n arbitrary: q)
  case (Suc n)
  show ?case
  proof (cases "abs q")
    case Nil
    with get_empty [OF Suc.prems(1)] show ?thesis by simp
  next
    case (Cons x rest)
    obtain p e where "x = (p, e)" by (cases x)
    with Cons get_first [OF Suc.prems(1), of p e rest] have
      g: "snd (get q) = Some e" "abs (fst (get q)) = rest" by auto
    with Suc.IH [OF get_inv [OF Suc.prems(1)]] Suc.prems(2) Cons
    have "drain_with get n (fst (get q)) = map snd rest" by simp
    with g(1) Cons \<open>x = (p, e)\<close> show ?thesis by (cases "get q") simp
  qed
qed simp

end

section \<open>The queue satisfies the contract\<close>

abbreviation priorities :: "MessagePriority list" where
  "priorities \<equiv> [Critical, High, Normal, Low]"

definition blocks :: "(MessagePriority \<Rightarrow> 'e list) \<Rightarrow> (MessagePriority \<times> 'e) list" where
  "blocks f = concat (map (\<lambda>p. map (Pair p) (f p)) priorities)"

lemma after_above: "\<forall>x \<in> set xs. p \<le> fst x \<Longrightarrow> after p e (xs @ ys) = xs @ after p e ys"
  by (induction xs) auto

lemma after_end: "\<forall>x \<in> set xs. p \<le> fst x \<Longrightarrow> after p e xs = xs @ [(p, e)]"
  using after_above [of xs p e "[]"] by simp

lemma after_below: "\<forall>x \<in> set xs. fst x < p \<Longrightarrow> after p e xs = (p, e) # xs"
  by (cases xs) auto

lemma priority_order [simp]:
  "Low < Normal" "Low < High" "Low < Critical" "Normal < High" "Normal < Critical" "High < Critical"
  by (simp_all add: less_MessagePriority_def)

lemma after_blocks: "after p e (blocks f) = blocks (f(p := f p @ [e]))"
proof -
  let ?b = "\<lambda>p. map (Pair p) (f p)"
  have "after p e (?b Critical @ ?b High @ ?b Normal @ ?b Low) = blocks (f(p := f p @ [e]))"
    by (cases p) (simp_all add: after_above after_end after_below less_imp_le blocks_def ball_Un)
  then show ?thesis by (simp add: blocks_def)
qed

definition queue_of :: "GossipQueue \<Rightarrow> MessagePriority \<Rightarrow> GossipMessage list" where
  "queue_of q p = (case hm_get (gq_queues q) p of None \<Rightarrow> [] | Some l \<Rightarrow> l)"

definition queue_abs :: "GossipQueue \<Rightarrow> (MessagePriority \<times> GossipMessage) list" where
  "queue_abs q = blocks (queue_of q)"

definition queue_inv :: "GossipQueue \<Rightarrow> bool" where
  "queue_inv q \<longleftrightarrow> hm_inv (gq_queues q) \<and> (\<forall>p. hm_get (gq_queues q) p \<noteq> None)"

definition push_message :: "MessagePriority \<Rightarrow> GossipMessage \<Rightarrow> GossipQueue \<Rightarrow> GossipQueue" where
  "push_message p msg q = q\<lparr>gq_queues := hm_insert p (queue_of q p @ [msg]) (gq_queues q)\<rparr>"

lemma queue_of_insert: "queue_of (q\<lparr>gq_queues := hm_insert p l (gq_queues q)\<rparr>) = (queue_of q)(p := l)"
  by (rule ext) (simp add: queue_of_def hmap_simps)

lemma queue_inv_insert: "queue_inv q \<Longrightarrow> queue_inv (q\<lparr>gq_queues := hm_insert p l (gq_queues q)\<rparr>)"
  by (auto simp: queue_inv_def hmap_simps intro: hm.inv_ins)

lemma queue_get: "queue_inv q \<Longrightarrow> hm_get (gq_queues q) p = Some (queue_of q p)"
  by (auto simp: queue_inv_def queue_of_def split: option.splits)

lemma dequeue_from_empty:
  "queue_inv q \<Longrightarrow> \<forall>p \<in> set ps. queue_of q p = [] \<Longrightarrow> dequeue_from ps q = (q, None)"
  by (induction ps) (simp_all add: queue_get)

lemma dequeue_from_first:
  assumes "queue_inv q" and "\<forall>p \<in> set ps. queue_of q p = []" and "queue_of q p = msg # rest"
  shows "dequeue_from (ps @ p # qs) q = (q\<lparr>gq_queues := hm_insert p rest (gq_queues q)\<rparr>, Some msg)"
  using assms(2) by (induction ps) (simp_all add: queue_get [OF assms(1)] assms(3))

lemma blocks_Cons:
  assumes "blocks f = (p, e) # rest"
  obtains qs ps where "priorities = ps @ p # qs" "\<forall>p' \<in> set ps. f p' = []" "f p = e # tl (f p)"
    "rest = blocks (f(p := tl (f p)))"
proof (cases p)
  case Low
  with assms that [of "[Critical, High, Normal]" "[]"] show ?thesis
    by (cases "f Critical"; cases "f High"; cases "f Normal"; cases "f Low") (auto simp: blocks_def)
next
  case Normal
  with assms that [of "[Critical, High]" "[Low]"] show ?thesis
    by (cases "f Critical"; cases "f High"; cases "f Normal"; cases "f Low") (auto simp: blocks_def)
next
  case High
  with assms that [of "[Critical]" "[Normal, Low]"] show ?thesis
    by (cases "f Critical"; cases "f High"; cases "f Normal"; cases "f Low") (auto simp: blocks_def)
next
  case Critical
  with assms that [of "[]" "[High, Normal, Low]"] show ?thesis
    by (cases "f Critical"; cases "f High"; cases "f Normal"; cases "f Low") (auto simp: blocks_def)
qed

lemma dequeue_first:
  assumes "queue_inv q" and "queue_abs q = (p, e) # rest"
  shows "dequeue q = (q\<lparr>gq_queues := hm_insert p (tl (queue_of q p)) (gq_queues q)\<rparr>, Some e) \<and>
    rest = blocks ((queue_of q)(p := tl (queue_of q p)))"
proof -
  from assms(2) obtain qs ps where b: "priorities = ps @ p # qs" "\<forall>p' \<in> set ps. queue_of q p' = []"
    "queue_of q p = e # tl (queue_of q p)" "rest = blocks ((queue_of q)(p := tl (queue_of q p)))"
    unfolding queue_abs_def by (rule blocks_Cons)
  with dequeue_from_first [OF assms(1) b(2,3)] show ?thesis by (simp add: dequeue_def)
qed

lemma dequeue_none: "queue_inv q \<Longrightarrow> queue_abs q = [] \<Longrightarrow> dequeue q = (q, None)"
  unfolding dequeue_def by (rule dequeue_from_empty) (auto simp: queue_abs_def blocks_def)

lemma dequeue_inv: "queue_inv q \<Longrightarrow> queue_inv (fst (dequeue q))"
  by (cases "queue_abs q") (auto simp: dequeue_none dequeue_first queue_inv_insert)

interpretation gq: priority_queue queue_inv queue_abs push_message dequeue
proof
  show "queue_inv (push_message p e q)" if "queue_inv q" for q p e
    using that by (simp add: push_message_def queue_inv_insert)
  show "queue_abs (push_message p e q) = after p e (queue_abs q)" if "queue_inv q" for q p e
    by (simp add: push_message_def queue_abs_def queue_of_insert after_blocks)
  show "snd (dequeue q) = Some e \<and> queue_abs (fst (dequeue q)) = rest"
    if "queue_inv q" "queue_abs q = (p, e) # rest" for q p e rest
    using dequeue_first [OF that] by (simp add: queue_abs_def queue_of_insert)
qed (simp_all add: dequeue_inv dequeue_none)

section \<open>Lengths and runs of the queue\<close>

lemma all_priorities: "(UNIV :: MessagePriority set) = set priorities"
  by (auto intro: MessagePriority.exhaust)

lemma queue_len_abs:
  assumes "queue_inv q"
  shows "queue_len q = length (queue_abs q)"
proof -
  have inv: "hm_inv (gq_queues q)" using assms by (simp add: queue_inv_def)
  have "(p, l) \<in> set (gq_queues q) \<longleftrightarrow> l = queue_of q p" for p l
    using hm.entries_get [OF inv, of p l] queue_get [OF assms, of p] by auto
  then have entries: "set (gq_queues q) = (\<lambda>p. (p, queue_of q p)) ` set priorities"
    unfolding all_priorities [symmetric] by auto
  have "queue_len q = (\<Sum>e \<in> set (gq_queues q). length (snd e))"
    unfolding queue_len_def by (rule hm_values_sum [OF inv])
  also have "\<dots> = (\<Sum>p \<in> set priorities. length (queue_of q p))"
    unfolding entries by (subst sum.reindex) (auto simp: inj_on_def)
  also have "\<dots> = length (queue_abs q)" by (simp add: queue_abs_def blocks_def)
  finally show ?thesis .
qed

lemma queue_new_inv: "queue_inv (GossipQueue_new n)"
proof -
  have "hm_get (gq_queues (GossipQueue_new n)) p \<noteq> None" for p
    by (cases p) (simp_all add: GossipQueue_new_def hmap_simps)
  then show ?thesis
    by (auto simp: queue_inv_def GossipQueue_new_def intro!: hm.inv_ins hm.inv_empty)
qed

lemma queue_new_abs: "queue_abs (GossipQueue_new n) = []"
  by (simp add: queue_abs_def blocks_def queue_of_def GossipQueue_new_def hmap_simps)

definition message_of :: "int \<Rightarrow> string \<Rightarrow> P2pMessage \<Rightarrow> u64 \<Rightarrow> GossipMessage" where
  "message_of now peer m n =
     \<lparr>gm_sender_peer_id = peer, gm_message = m, gm_timestamp = word_of_int now, gm_sequence = n\<rparr>"

lemma counter_queue [simp]: "queue_of (q\<lparr>gq_sequence_counter := c\<rparr>) = queue_of q"
  by (simp add: queue_of_def [abs_def])

lemma enqueue_cases:
  assumes "queue_inv q"
  shows "enqueue now p peer m q =
    (if queue_len q < gq_max_queue_size q
     then (push_message p (message_of now peer m (gq_sequence_counter q))
             (q\<lparr>gq_sequence_counter := gq_sequence_counter q + 1\<rparr>), Inr ())
     else (q, Inl (Err ''Gossip queue full'')))"
  using queue_get [OF assms, of p]
  by (simp add: enqueue_def queue_len_def Let_def push_message_def message_of_def not_le)

lemma counter_abs [simp]: "queue_abs (q\<lparr>gq_sequence_counter := c\<rparr>) = queue_abs q"
  and counter_inv [simp]: "queue_inv (q\<lparr>gq_sequence_counter := c\<rparr>) = queue_inv q"
  and counter_len [simp]: "queue_len (q\<lparr>gq_sequence_counter := c\<rparr>) = queue_len q"
  by (simp_all add: queue_abs_def queue_inv_def queue_len_def queue_of_def [abs_def])

inductive queue_reach :: "GossipQueue \<Rightarrow> bool" where
  qr_new: "queue_reach (GossipQueue_new n)"
| qr_enqueue: "queue_reach q \<Longrightarrow> enqueue now p peer m q = (q', r) \<Longrightarrow> queue_reach q'"
| qr_dequeue: "queue_reach q \<Longrightarrow> dequeue q = (q', r) \<Longrightarrow> queue_reach q'"

lemma length_after: "length (after p e xs) = Suc (length xs)"
  by (induction p e xs rule: after.induct) simp_all

lemma push_max [simp]: "gq_max_queue_size (push_message p e q) = gq_max_queue_size q"
  by (simp add: push_message_def)

lemma dequeue_max: "queue_inv q \<Longrightarrow> gq_max_queue_size (fst (dequeue q)) = gq_max_queue_size q"
  by (cases "queue_abs q") (auto simp: dequeue_none dequeue_first)

lemma dequeue_shorter: "queue_inv q \<Longrightarrow> length (queue_abs (fst (dequeue q))) \<le> length (queue_abs q)"
  using gq.get_first by (cases "queue_abs q") (auto simp: dequeue_none)

lemma queue_reach_inv: "queue_reach q \<Longrightarrow> queue_inv q \<and> queue_len q \<le> gq_max_queue_size q"
proof (induction rule: queue_reach.induct)
  case (qr_new n)
  show ?case by (simp add: queue_new_inv queue_len_abs queue_new_abs)
next
  case (qr_enqueue q now p peer m q' r)
  then show ?case
    by (auto simp: enqueue_cases gq.put_inv queue_len_abs gq.put_abs length_after split: if_splits)
next
  case (qr_dequeue q q' r)
  then have "q' = fst (dequeue q)" by simp
  with qr_dequeue.IH dequeue_inv [of q] dequeue_max [of q] dequeue_shorter [of q] show ?case
    by (auto simp: queue_len_abs)
qed

text \<open>Enqueuing a list of messages, and what the abstract queue then holds.\<close>

fun enqueue_all ::
  "(int \<times> MessagePriority \<times> string \<times> P2pMessage) list \<Rightarrow> GossipQueue \<Rightarrow> GossipQueue \<times> unit result list" where
  "enqueue_all [] q = (q, [])"
| "enqueue_all ((now, p, peer, m) # ms) q =
     (let (q1, r) = enqueue now p peer m q; (q2, rs) = enqueue_all ms q1 in (q2, r # rs))"

fun stamped :: "u64 \<Rightarrow> (int \<times> MessagePriority \<times> string \<times> P2pMessage) list \<Rightarrow> (MessagePriority \<times> GossipMessage) list" where
  "stamped n [] = []"
| "stamped n ((now, p, peer, m) # ms) = (p, message_of now peer m n) # stamped (n + 1) ms"

definition of_priority :: "('p \<times> 'e) list \<Rightarrow> 'p \<Rightarrow> 'e list" where
  "of_priority es p = map snd (filter (\<lambda>x. fst x = p) es)"

lemma of_priority_Cons: "of_priority ((p, e) # es) = (of_priority es)(p := e # of_priority es p)"
  by (rule ext) (simp add: of_priority_def)

lemma enqueue_all_abs:
  assumes "queue_inv q" and "queue_len q + length ms \<le> gq_max_queue_size q" and "queue_abs q = blocks f"
  shows "set (snd (enqueue_all ms q)) \<subseteq> {Inr ()} \<and> queue_inv (fst (enqueue_all ms q)) \<and>
    queue_abs (fst (enqueue_all ms q)) = blocks (\<lambda>p. f p @ of_priority (stamped (gq_sequence_counter q) ms) p)"
  using assms
proof (induction ms arbitrary: q f)
  case Nil
  then show ?case by (simp add: of_priority_def)
next
  case (Cons x ms)
  obtain now p peer m where x: "x = (now, p, peer, m)" by (cases x)
  let ?e = "message_of now peer m (gq_sequence_counter q)"
  let ?q = "push_message p ?e (q\<lparr>gq_sequence_counter := gq_sequence_counter q + 1\<rparr>)"
  have e: "enqueue now p peer m q = (?q, Inr ())"
    using Cons.prems(2) by (simp add: enqueue_cases [OF Cons.prems(1)])
  have inv: "queue_inv ?q" using Cons.prems(1) by (simp add: gq.put_inv)
  have abs: "queue_abs ?q = blocks (f(p := f p @ [?e]))"
    using Cons.prems(1,3) by (simp add: gq.put_abs after_blocks)
  have "queue_len ?q + length ms \<le> gq_max_queue_size ?q"
    using Cons.prems(1,2) by (simp add: queue_len_abs inv gq.put_abs length_after)
  from Cons.IH [OF inv this abs]
  have "blocks (\<lambda>p'. (f(p := f p @ [?e])) p' @ of_priority (stamped (gq_sequence_counter ?q) ms) p') =
      blocks (\<lambda>p'. f p' @ of_priority (stamped (gq_sequence_counter q) (x # ms)) p')"
    unfolding blocks_def x by (simp add: of_priority_def push_message_def)
  with Cons.IH [OF inv \<open>queue_len ?q + length ms \<le> gq_max_queue_size ?q\<close> abs] e x
  show ?case by (simp add: Let_def case_prod_unfold)
qed

section \<open>Properties\<close>

text \<open>
  C29: a priority queue.  In every state the queue can reach, it never panics and never holds
  more than its maximum; a message is accepted exactly while there is room, gets the running
  sequence number, and goes behind the messages of its own and of higher priorities; taking one
  out gives the first message of the highest priority that has any, and nothing only when the
  queue is empty.
\<close>

theorem queue_refinement:
  assumes "queue_reach q"
  shows "queue_len q = length (queue_abs q) \<and> queue_len q \<le> gq_max_queue_size q \<and>
    (case enqueue now p peer m q of (q', r) \<Rightarrow>
       if queue_len q < gq_max_queue_size q
       then r = Inr () \<and> queue_abs q' = after p (message_of now peer m (gq_sequence_counter q)) (queue_abs q)
       else r = Inl (Err ''Gossip queue full'') \<and> q' = q) \<and>
    (case dequeue q of (q', r) \<Rightarrow>
       (case queue_abs q of [] \<Rightarrow> r = None \<and> q' = q | (_, e) # rest \<Rightarrow> r = Some e \<and> queue_abs q' = rest))"
proof -
  from queue_reach_inv [OF assms] have inv: "queue_inv q" "queue_len q \<le> gq_max_queue_size q" by auto
  have "case dequeue q of (q', r) \<Rightarrow>
       (case queue_abs q of [] \<Rightarrow> r = None \<and> q' = q | (_, e) # rest \<Rightarrow> r = Some e \<and> queue_abs q' = rest)"
    using gq.get_first [OF inv(1)] by (cases "queue_abs q") (auto simp: dequeue_none inv(1) split: prod.splits)
  with inv show ?thesis
    by (simp add: queue_len_abs enqueue_cases gq.put_abs)
qed

theorem queue_refinement_witness:
  "dequeue (GossipQueue_new 2) = (GossipQueue_new 2, None) \<and>
   snd (enqueue 0 High ''p'' (LedgerRequest 1) (GossipQueue_new 0)) = Inl (Err ''Gossip queue full'')"
  using queue_refinement [OF qr_new [of 2], where now = 0 and p = High and peer = "''p''" and m = "LedgerRequest 1"]
    queue_refinement [OF qr_new [of 0], where now = 0 and p = High and peer = "''p''" and m = "LedgerRequest 1"]
  by (auto simp: queue_new_abs GossipQueue_new_def [of 0] split: prod.splits)

text \<open>
  C30: delivery order.  Whatever messages are put into a new queue that has room for them, all
  are accepted, and taking them out gives the critical ones, then the high, the normal and the
  low ones, each group in the order of arrival, numbered by arrival.
\<close>

theorem queue_delivery_order:
  assumes "length ms \<le> n"
  shows "set (snd (enqueue_all ms (GossipQueue_new n))) \<subseteq> {Inr ()} \<and>
    drain_with dequeue (length ms) (fst (enqueue_all ms (GossipQueue_new n))) =
      concat (map (of_priority (stamped 0 ms)) [Critical, High, Normal, Low])"
proof -
  let ?q = "GossipQueue_new n"
  have init: "gq_max_queue_size ?q = n" "gq_sequence_counter ?q = 0" by (simp_all add: GossipQueue_new_def)
  have "queue_len ?q = 0" by (simp add: queue_len_abs queue_new_inv queue_new_abs)
  then have "queue_len ?q + length ms \<le> gq_max_queue_size ?q" using assms init by simp
  moreover have "queue_abs ?q = blocks (\<lambda>p. [])" by (simp add: queue_new_abs blocks_def)
  ultimately have e: "set (snd (enqueue_all ms ?q)) \<subseteq> {Inr ()}" "queue_inv (fst (enqueue_all ms ?q))"
    "queue_abs (fst (enqueue_all ms ?q)) = blocks (of_priority (stamped 0 ms))"
    using enqueue_all_abs [OF queue_new_inv [of n], of ms "\<lambda>p. []"] init by simp_all
  have s: "length (stamped k ms) = length ms" for k
    by (induction k ms rule: stamped.induct) simp_all
  have "length (blocks (of_priority es)) = length es" for es :: "(MessagePriority \<times> GossipMessage) list"
  proof (induction es)
    case (Cons x es)
    obtain p e where "x = (p, e)" by (cases x)
    with Cons.IH show ?case by (cases p) (simp_all add: blocks_def of_priority_def)
  qed (simp add: blocks_def of_priority_def)
  with e s gq.drain_abs [OF e(2), of "length ms"] show ?thesis
    by (simp add: blocks_def o_def)
qed

theorem queue_delivery_order_witness:
  "map gm_sequence (drain_with dequeue 3 (fst (enqueue_all
     [(0, Low, ''p'', LedgerRequest 1), (1, High, ''p'', LedgerRequest 2), (2, Low, ''p'', LedgerRequest 3)]
     (GossipQueue_new 3)))) = [1, 0, 2]"
  using queue_delivery_order [of "[(0, Low, ''p'', LedgerRequest 1), (1, High, ''p'', LedgerRequest 2),
      (2, Low, ''p'', LedgerRequest 3)]" 3]
  by (simp add: of_priority_def message_of_def numeral_3_eq_3 del: drain_with.simps enqueue_all.simps)

text \<open>
  Weights.  The weight of a tier name is the weight that billing gives the tier, and a
  higher weight never lowers the priority of a message; with weight 1, which the node uses for
  everything it sends, no message is critical.
\<close>

lemma weight_lemmas: "(3 :: u8) \<le> w \<Longrightarrow> w \<le> w' \<Longrightarrow> 3 \<le> w'" "(2 :: u8) \<le> w \<Longrightarrow> w \<le> w' \<Longrightarrow> 2 \<le> w'"
  by (rule order_trans; assumption)+

theorem weight_priority:
  assumes "w \<le> w'"
  shows "subscription_weight_from_tier (tier_name t) = tier_weight t \<and>
    get_message_priority m w \<le> get_message_priority m w' \<and> get_message_priority m 1 < Critical"
proof (intro conjI)
  show "subscription_weight_from_tier (tier_name t) = tier_weight t"
    by (cases t) (simp_all add: subscription_weight_from_tier_def)
  show "get_message_priority m w \<le> get_message_priority m w'"
    using weight_lemmas [OF _ assms] by (cases m) (auto simp: less_imp_le)
  have "\<not> (3 :: u8) \<le> 1" "\<not> (2 :: u8) \<le> 1" by (simp_all add: word_le_nat_alt)
  then show "get_message_priority m 1 < Critical" by (cases m) simp_all
qed

theorem weight_priority_witness:
  "get_message_priority (ChunkRequest (ChunkId [0]) []) (tier_weight Archive) \<le>
   get_message_priority (ChunkRequest (ChunkId [0]) []) (tier_weight Premium)"
  using weight_priority [of 1 3 Archive "ChunkRequest (ChunkId [0]) []"] by simp

lemma retain_after_drop: "retain_after c n xs = drop (n - c) xs"
proof (induction xs arbitrary: c)
  case (Cons x xs)
  show ?case
  proof (cases "n - c")
    case 0
    with Cons.IH [of "c + 1"] show ?thesis by (simp add: Let_def)
  next
    case (Suc k)
    then have "n - Suc c = k" "\<not> n < Suc c" by simp_all
    with Suc Cons.IH [of "c + 1"] show ?thesis by (simp add: Let_def)
  qed
qed simp

lemma check_and_mark_cases:
  "check_and_mark seq s =
    (if seq \<in> set (sn_seen s) then (s, False)
     else (s\<lparr>sn_seen := seq # (if length (sn_seen s) \<ge> sn_max_size s
                                then drop (sn_max_size s div 2) (sn_seen s) else sn_seen s)\<rparr>, True))"
  by (simp add: check_and_mark_def retain_after_drop)

text \<open>
  Sets that a sequence of messages (latest first) can leave.  A hash set has no order, so
  \<open>seen_order\<close> puts it in any order before the next call.
\<close>

inductive seen_run :: "nat \<Rightarrow> u64 list \<Rightarrow> SeenMessages \<Rightarrow> bool" for n :: nat where
  seen_start: "seen_run n [] (SeenMessages_new n)"
| seen_mark: "seen_run n xs s \<Longrightarrow> seen_run n (x # xs) (fst (check_and_mark x s))"
| seen_order: "seen_run n xs s \<Longrightarrow> distinct ys \<Longrightarrow> set ys = set (sn_seen s) \<Longrightarrow> seen_run n xs (s\<lparr>sn_seen := ys\<rparr>)"

definition seen_inv :: "nat \<Rightarrow> u64 list \<Rightarrow> SeenMessages \<Rightarrow> bool" where
  "seen_inv n xs s \<longleftrightarrow> sn_max_size s = n \<and> distinct (sn_seen s) \<and> set (sn_seen s) \<subseteq> set xs \<and>
     (xs \<noteq> [] \<longrightarrow> hd xs \<in> set (sn_seen s)) \<and>
     (if 2 \<le> n then length (sn_seen s) \<le> n else set (sn_seen s) = set xs)"

lemma seen_inv_mark:
  assumes "seen_inv n xs s"
  shows "seen_inv n (x # xs) (fst (check_and_mark x s))"
proof -
  have "n div 2 = 0" if "\<not> 2 \<le> n" using that by simp
  with assms show ?thesis
    by (auto simp: seen_inv_def check_and_mark_cases dest: in_set_dropD split: if_splits)
qed

lemma seen_run_inv: "seen_run n xs s \<Longrightarrow> seen_inv n xs s"
proof (induction rule: seen_run.induct)
  case seen_start
  show ?case by (simp add: seen_inv_def SeenMessages_new_def)
next
  case (seen_mark xs s x)
  then show ?case by (intro seen_inv_mark)
next
  case (seen_order xs s ys)
  have "length ys = length (sn_seen s)"
    using seen_order by (metis distinct_card seen_inv_def)
  with seen_order show ?case by (simp add: seen_inv_def)
qed

text \<open>The first element in the order is forgotten by the next new number, when the set is full.\<close>

lemma full_forgets:
  assumes "2 \<le> sn_max_size s" and "sn_max_size s \<le> length (sn_seen s)" and "sn_seen s = x # ys"
    and "distinct (sn_seen s)" and "seq \<notin> set (sn_seen s)"
  shows "\<not> seen_contains x (fst (check_and_mark seq s))"
proof -
  obtain k where "sn_max_size s div 2 = Suc k" using assms(1) by (cases "sn_max_size s div 2") auto
  with assms show ?thesis
    by (auto simp: check_and_mark_cases seen_contains_def dest: in_set_dropD)
qed

text \<open>
  C32: seen messages, after any sequence of calls and for any order in which the hash set is
  visited.  Each call answers whether the number was not there, and the number is there
  afterwards.  Only numbers that arrived are there.  With a limit of at least 2 the set never
  exceeds it; with a limit of 0 or 1 nothing is ever forgotten and the set grows with every new
  number.  A full set forgets, and which numbers is open: for each number in it, the last one
  included, there is an order in which the next new number makes it forgotten, and a repetition
  of it is then taken for new.
\<close>

theorem seen_messages:
  assumes "seen_run n xs s"
  shows "snd (check_and_mark seq s) = (\<not> seen_contains seq s) \<and>
    seen_contains seq (fst (check_and_mark seq s)) \<and>
    distinct (sn_seen s) \<and> set (sn_seen s) \<subseteq> set xs \<and>
    (2 \<le> n \<longrightarrow> length (sn_seen s) \<le> n) \<and>
    (n < 2 \<longrightarrow> set (sn_seen s) = set xs) \<and>
    (2 \<le> n \<longrightarrow> length (sn_seen s) = n \<longrightarrow> seen_contains x s \<longrightarrow> \<not> seen_contains seq s \<longrightarrow>
      (\<exists>s'. seen_run n xs s' \<and> set (sn_seen s') = set (sn_seen s) \<and>
         snd (check_and_mark x (fst (check_and_mark seq s')))))"
proof -
  note inv = seen_run_inv [OF assms, unfolded seen_inv_def]
  have "\<exists>s'. seen_run n xs s' \<and> set (sn_seen s') = set (sn_seen s) \<and>
      snd (check_and_mark x (fst (check_and_mark seq s')))"
    if "2 \<le> n" "length (sn_seen s) = n" "seen_contains x s" "\<not> seen_contains seq s"
  proof -
    let ?s = "s\<lparr>sn_seen := x # remove1 x (sn_seen s)\<rparr>"
    have order: "distinct (x # remove1 x (sn_seen s))" "set (x # remove1 x (sn_seen s)) = set (sn_seen s)"
      using inv that(3) by (auto simp: seen_contains_def)
    have len: "length (x # remove1 x (sn_seen s)) = n"
      using that(1-3) by (simp add: seen_contains_def length_remove1)
    have "\<not> seen_contains x (fst (check_and_mark seq ?s))"
      using inv that order len by (intro full_forgets) (auto simp: seen_contains_def)
    then have "snd (check_and_mark x (fst (check_and_mark seq ?s)))"
      by (simp add: check_and_mark_cases seen_contains_def)
    moreover have "seen_run n xs ?s" by (rule seen_order [OF assms order])
    ultimately show ?thesis using order(2) by (intro exI [of _ ?s]) simp
  qed
  then show ?thesis using inv by (auto simp: check_and_mark_cases seen_contains_def)
qed

theorem seen_messages_witness:
  "\<exists>s'. seen_run 2 [8, 7] s' \<and> set (sn_seen s') = {7, 8} \<and>
     snd (check_and_mark 8 (fst (check_and_mark 9 s')))"
proof -
  let ?s = "fst (check_and_mark 8 (fst (check_and_mark 7 (SeenMessages_new 2))))"
  have "seen_run 2 [8, 7] ?s" by (intro seen_run.intros)
  from seen_messages [OF this, of 9 8]
  have "\<exists>s'. seen_run 2 [8, 7] s' \<and> set (sn_seen s') = set (sn_seen ?s) \<and>
     snd (check_and_mark 8 (fst (check_and_mark 9 s')))"
    by (simp add: check_and_mark_cases SeenMessages_new_def seen_contains_def)
  then show ?thesis by (simp add: check_and_mark_cases SeenMessages_new_def insert_commute)
qed

end
