(* ===== verification/Heartbeat.thy ===== *)
theory Heartbeat
  imports Gossip
begin

text \<open>
  p2p/src/heartbeat.rs: the liveness of peers.  An \<open>Instant\<close> is a number of nanoseconds;
  \<open>duration_since\<close> saturates at zero, as the standard library specifies.  Each reading of the
  clock is an argument.
\<close>

section \<open>Peers\<close>

datatype PeerStatus = Alive | Suspect | Dead

record PeerState =
  pe_peer_id :: string
  pe_status :: PeerStatus
  pe_last_seen :: nat
  pe_available_space_bytes :: u64
  pe_missed_heartbeats :: u32
  pe_consecutive_failures :: u32

definition PeerState_new :: "nat \<Rightarrow> string \<Rightarrow> PeerState" where
  "PeerState_new now peer_id =
     \<lparr>pe_peer_id = peer_id, pe_status = Alive, pe_last_seen = now, pe_available_space_bytes = 0,
      pe_missed_heartbeats = 0, pe_consecutive_failures = 0\<rparr>"

record HeartbeatConfig =
  hc_interval_secs :: u64
  hc_max_missed :: u32
  hc_suspect_threshold :: u32

definition HeartbeatConfig_default :: HeartbeatConfig where
  "HeartbeatConfig_default = \<lparr>hc_interval_secs = 900, hc_max_missed = 3, hc_suspect_threshold = 1\<rparr>"

datatype PeerEvent = PeerAlive string | PeerSuspect string | PeerDied string | PeerRecovered string

section \<open>The manager\<close>

record HeartbeatManager =
  hb_config :: HeartbeatConfig
  hb_peers :: "(string, PeerState) hmap"
  hb_node_id :: string
  hb_available_space :: u64

definition HeartbeatManager_new :: "string \<Rightarrow> HeartbeatConfig \<Rightarrow> HeartbeatManager" where
  "HeartbeatManager_new node_id config =
     \<lparr>hb_config = config, hb_peers = hm_empty, hb_node_id = node_id, hb_available_space = 0\<rparr>"

definition create_heartbeat :: "int \<Rightarrow> HeartbeatManager \<Rightarrow> P2pMessage" where
  "create_heartbeat now_secs m = Heartbeat (hb_node_id m) (word_of_int now_secs) (hb_available_space m)"

text \<open>\<open>entry(key).or_insert_with(new)\<close>.\<close>

definition or_insert :: "'k \<Rightarrow> 'v \<Rightarrow> ('k, 'v) hmap \<Rightarrow> ('k, 'v) hmap" where
  "or_insert k v m = (case hm_get m k of None \<Rightarrow> hm_insert k v m | Some _ \<Rightarrow> m)"

fun heartbeat_status :: "string \<Rightarrow> PeerState \<Rightarrow> PeerState \<times> PeerEvent" where
  "heartbeat_status node_id p =
     (case pe_status p of
        Alive \<Rightarrow> (p, PeerAlive node_id)
      | _ \<Rightarrow> (p\<lparr>pe_status := Alive, pe_missed_heartbeats := 0\<rparr>, PeerRecovered node_id))"

declare heartbeat_status.simps [simp del]

definition process_heartbeat ::
  "nat \<Rightarrow> nat \<Rightarrow> string \<Rightarrow> u64 \<Rightarrow> u64 \<Rightarrow> HeartbeatManager \<Rightarrow> HeartbeatManager \<times> PeerEvent" where
  "process_heartbeat now now_new node_id timestamp available_space m =
     (let peers = or_insert node_id (PeerState_new now_new node_id) (hb_peers m);
          peer = the (hm_get peers node_id);
          peer1 = peer\<lparr>pe_last_seen := now, pe_available_space_bytes := available_space,
                       pe_consecutive_failures := 0\<rparr>;
          (peer2, event) = heartbeat_status node_id peer1
      in (m\<lparr>hb_peers := hm_insert node_id peer2 peers\<rparr>, event))"

text \<open>The body of the loop in \<open>tick\<close>, for one peer.\<close>

definition tick_peer :: "HeartbeatConfig \<Rightarrow> nat \<Rightarrow> PeerState \<Rightarrow> PeerState \<times> PeerEvent list" where
  "tick_peer cfg now p =
     (let elapsed = now - pe_last_seen p; interval = unat (hc_interval_secs cfg) * 1000000000 in
      if elapsed > interval then
        let p1 = p\<lparr>pe_missed_heartbeats := pe_missed_heartbeats p + 1\<rparr> in
        (case pe_status p1 of
           Alive \<Rightarrow>
             (if pe_missed_heartbeats p1 \<ge> hc_suspect_threshold cfg
              then (p1\<lparr>pe_status := Suspect\<rparr>, [PeerSuspect (pe_peer_id p1)]) else (p1, []))
         | Suspect \<Rightarrow>
             (if pe_missed_heartbeats p1 \<ge> hc_max_missed cfg
              then (p1\<lparr>pe_status := Dead\<rparr>, [PeerDied (pe_peer_id p1)]) else (p1, []))
         | Dead \<Rightarrow> (p1\<lparr>pe_consecutive_failures := pe_consecutive_failures p1 + 1\<rparr>, []))
      else (p, []))"

definition tick :: "nat \<Rightarrow> HeartbeatManager \<Rightarrow> HeartbeatManager \<times> PeerEvent list" where
  "tick now m =
     (m\<lparr>hb_peers := map (\<lambda>(k, p). (k, fst (tick_peer (hb_config m) now p))) (hb_peers m)\<rparr>,
      concat (map (\<lambda>(k, p). snd (tick_peer (hb_config m) now p)) (hb_peers m)))"

definition get_dead_peers :: "HeartbeatManager \<Rightarrow> PeerState list" where
  "get_dead_peers m = filter (\<lambda>p. pe_status p = Dead) (hm_values (hb_peers m))"

definition alive_count :: "HeartbeatManager \<Rightarrow> nat" where
  "alive_count m = length (filter (\<lambda>p. pe_status p = Alive) (hm_values (hb_peers m)))"

definition set_available_space :: "u64 \<Rightarrow> HeartbeatManager \<Rightarrow> HeartbeatManager" where
  "set_available_space space m = m\<lparr>hb_available_space := space\<rparr>"

definition register_peer :: "nat \<Rightarrow> string \<Rightarrow> HeartbeatManager \<Rightarrow> HeartbeatManager" where
  "register_peer now peer_id m = m\<lparr>hb_peers := or_insert peer_id (PeerState_new now peer_id) (hb_peers m)\<rparr>"

section \<open>Reachable managers\<close>

inductive hb_reach :: "HeartbeatConfig \<Rightarrow> HeartbeatManager \<Rightarrow> bool" for cfg :: HeartbeatConfig where
  hb_new: "hb_reach cfg (HeartbeatManager_new n cfg)"
| hb_beat: "hb_reach cfg m \<Longrightarrow> hb_reach cfg (fst (process_heartbeat t t' node ts space m))"
| hb_tick: "hb_reach cfg m \<Longrightarrow> hb_reach cfg (fst (tick t m))"
| hb_register: "hb_reach cfg m \<Longrightarrow> hb_reach cfg (register_peer t node m)"
| hb_space: "hb_reach cfg m \<Longrightarrow> hb_reach cfg (set_available_space s m)"

text \<open>With a threshold of at most 1 an alive peer has no missed heartbeat.\<close>

definition peer_ok :: "HeartbeatConfig \<Rightarrow> string \<Rightarrow> PeerState \<Rightarrow> bool" where
  "peer_ok cfg k p \<longleftrightarrow> pe_peer_id p = k \<and>
     (hc_suspect_threshold cfg \<le> 1 \<and> pe_status p = Alive \<longrightarrow> pe_missed_heartbeats p = 0)"

definition hb_inv :: "HeartbeatConfig \<Rightarrow> HeartbeatManager \<Rightarrow> bool" where
  "hb_inv cfg m \<longleftrightarrow> hb_config m = cfg \<and> hm_inv (hb_peers m) \<and>
     (\<forall>k p. hm_get (hb_peers m) k = Some p \<longrightarrow> peer_ok cfg k p)"

lemma peer_ok_new [simp]: "peer_ok cfg k (PeerState_new t k)"
  by (simp add: peer_ok_def PeerState_new_def)

lemma u32_threshold: "(h :: u32) \<le> 1 \<Longrightarrow> h \<le> 0 + 1"
  by simp

lemma tick_peer_ok: "peer_ok cfg k p \<Longrightarrow> peer_ok cfg k (fst (tick_peer cfg now p))"
  by (auto simp: peer_ok_def tick_peer_def Let_def split: PeerStatus.splits)

lemma or_insert_inv: "hm_inv m \<Longrightarrow> hm_inv (or_insert k v m)"
  by (auto simp: or_insert_def hm.inv_ins split: option.split)

lemma or_insert_get: "hm_get (or_insert k v m) k' =
  (if k' = k then (case hm_get m k of None \<Rightarrow> Some v | Some w \<Rightarrow> Some w) else hm_get m k')"
  by (auto simp: or_insert_def hmap_simps split: option.split)

lemma tick_get: "hm_get (hb_peers (fst (tick now m))) k =
    map_option (\<lambda>p. fst (tick_peer (hb_config m) now p)) (hm_get (hb_peers m) k)"
  by (simp add: tick_def hmap_simps)

lemma beat_get: "hm_get (hb_peers (fst (process_heartbeat t t' node ts space m))) k =
    (if k = node then Some (fst (heartbeat_status node
        ((case hm_get (hb_peers m) node of None \<Rightarrow> PeerState_new t' node | Some p \<Rightarrow> p)
           \<lparr>pe_last_seen := t, pe_available_space_bytes := space, pe_consecutive_failures := 0\<rparr>)))
     else hm_get (hb_peers m) k)"
  by (cases "hm_get (hb_peers m) node")
    (simp_all add: process_heartbeat_def Let_def case_prod_unfold hmap_simps or_insert_get)

lemma beat_config [simp]: "hb_config (fst (process_heartbeat t t' node ts space m)) = hb_config m"
  and tick_config [simp]: "hb_config (fst (tick now m)) = hb_config m"
  by (simp_all add: process_heartbeat_def tick_def Let_def case_prod_unfold)

lemma beat_peer_ok: "peer_ok cfg node p \<Longrightarrow>
    peer_ok cfg node (fst (heartbeat_status node (p\<lparr>pe_last_seen := t, pe_available_space_bytes := s,
      pe_consecutive_failures := 0\<rparr>)))"
  by (auto simp: peer_ok_def heartbeat_status.simps split: PeerStatus.splits)

lemma hb_reach_inv: "hb_reach cfg m \<Longrightarrow> hb_inv cfg m"
proof (induction rule: hb_reach.induct)
  case (hb_new n)
  show ?case by (auto simp: hb_inv_def HeartbeatManager_new_def hmap_simps intro: hm.inv_empty)
next
  case (hb_beat m t t' node ts space)
  have "hm_inv (hb_peers (fst (process_heartbeat t t' node ts space m)))"
    using hb_beat.IH
    by (simp add: process_heartbeat_def Let_def case_prod_unfold hb_inv_def hm.inv_ins or_insert_inv)
  moreover have "peer_ok cfg node (case hm_get (hb_peers m) node of None \<Rightarrow> PeerState_new t' node | Some p \<Rightarrow> p)"
    using hb_beat.IH by (auto simp: hb_inv_def split: option.split)
  ultimately show ?case
    using hb_beat.IH by (auto simp: hb_inv_def beat_get beat_peer_ok split: if_splits)
next
  case (hb_tick m t)
  have "hm_inv (hb_peers (fst (tick t m)))"
    using hb_tick.IH by (simp add: tick_def hb_inv_def hm_inv_map_values)
  with hb_tick.IH show ?case by (auto simp: hb_inv_def tick_get tick_peer_ok)
next
  case (hb_register m t node)
  then show ?case
    by (auto simp: hb_inv_def register_peer_def or_insert_inv or_insert_get split: if_splits option.splits)
next
  case (hb_space m s)
  then show ?case by (simp add: hb_inv_def set_available_space_def)
qed

section \<open>Silence\<close>

text \<open>The number of ticks in a list that find the peer overdue.\<close>

definition overdue :: "HeartbeatConfig \<Rightarrow> nat \<Rightarrow> nat \<Rightarrow> bool" where
  "overdue cfg seen now \<longleftrightarrow> now - seen > unat (hc_interval_secs cfg) * 1000000000"

fun ticks :: "nat list \<Rightarrow> HeartbeatManager \<Rightarrow> HeartbeatManager \<times> PeerEvent list" where
  "ticks [] m = (m, [])"
| "ticks (t # ts) m = (let (m1, e1) = tick t m; (m2, e2) = ticks ts m1 in (m2, e1 @ e2))"

definition silent_status :: "HeartbeatConfig \<Rightarrow> nat \<Rightarrow> PeerStatus" where
  "silent_status cfg k = (if k = 0 then Alive else if k < max 2 (unat (hc_max_missed cfg)) then Suspect else Dead)"

definition silent_for :: "HeartbeatConfig \<Rightarrow> nat \<Rightarrow> PeerState \<Rightarrow> bool" where
  "silent_for cfg k p \<longleftrightarrow> pe_missed_heartbeats p = of_nat k \<and> pe_status p = silent_status cfg k \<and>
     pe_consecutive_failures p = of_nat (k - max 2 (unat (hc_max_missed cfg)))"

lemma u32_le_of_nat: "k < 2 ^ 32 \<Longrightarrow> (w :: u32) \<le> of_nat k \<longleftrightarrow> unat w \<le> k"
  by (simp add: word_le_nat_alt unsigned_of_nat take_bit_nat_eq_self)

definition silent_events :: "HeartbeatConfig \<Rightarrow> nat \<Rightarrow> PeerState \<Rightarrow> PeerEvent list" where
  "silent_events cfg k p =
     (if k = 0 then [PeerSuspect (pe_peer_id p)]
      else if k + 1 = max 2 (unat (hc_max_missed cfg)) then [PeerDied (pe_peer_id p)] else [])"

lemma silent_step:
  assumes "hc_suspect_threshold cfg \<le> 1" and "silent_for cfg k p" and "overdue cfg (pe_last_seen p) t"
    and "k + 1 < 2 ^ 32"
  shows "silent_for cfg (k + 1) (fst (tick_peer cfg t p))"
    and "snd (tick_peer cfg t p) = silent_events cfg k p"
proof -
  let ?M = "unat (hc_max_missed cfg)"
  define x where "x = pe_missed_heartbeats p + 1"
  note st = assms(2) [unfolded silent_for_def silent_status_def]
  have x: "of_nat (k + 1) = x" "1 + of_nat k = x" "of_nat k + 1 = x" using st by (simp_all add: x_def)
  have M: "hc_max_missed cfg \<le> x \<longleftrightarrow> ?M \<le> k + 1"
    using u32_le_of_nat [OF assms(4)] by (simp only: x)
  have "unat (hc_suspect_threshold cfg) \<le> 1"
    using assms(1) by (simp add: word_le_nat_alt)
  then have T: "hc_suspect_threshold cfg \<le> x"
    using u32_le_of_nat [OF assms(4), of "hc_suspect_threshold cfg"] by (simp only: x)
  have od: "unat (hc_interval_secs cfg) * 1000000000 < t - pe_last_seen p"
    using assms(3) by (simp add: overdue_def)
  note tick = tick_peer_def Let_def x_def [symmetric] silent_for_def silent_status_def silent_events_def
  have "silent_for cfg (k + 1) (fst (tick_peer cfg t p)) \<and> snd (tick_peer cfg t p) = silent_events cfg k p"
  proof (cases "pe_status p")
    case Alive
    with st have "k = 0" "pe_consecutive_failures p = 0" by (auto split: if_splits)
    with Alive od T x show ?thesis by (simp add: tick)
  next
    case Suspect
    with st have k: "0 < k" "k < max 2 ?M" "pe_consecutive_failures p = 0" by (auto split: if_splits)
    with Suspect od M x show ?thesis by (cases "?M \<le> k + 1") (auto simp: tick max_def)
  next
    case Dead
    with st have k: "max 2 ?M \<le> k" "pe_consecutive_failures p = of_nat (k - max 2 ?M)"
      by (auto split: if_splits)
    then have "k + 1 - max 2 ?M = Suc (k - max 2 ?M)" using Suc_diff_le [OF k(1)] by simp
    with Dead od k x show ?thesis by (auto simp: tick)
  qed
  then show "silent_for cfg (k + 1) (fst (tick_peer cfg t p))"
    "snd (tick_peer cfg t p) = silent_events cfg k p" by simp_all
qed

lemma tick_not_overdue: "\<not> overdue cfg (pe_last_seen p) t \<Longrightarrow> tick_peer cfg t p = (p, [])"
  by (simp add: tick_peer_def overdue_def Let_def)

lemma tick_keeps [simp]: "pe_last_seen (fst (tick_peer cfg t p)) = pe_last_seen p"
    "pe_peer_id (fst (tick_peer cfg t p)) = pe_peer_id p"
  by (simp_all add: tick_peer_def Let_def split: PeerStatus.splits)

text \<open>The events of one peer in a tick of the manager.\<close>

lemma tick_events_of:
  assumes "distinct (map fst xs)" and "\<forall>(k, p) \<in> set xs. pe_peer_id p = k"
  shows "filter (\<lambda>e. e = PeerDied n) (concat (map (\<lambda>(k, p). snd (tick_peer cfg t p)) xs)) =
    (case map_of xs n of None \<Rightarrow> [] | Some p \<Rightarrow> filter (\<lambda>e. e = PeerDied n) (snd (tick_peer cfg t p)))"
  using assms
proof (induction xs)
  case (Cons x xs)
  obtain k p where x: "x = (k, p)" by (cases x)
  have other: "filter (\<lambda>e. e = PeerDied n) (snd (tick_peer cfg t p)) = []" if "k \<noteq> n"
    using that Cons.prems(2) x by (auto simp: tick_peer_def Let_def split: PeerStatus.splits)
  have "map_of xs k = None" using Cons.prems(1) x by (simp add: map_of_eq_None_iff)
  with Cons other x show ?case by auto
qed simp

lemma tick_died:
  assumes "hb_inv cfg m" and "hm_get (hb_peers m) n = Some p"
  shows "filter (\<lambda>e. e = PeerDied n) (snd (tick t m)) = filter (\<lambda>e. e = PeerDied n) (snd (tick_peer cfg t p))"
proof -
  have "\<forall>(k, p) \<in> set (hb_peers m). pe_peer_id p = k"
    using assms(1) hm.entries_get by (fastforce simp: hb_inv_def peer_ok_def)
  with tick_events_of [of "hb_peers m" n cfg t] assms show ?thesis
    by (simp add: tick_def hb_inv_def hm_inv_def hm_get_def)
qed

lemma hb_inv_tick: "hb_inv cfg m \<Longrightarrow> hb_inv cfg (fst (tick t m))"
  by (auto simp: hb_inv_def tick_get tick_peer_ok) (simp add: tick_def hm_inv_map_values)

lemma silent_run:
  assumes "hc_suspect_threshold cfg \<le> 1" and "hb_inv cfg m" and "hm_get (hb_peers m) n = Some p"
    and "silent_for cfg k p" and "k + length ts < 2 ^ 32"
  shows "\<exists>p'. hm_get (hb_peers (fst (ticks ts m))) n = Some p' \<and>
    silent_for cfg (k + length (filter (overdue cfg (pe_last_seen p)) ts)) p' \<and>
    length (filter (\<lambda>e. e = PeerDied n) (snd (ticks ts m))) =
      (if k < max 2 (unat (hc_max_missed cfg)) \<and>
          max 2 (unat (hc_max_missed cfg)) \<le> k + length (filter (overdue cfg (pe_last_seen p)) ts) then 1 else 0)"
  using assms(2-5)
proof (induction ts arbitrary: m p k)
  case (Cons t ts)
  have cfg: "hb_config m = cfg" "pe_peer_id p = n"
    using Cons.prems(1,2) by (auto simp: hb_inv_def peer_ok_def)
  let ?m = "fst (tick t m)" and ?p = "fst (tick_peer cfg t p)"
  have get: "hm_get (hb_peers ?m) n = Some ?p" using Cons.prems(2) cfg by (simp add: tick_get)
  note inv = hb_inv_tick [OF Cons.prems(1), of t]
  note died = tick_died [OF Cons.prems(1,2), of t]
  show ?case
  proof (cases "overdue cfg (pe_last_seen p) t")
    case True
    have lim: "k + 1 < 2 ^ 32" using Cons.prems(4) by simp
    note step = silent_step [OF assms(1) Cons.prems(3) True lim]
    have "k + 1 + length ts < 2 ^ 32" using Cons.prems(4) by simp
    from Cons.IH [OF inv get step(1) this] True died step(2) cfg show ?thesis
      by (auto simp: Let_def case_prod_unfold silent_events_def)
  next
    case False
    have "k + length ts < 2 ^ 32" using Cons.prems(4) by simp
    with Cons.IH [OF inv get] False died Cons.prems(3) show ?thesis
      by (simp add: Let_def case_prod_unfold tick_not_overdue)
  qed
qed auto

text \<open>Right after a heartbeat no tick has been missed.\<close>

lemma beat_silent:
  assumes "hb_reach cfg m" and "hc_suspect_threshold cfg \<le> 1"
  shows "hb_inv cfg (fst (process_heartbeat t t' node stamp space m)) \<and>
    (\<exists>p. hm_get (hb_peers (fst (process_heartbeat t t' node stamp space m))) node = Some p \<and>
       pe_last_seen p = t \<and> silent_for cfg 0 p)"
proof -
  let ?m = "fst (process_heartbeat t t' node stamp space m)"
  have inv: "hb_inv cfg ?m" by (rule hb_reach_inv [OF hb_beat [OF assms(1)]])
  obtain p where p: "hm_get (hb_peers ?m) node = Some p" "pe_status p = Alive" "pe_last_seen p = t"
    "pe_consecutive_failures p = 0"
    by (auto simp: beat_get heartbeat_status.simps split: PeerStatus.splits)
  with inv assms(2) have "pe_missed_heartbeats p = 0" by (auto simp: hb_inv_def peer_ok_def)
  with p have "silent_for cfg 0 p" by (simp add: silent_for_def silent_status_def)
  with inv p show ?thesis by blast
qed

section \<open>Properties\<close>

text \<open>
  C33: failure detection.  With a suspect threshold of at most 1 (the default is 1), after any
  history and a heartbeat of a peer at time t, let k ticks of the following (fewer than
  \<open>2 ^ 32\<close>) come more than the interval after t, with no further heartbeat.  Then the peer is
  alive for k = 0, suspect up to \<open>max 2 max_missed\<close> ticks, and dead from then on; it is reported
  dead exactly once.  What counts is the number of ticks, not the time between them.
\<close>

theorem heartbeat_detection:
  assumes "hb_reach cfg m" and "hc_suspect_threshold cfg \<le> 1" and "length ts < 2 ^ 32"
  shows "\<exists>p. hm_get (hb_peers (fst (ticks ts (fst (process_heartbeat t t' node stamp space m))))) node = Some p \<and>
    pe_status p = silent_status cfg (length (filter (overdue cfg t) ts)) \<and>
    length (filter (\<lambda>e. e = PeerDied node) (snd (ticks ts (fst (process_heartbeat t t' node stamp space m))))) =
      (if max 2 (unat (hc_max_missed cfg)) \<le> length (filter (overdue cfg t) ts) then 1 else 0)"
proof -
  obtain p where "hb_inv cfg (fst (process_heartbeat t t' node stamp space m))"
    and "hm_get (hb_peers (fst (process_heartbeat t t' node stamp space m))) node = Some p"
    and "pe_last_seen p = t" and "silent_for cfg 0 p"
    using beat_silent [OF assms(1,2), of t t' node stamp space] by blast
  from silent_run [OF assms(2) this(1,2,4), of ts] this(3) assms(3) show ?thesis
    by (auto simp: silent_for_def)
qed

theorem heartbeat_detection_witness:
  "\<exists>p. hm_get (hb_peers (fst (ticks [900000000001, 900000000002, 900000000003]
     (fst (process_heartbeat 0 0 ''n'' 0 0 (HeartbeatManager_new ''me'' HeartbeatConfig_default)))))) ''n'' = Some p \<and>
     pe_status p = Dead"
  using heartbeat_detection [OF hb_new [of HeartbeatConfig_default "''me''"], of
      "[900000000001, 900000000002, 900000000003]" 0 0 "''n''" 0 0]
  by (auto simp: HeartbeatConfig_default_def overdue_def silent_status_def simp del: ticks.simps)

text \<open>
  Missed heartbeats are not forgotten.  A heartbeat of a peer that is alive is answered
  with \<open>PeerAlive\<close> and keeps its count of missed heartbeats: the next overdue tick makes the
  peer suspect as soon as the misses of its whole alive period reach the threshold, however
  many heartbeats came in between.  Only a peer that was suspect or dead starts again from 0.
\<close>

theorem heartbeat_keeps_count:
  assumes "hb_reach cfg m" and "hm_get (hb_peers m) node = Some p" and "overdue cfg t s"
  shows "\<exists>p'. hm_get (hb_peers (fst (process_heartbeat t t' node stamp space m))) node = Some p' \<and>
    pe_status p' = Alive \<and> pe_last_seen p' = t \<and>
    snd (process_heartbeat t t' node stamp space m) = (if pe_status p = Alive then PeerAlive node else PeerRecovered node) \<and>
    pe_missed_heartbeats p' = (if pe_status p = Alive then pe_missed_heartbeats p else 0) \<and>
    pe_status (fst (tick_peer cfg s p')) =
      (if hc_suspect_threshold cfg \<le> pe_missed_heartbeats p' + 1 then Suspect else Alive)"
proof -
  from hb_reach_inv [OF assms(1)] have cfg: "hb_config m = cfg" by (simp add: hb_inv_def)
  have ev: "snd (process_heartbeat t t' node stamp space m) =
      (if pe_status p = Alive then PeerAlive node else PeerRecovered node)"
    using assms(2)
    by (cases "pe_status p")
      (simp_all add: process_heartbeat_def Let_def case_prod_unfold or_insert_get heartbeat_status.simps)
  let ?p = "fst (heartbeat_status node (p\<lparr>pe_last_seen := t, pe_available_space_bytes := space,
      pe_consecutive_failures := 0\<rparr>))"
  have "pe_status ?p = Alive" "pe_last_seen ?p = t"
    "pe_missed_heartbeats ?p = (if pe_status p = Alive then pe_missed_heartbeats p else 0)"
    by (cases "pe_status p"; simp add: heartbeat_status.simps)+
  moreover from this assms(3) have "pe_status (fst (tick_peer cfg s ?p)) =
      (if hc_suspect_threshold cfg \<le> pe_missed_heartbeats ?p + 1 then Suspect else Alive)"
    by (simp add: tick_peer_def overdue_def Let_def)
  moreover have "hm_get (hb_peers (fst (process_heartbeat t t' node stamp space m))) node = Some ?p"
    using assms(2) by (simp add: beat_get)
  ultimately show ?thesis using ev by blast
qed

text \<open>A peer with one miss under a threshold of 2, a heartbeat, and one more miss.\<close>

definition slow_config :: HeartbeatConfig where
  "slow_config = \<lparr>hc_interval_secs = 1, hc_max_missed = 5, hc_suspect_threshold = 2\<rparr>"

theorem heartbeat_keeps_count_witness:
  "\<exists>p'. hm_get (hb_peers (fst (process_heartbeat 3000000000 0 ''n'' 0 0
        (fst (tick 2000000000 (register_peer 0 ''n'' (HeartbeatManager_new ''me'' slow_config))))))) ''n'' = Some p' \<and>
     pe_status p' = Alive \<and> pe_missed_heartbeats p' = 1 \<and>
     pe_status (fst (tick_peer slow_config 5000000000 p')) = Suspect"
proof -
  let ?m = "fst (tick 2000000000 (register_peer 0 ''n'' (HeartbeatManager_new ''me'' slow_config)))"
  have reach: "hb_reach slow_config ?m" by (intro hb_tick hb_register hb_new)
  have "\<exists>p. hm_get (hb_peers ?m) ''n'' = Some p \<and> pe_status p = Alive \<and> pe_missed_heartbeats p = 1"
    by (simp add: tick_get register_peer_def or_insert_get HeartbeatManager_new_def hmap_simps tick_peer_def
        slow_config_def PeerState_new_def Let_def word_le_nat_alt)
  then obtain p where p: "hm_get (hb_peers ?m) ''n'' = Some p" "pe_status p = Alive" "pe_missed_heartbeats p = 1"
    by blast
  have "overdue slow_config 3000000000 5000000000" by (simp add: overdue_def slow_config_def)
  moreover have "(2 :: u32) \<le> 1 + 1" by simp
  ultimately show ?thesis
    using heartbeat_keeps_count [OF reach p(1), of 3000000000 5000000000 0 0 0] p(2,3)
    by (auto simp: slow_config_def)
qed

end
