(* ===== verification/Replication.thy ===== *)
theory Replication
  imports Prelude
begin

text \<open>
  storage/src/replication.rs: how many shards of each chunk the peers hold, and which chunks
  need repair when a peer dies.  A shard count is a 64-bit \<open>usize\<close>; the sum of the counts wraps
  as it does in the release profile.
\<close>

section \<open>The state of a chunk\<close>

record ReplicationState =
  rp_chunk_id :: string
  rp_target_replicas :: u32
  rp_current_replicas :: "(string, u64) hmap"
  rp_is_complete :: bool

definition ReplicationState_new :: "string \<Rightarrow> u32 \<Rightarrow> ReplicationState" where
  "ReplicationState_new chunk_id target_replicas =
     \<lparr>rp_chunk_id = chunk_id, rp_target_replicas = target_replicas,
      rp_current_replicas = hm_empty, rp_is_complete = False\<rparr>"

definition check_replication :: "ReplicationState \<Rightarrow> bool" where
  "check_replication s \<longleftrightarrow> sum_list (hm_values (rp_current_replicas s)) \<ge> ucast (rp_target_replicas s)"

definition add_replica :: "string \<Rightarrow> u64 \<Rightarrow> ReplicationState \<Rightarrow> ReplicationState" where
  "add_replica peer_id shard_count s =
     (let s1 = s\<lparr>rp_current_replicas := hm_insert peer_id shard_count (rp_current_replicas s)\<rparr>
      in s1\<lparr>rp_is_complete := check_replication s1\<rparr>)"

definition remove_peer :: "string \<Rightarrow> ReplicationState \<Rightarrow> ReplicationState \<times> u64" where
  "remove_peer peer_id s =
     (let removed = (case hm_get (rp_current_replicas s) peer_id of None \<Rightarrow> 0 | Some n \<Rightarrow> n);
          s1 = s\<lparr>rp_current_replicas := hm_remove peer_id (rp_current_replicas s)\<rparr>
      in (s1\<lparr>rp_is_complete := check_replication s1\<rparr>, removed))"

definition peers_needing_replication :: "ReplicationState \<Rightarrow> string list" where
  "peers_needing_replication s = (if rp_is_complete s then [] else map fst (rp_current_replicas s))"

section \<open>The manager\<close>

record ReplicationManager =
  rm_states :: "(string, ReplicationState) hmap"
  rm_default_replicas :: u32

definition ReplicationManager_new :: "u32 \<Rightarrow> ReplicationManager" where
  "ReplicationManager_new default_replicas = \<lparr>rm_states = hm_empty, rm_default_replicas = default_replicas\<rparr>"

definition register_chunk :: "string \<Rightarrow> ReplicationManager \<Rightarrow> ReplicationManager" where
  "register_chunk chunk_id m =
     m\<lparr>rm_states := hm_insert chunk_id (ReplicationState_new chunk_id (rm_default_replicas m)) (rm_states m)\<rparr>"

definition record_peer_shards :: "string \<Rightarrow> string \<Rightarrow> u64 \<Rightarrow> ReplicationManager \<Rightarrow> ReplicationManager" where
  "record_peer_shards chunk_id peer_id shard_count m =
     (case hm_get (rm_states m) chunk_id of
        Some state \<Rightarrow> m\<lparr>rm_states := hm_insert chunk_id (add_replica peer_id shard_count state) (rm_states m)\<rparr>
      | None \<Rightarrow> m)"

definition handle_peer_death :: "string \<Rightarrow> ReplicationManager \<Rightarrow> ReplicationManager \<times> string list" where
  "handle_peer_death dead_peer_id m =
     (m\<lparr>rm_states := map (\<lambda>(k, s). (k, fst (remove_peer dead_peer_id s))) (rm_states m)\<rparr>,
      map fst (filter (\<lambda>(k, s). let (s', removed) = remove_peer dead_peer_id s
                                in removed > 0 \<and> \<not> rp_is_complete s') (rm_states m)))"

definition chunks_needing_replication :: "ReplicationManager \<Rightarrow> ReplicationState list" where
  "chunks_needing_replication m = filter (\<lambda>s. \<not> rp_is_complete s) (hm_values (rm_states m))"

definition is_replicated :: "string \<Rightarrow> ReplicationManager \<Rightarrow> bool" where
  "is_replicated chunk_id m =
     (case hm_get (rm_states m) chunk_id of None \<Rightarrow> False | Some s \<Rightarrow> rp_is_complete s)"

definition unregister_chunk :: "string \<Rightarrow> ReplicationManager \<Rightarrow> ReplicationManager" where
  "unregister_chunk chunk_id m = m\<lparr>rm_states := hm_remove chunk_id (rm_states m)\<rparr>"

section \<open>Reachable managers\<close>

inductive rm_reach :: "u32 \<Rightarrow> ReplicationManager \<Rightarrow> bool" for n :: u32 where
  rm_new: "rm_reach n (ReplicationManager_new n)"
| rm_register: "rm_reach n m \<Longrightarrow> rm_reach n (register_chunk c m)"
| rm_record: "rm_reach n m \<Longrightarrow> rm_reach n (record_peer_shards c p k m)"
| rm_death: "rm_reach n m \<Longrightarrow> rm_reach n (fst (handle_peer_death p m))"
| rm_unregister: "rm_reach n m \<Longrightarrow> rm_reach n (unregister_chunk c m)"

definition held :: "ReplicationState \<Rightarrow> nat" where
  "held s = sum_list (map unat (hm_values (rp_current_replicas s)))"

definition rs_inv :: "u32 \<Rightarrow> string \<Rightarrow> ReplicationState \<Rightarrow> bool" where
  "rs_inv n c s \<longleftrightarrow> rp_chunk_id s = c \<and> rp_target_replicas s = n \<and> hm_inv (rp_current_replicas s) \<and>
     (0 < n \<longrightarrow> rp_is_complete s = check_replication s)"

definition rm_inv :: "u32 \<Rightarrow> ReplicationManager \<Rightarrow> bool" where
  "rm_inv n m \<longleftrightarrow> rm_default_replicas m = n \<and> hm_inv (rm_states m) \<and>
     (\<forall>c s. hm_get (rm_states m) c = Some s \<longrightarrow> rs_inv n c s)"

lemma unat_sum_list:
  fixes xs :: "u64 list"
  assumes "sum_list (map unat xs) < 2 ^ 64"
  shows "unat (sum_list xs) = sum_list (map unat xs)"
  using assms by (induction xs) (simp_all add: unat_word_ariths)

lemma unat_u32_u64: "unat (ucast (w :: u32) :: u64) = unat w"
proof -
  have "unat w < 2 ^ 64" using unsigned_less [of w, where ?'a = nat] by simp
  then show ?thesis by (simp add: unsigned_ucast_eq take_bit_nat_eq_self)
qed

text \<open>Without overflow the check compares the true number of shards with the target.\<close>

lemma check_replication_held:
  assumes "held s < 2 ^ 64"
  shows "check_replication s \<longleftrightarrow> unat (rp_target_replicas s) \<le> held s"
proof -
  have "unat (sum_list (hm_values (rp_current_replicas s))) = held s"
    using unat_sum_list assms unfolding held_def by blast
  moreover have "unat (ucast (rp_target_replicas s) :: u64) = unat (rp_target_replicas s)"
    by (rule unat_u32_u64)
  ultimately show ?thesis by (simp add: check_replication_def word_le_nat_alt)
qed

lemma rs_inv_new: "rs_inv n c (ReplicationState_new c n)"
  by (auto simp: rs_inv_def ReplicationState_new_def check_replication_def hm_values_def hm_empty_def
      hm_inv_def word_le_nat_alt unat_u32_u64 word_less_nat_alt)

lemma rs_inv_add: "rs_inv n c s \<Longrightarrow> rs_inv n c (add_replica p k s)"
  by (auto simp: rs_inv_def add_replica_def Let_def check_replication_def intro: hm.inv_ins)

lemma rs_inv_remove: "rs_inv n c s \<Longrightarrow> rs_inv n c (fst (remove_peer p s))"
  by (auto simp: rs_inv_def remove_peer_def Let_def check_replication_def intro: hm.inv_del)

lemma death_get: "hm_get (rm_states (fst (handle_peer_death p m))) c =
    map_option (\<lambda>s. fst (remove_peer p s)) (hm_get (rm_states m) c)"
  by (simp add: handle_peer_death_def hmap_simps)

lemma rm_inv_death: "rm_inv n m \<Longrightarrow> rm_inv n (fst (handle_peer_death p m))"
proof -
  assume inv: "rm_inv n m"
  then have "hm_inv (rm_states (fst (handle_peer_death p m)))"
    by (simp add: handle_peer_death_def rm_inv_def hm_inv_map_values)
  with inv show ?thesis
    by (auto simp: rm_inv_def death_get rs_inv_remove) (simp add: handle_peer_death_def)
qed

lemma rm_reach_inv: "rm_reach n m \<Longrightarrow> rm_inv n m"
proof (induction rule: rm_reach.induct)
  case rm_new
  show ?case by (auto simp: rm_inv_def ReplicationManager_new_def hmap_simps)
next
  case (rm_register m c)
  then show ?case
    by (auto simp: rm_inv_def register_chunk_def hmap_simps rs_inv_new intro: hm.inv_ins)
next
  case (rm_record m c p k)
  then show ?case
    by (auto simp: rm_inv_def record_peer_shards_def hmap_simps rs_inv_add intro: hm.inv_ins split: option.split)
next
  case (rm_death m p)
  then show ?case by (intro rm_inv_death)
next
  case (rm_unregister m c)
  then show ?case
    by (auto simp: rm_inv_def unregister_chunk_def hmap_simps intro: hm.inv_del split: if_splits)
qed

section \<open>Properties\<close>

lemma remove_peer_held:
  assumes "hm_inv (rp_current_replicas s)"
  shows "held s = held (fst (remove_peer p s)) + unat (snd (remove_peer p s))"
proof -
  let ?m = "rp_current_replicas s"
  have sum: "held t = (\<Sum>e \<in> set (rp_current_replicas t). unat (snd e))" if "hm_inv (rp_current_replicas t)" for t
    using hm_values_sum [OF that, of unat] by (simp add: held_def)
  have rest: "held (fst (remove_peer p s)) = (\<Sum>e \<in> set (hm_remove p ?m). unat (snd e))"
    using sum [of "fst (remove_peer p s)"] hm.inv_del [OF assms] by (simp add: remove_peer_def Let_def)
  show ?thesis
  proof (cases "hm_get ?m p")
    case None
    then have "set (hm_remove p ?m) = set ?m"
      using hm.entries_del [OF assms, of p] hm.keys_entries [OF assms, of p] by force
    with None rest sum [OF assms] show ?thesis by (simp add: remove_peer_def Let_def)
  next
    case (Some k)
    then have "(p, k) \<in> set ?m" by (rule hm_get_in)
    have "set ?m = insert (p, k) (set (hm_remove p ?m))"
      using hm.entries_del [OF assms, of p] Some hm.entries_get [OF assms] by auto
    moreover have "(p, k) \<notin> set (hm_remove p ?m)" using hm.entries_del [OF assms, of p] by simp
    ultimately have "(\<Sum>e \<in> set ?m. unat (snd e)) = unat k + (\<Sum>e \<in> set (hm_remove p ?m). unat (snd e))"
      by simp
    with Some rest sum [OF assms] show ?thesis by (simp add: remove_peer_def Let_def)
  qed
qed

lemma in_death_report:
  assumes "hm_inv (rm_states m)"
  shows "c \<in> set (snd (handle_peer_death p m)) \<longleftrightarrow>
    (\<exists>s. hm_get (rm_states m) c = Some s \<and> snd (remove_peer p s) > 0 \<and> \<not> rp_is_complete (fst (remove_peer p s)))"
  using hm.entries_get [OF assms] by (force simp: handle_peer_death_def Let_def case_prod_unfold)

text \<open>
  C36: repair after a death.  In a reachable manager with a positive replication target, and as
  long as the shard counts of a chunk do not overflow 64 bits, a chunk is reported replicated
  exactly if its peers hold at least the target number of shards.  The death of a peer takes its
  shards, and nobody else's, away from every chunk, and reports exactly the chunks that lost
  some shard and are below the target afterwards.
\<close>

theorem replication_repair:
  assumes "rm_reach n m" and "0 < n" and "hm_get (rm_states m) c = Some s" and "held s < 2 ^ 64"
  shows "(is_replicated c m \<longleftrightarrow> unat n \<le> held s) \<and>
    (\<exists>s'. hm_get (rm_states (fst (handle_peer_death p m))) c = Some s' \<and>
       hm_get (rp_current_replicas s') p = None \<and>
       (\<forall>q. q \<noteq> p \<longrightarrow> hm_get (rp_current_replicas s') q = hm_get (rp_current_replicas s) q) \<and>
       held s' \<le> held s \<and>
       (c \<in> set (snd (handle_peer_death p m)) \<longleftrightarrow> held s' < held s \<and> held s' < unat n))"
proof -
  from rm_reach_inv [OF assms(1)] have inv: "hm_inv (rm_states m)" "rs_inv n c s"
    using assms(3) by (auto simp: rm_inv_def)
  let ?s = "fst (remove_peer p s)"
  have inv': "rs_inv n c ?s" by (rule rs_inv_remove [OF inv(2)])
  have hold: "held s = held ?s + unat (snd (remove_peer p s))"
    using inv(2) by (intro remove_peer_held) (simp add: rs_inv_def)
  then have lim: "held ?s < 2 ^ 64" using assms(4) by simp
  have complete: "rp_is_complete ?s \<longleftrightarrow> unat n \<le> held ?s"
    using inv' assms(2) check_replication_held [OF lim] by (simp add: rs_inv_def)
  have pos: "snd (remove_peer p s) > 0 \<longleftrightarrow> held ?s < held s"
    using hold by (auto simp: word_less_nat_alt)
  have "is_replicated c m \<longleftrightarrow> unat n \<le> held s"
    using inv(2) assms(2,3) check_replication_held [OF assms(4)] by (simp add: rs_inv_def is_replicated_def)
  moreover have "c \<in> set (snd (handle_peer_death p m)) \<longleftrightarrow> held ?s < held s \<and> held ?s < unat n"
    using in_death_report [OF inv(1), of c p] assms(3) complete pos by auto
  moreover have "hm_get (rp_current_replicas ?s) q = (if q = p then None else hm_get (rp_current_replicas s) q)" for q
    by (simp add: remove_peer_def Let_def hmap_simps)
  ultimately show ?thesis using hold assms(3) by (simp add: death_get)
qed

definition sample_replication :: ReplicationManager where
  "sample_replication = record_peer_shards ''c'' ''q'' 2 (record_peer_shards ''c'' ''p'' 4
     (register_chunk ''c'' (ReplicationManager_new 6)))"

theorem replication_repair_witness:
  "is_replicated ''c'' sample_replication \<and> ''c'' \<in> set (snd (handle_peer_death ''q'' sample_replication))"
proof -
  have reach: "rm_reach 6 sample_replication"
    unfolding sample_replication_def by (intro rm_reach.intros)
  obtain s where s: "hm_get (rm_states sample_replication) ''c'' = Some s" "held s = 6"
      "held (fst (remove_peer ''q'' s)) = 4"
    by (simp add: sample_replication_def record_peer_shards_def register_chunk_def ReplicationManager_new_def
        ReplicationState_new_def add_replica_def Let_def hmap_simps held_def remove_peer_def hm_values_def)
       (simp add: hm_insert_def hm_empty_def hm_remove_def)
  from replication_repair [OF reach _ s(1), of "''q''"] s(2,3) show ?thesis
    by (auto simp: death_get s(1))
qed

end
