(* ===== verification/Repair.thy ===== *)
theory Repair
  imports Heartbeat Replication
begin

text \<open>
  From a silent peer to the chunks to repair.  The heartbeat manager (p2p/src/heartbeat.rs)
  reports dead peers, and \<open>handle_peer_death\<close> (storage/src/replication.rs) takes such a report.  No
  code of the program hands the reports over yet; \<open>died\<close> and \<open>handle_deaths\<close> specify the hand-over
  that both modules are written for: every reported death, in order.
\<close>

section \<open>Handing over the deaths\<close>

fun died :: "PeerEvent list \<Rightarrow> string list" where
  "died [] = []"
| "died (PeerDied p # evs) = p # died evs"
| "died (_ # evs) = died evs"

fun handle_deaths :: "('p \<Rightarrow> 'm \<Rightarrow> 'm \<times> 'c list) \<Rightarrow> 'p list \<Rightarrow> 'm \<Rightarrow> 'm \<times> 'c list" where
  "handle_deaths death [] m = (m, [])"
| "handle_deaths death (p # ps) m =
     (let (m1, r1) = death p m; (m2, r2) = handle_deaths death ps m1 in (m2, r1 @ r2))"

lemma set_died: "set (died evs) = {p. PeerDied p \<in> set evs}"
  by (induction evs rule: died.induct) auto

section \<open>The contract of a shard tracker\<close>

text \<open>
  \<open>shards m c p\<close> is the number of shards of the chunk \<open>c\<close> on the peer \<open>p\<close>, \<open>hold m c\<close> their sum;
  a death takes away the shards of the peer and reports the chunks that fall, or stay, below the
  target by losing some.
\<close>

locale shard_tracker =
  fixes inv :: "'m \<Rightarrow> bool"
    and tracked :: "'m \<Rightarrow> 'c \<Rightarrow> bool"
    and shards :: "'m \<Rightarrow> 'c \<Rightarrow> 'p \<Rightarrow> nat"
    and hold :: "'m \<Rightarrow> 'c \<Rightarrow> nat"
    and target :: nat
    and death :: "'p \<Rightarrow> 'm \<Rightarrow> 'm \<times> 'c list"
  assumes death_inv: "inv m \<Longrightarrow> inv (fst (death p m))"
    and death_tracked: "inv m \<Longrightarrow> tracked (fst (death p m)) c \<longleftrightarrow> tracked m c"
    and death_shards: "inv m \<Longrightarrow> shards (fst (death p m)) c q = (if q = p then 0 else shards m c q)"
    and death_hold: "inv m \<Longrightarrow> hold m c = hold (fst (death p m)) c + shards m c p"
    and death_report: "inv m \<Longrightarrow> c \<in> set (snd (death p m)) \<longleftrightarrow>
      tracked m c \<and> hold (fst (death p m)) c < hold m c \<and> hold (fst (death p m)) c < target"
begin

lemma deaths_inv: "inv m \<Longrightarrow> inv (fst (handle_deaths death ps m))"
  by (induction ps arbitrary: m) (simp_all add: Let_def case_prod_unfold death_inv)

lemma deaths_tracked: "inv m \<Longrightarrow> tracked (fst (handle_deaths death ps m)) c \<longleftrightarrow> tracked m c"
  by (induction ps arbitrary: m) (simp_all add: Let_def case_prod_unfold death_inv death_tracked)

lemma deaths_shards:
  "inv m \<Longrightarrow> shards (fst (handle_deaths death ps m)) c q = (if q \<in> set ps then 0 else shards m c q)"
  by (induction ps arbitrary: m) (simp_all add: Let_def case_prod_unfold death_inv death_shards)

lemma deaths_hold_le: "inv m \<Longrightarrow> hold (fst (handle_deaths death ps m)) c \<le> hold m c"
proof (induction ps arbitrary: m)
  case (Cons p ps)
  from Cons.IH [OF death_inv [OF Cons.prems], of p] death_hold [OF Cons.prems, of c p]
  show ?case by (simp add: Let_def case_prod_unfold)
qed simp

lemma deaths_hold:
  "inv m \<Longrightarrow> hold m c = hold (fst (handle_deaths death ps m)) c + (\<Sum>p \<in> set ps. shards m c p)"
proof (induction ps arbitrary: m)
  case (Cons p ps)
  let ?m = "fst (death p m)"
  have "(\<Sum>q \<in> set ps. shards ?m c q) = (\<Sum>q \<in> set ps - {p}. shards m c q)"
    using Cons.prems by (intro sum.mono_neutral_cong_right) (auto simp: death_shards)
  then have "(\<Sum>q \<in> set (p # ps). shards m c q) = shards m c p + (\<Sum>q \<in> set ps. shards ?m c q)"
    by (simp add: sum.insert_remove)
  with Cons.IH [OF death_inv [OF Cons.prems], of p] death_hold [OF Cons.prems, of c p]
  show ?case by (simp add: Let_def case_prod_unfold)
qed simp

text \<open>One report at the end is the same as the reports on the way.\<close>

lemma deaths_report:
  "inv m \<Longrightarrow> c \<in> set (snd (handle_deaths death ps m)) \<longleftrightarrow>
    tracked m c \<and> hold (fst (handle_deaths death ps m)) c < hold m c \<and>
    hold (fst (handle_deaths death ps m)) c < target"
proof (induction ps arbitrary: m)
  case (Cons p ps)
  note inv = death_inv [OF Cons.prems, of p]
  have "hold (fst (handle_deaths death ps (fst (death p m)))) c \<le> hold (fst (death p m)) c"
    "hold (fst (death p m)) c \<le> hold m c"
    using deaths_hold_le [OF inv] death_hold [OF Cons.prems, of c p] by simp_all
  with Cons.IH [OF inv] death_report [OF Cons.prems, of c p] death_tracked [OF Cons.prems, of p c]
  show ?case by (auto simp: Let_def case_prod_unfold)
qed simp

end

section \<open>The replication manager tracks shards\<close>

definition is_tracked :: "ReplicationManager \<Rightarrow> string \<Rightarrow> bool" where
  "is_tracked m c \<longleftrightarrow> hm_get (rm_states m) c \<noteq> None"

definition shards_on :: "ReplicationManager \<Rightarrow> string \<Rightarrow> string \<Rightarrow> nat" where
  "shards_on m c p =
     (case hm_get (rm_states m) c of
        None \<Rightarrow> 0
      | Some s \<Rightarrow> (case hm_get (rp_current_replicas s) p of None \<Rightarrow> 0 | Some k \<Rightarrow> unat k))"

definition shards_held :: "ReplicationManager \<Rightarrow> string \<Rightarrow> nat" where
  "shards_held m c = (case hm_get (rm_states m) c of None \<Rightarrow> 0 | Some s \<Rightarrow> held s)"

text \<open>A positive target, and no number of shards overflows.\<close>

definition tracker_inv :: "u32 \<Rightarrow> ReplicationManager \<Rightarrow> bool" where
  "tracker_inv n m \<longleftrightarrow> 0 < n \<and> rm_inv n m \<and> (\<forall>c. shards_held m c < 2 ^ 64)"

lemma tracker_state:
  assumes "tracker_inv n m" and "hm_get (rm_states m) c = Some s"
  shows "rs_inv n c s" and "held s < 2 ^ 64" and "hm_inv (rp_current_replicas s)"
proof -
  from assms have "shards_held m c < 2 ^ 64" by (simp add: tracker_inv_def)
  with assms show "rs_inv n c s" "held s < 2 ^ 64" by (simp_all add: tracker_inv_def rm_inv_def shards_held_def)
  then show "hm_inv (rp_current_replicas s)" by (simp add: rs_inv_def)
qed

lemma removed_shards:
  "hm_get (rm_states m) c = Some s \<Longrightarrow> unat (snd (remove_peer p s)) = shards_on m c p"
  by (simp add: remove_peer_def Let_def shards_on_def split: option.split)

lemma tracker_death_hold:
  assumes "tracker_inv n m"
  shows "shards_held m c = shards_held (fst (handle_peer_death p m)) c + shards_on m c p"
proof (cases "hm_get (rm_states m) c")
  case None
  then show ?thesis by (simp add: shards_held_def shards_on_def death_get)
next
  case (Some s)
  from remove_peer_held [OF tracker_state(3) [OF assms Some], of p] removed_shards [OF Some, of p] Some
  show ?thesis by (simp add: shards_held_def death_get)
qed

lemma tracker_death_inv:
  assumes "tracker_inv n m"
  shows "tracker_inv n (fst (handle_peer_death p m))"
proof -
  have "rm_inv n (fst (handle_peer_death p m))"
    using assms by (simp add: tracker_inv_def rm_inv_death)
  moreover have "shards_held (fst (handle_peer_death p m)) c < 2 ^ 64" for c
    using tracker_death_hold [OF assms, of c p] assms by (simp add: tracker_inv_def) (metis add_lessD1)
  ultimately show ?thesis using assms by (simp add: tracker_inv_def)
qed

text \<open>What the manager says of a chunk: replicated exactly if enough shards are held.\<close>

lemma tracker_replicated:
  assumes "tracker_inv n m" and "is_tracked m c"
  shows "is_replicated c m \<longleftrightarrow> unat n \<le> shards_held m c"
proof -
  from assms(2) obtain s where s: "hm_get (rm_states m) c = Some s" by (auto simp: is_tracked_def)
  note st = tracker_state [OF assms(1) s]
  from assms(1) st(1) check_replication_held [OF st(2)] s show ?thesis
    by (simp add: is_replicated_def shards_held_def rs_inv_def tracker_inv_def)
qed

interpretation tracker: shard_tracker "tracker_inv n" is_tracked shards_on shards_held "unat n" handle_peer_death
  for n :: u32
proof
  fix m p c q
  assume inv: "tracker_inv n m"
  then show "tracker_inv n (fst (handle_peer_death p m))" by (rule tracker_death_inv)
  show tr: "is_tracked (fst (handle_peer_death p m)) c \<longleftrightarrow> is_tracked m c"
    by (simp add: is_tracked_def death_get)
  show "shards_on (fst (handle_peer_death p m)) c q = (if q = p then 0 else shards_on m c q)"
    by (auto simp: shards_on_def death_get remove_peer_def Let_def hmap_simps split: option.split)
  show hold: "shards_held m c = shards_held (fst (handle_peer_death p m)) c + shards_on m c p"
    by (rule tracker_death_hold [OF inv])
  show "c \<in> set (snd (handle_peer_death p m)) \<longleftrightarrow> is_tracked m c \<and>
      shards_held (fst (handle_peer_death p m)) c < shards_held m c \<and>
      shards_held (fst (handle_peer_death p m)) c < unat n"
  proof (cases "hm_get (rm_states m) c")
    case None
    with inv show ?thesis by (auto simp: in_death_report tracker_inv_def rm_inv_def is_tracked_def)
  next
    case (Some s)
    let ?m = "fst (handle_peer_death p m)"
    have "hm_get (rm_states ?m) c = Some (fst (remove_peer p s))" using Some by (simp add: death_get)
    then have "rp_is_complete (fst (remove_peer p s)) \<longleftrightarrow> unat n \<le> shards_held ?m c"
      using tracker_replicated [OF tracker_death_inv [OF inv, of p], of c]
      by (simp add: is_tracked_def is_replicated_def)
    moreover have "0 < snd (remove_peer p s) \<longleftrightarrow> shards_held ?m c < shards_held m c"
      using hold removed_shards [OF Some, of p] by (auto simp: word_less_nat_alt)
    ultimately show ?thesis
      using inv Some by (auto simp: in_death_report tracker_inv_def rm_inv_def is_tracked_def)
  qed
qed

section \<open>Reports of the heartbeat manager\<close>

text \<open>A death is reported exactly when the status of a peer turns to dead.\<close>

lemma tick_peer_died:
  "PeerDied (pe_peer_id p) \<in> set (snd (tick_peer cfg t p)) \<longleftrightarrow>
    pe_status p \<noteq> Dead \<and> pe_status (fst (tick_peer cfg t p)) = Dead"
  by (auto simp: tick_peer_def Let_def split: PeerStatus.splits)

lemma tick_peer_dead: "pe_status p = Dead \<Longrightarrow> pe_status (fst (tick_peer cfg t p)) = Dead"
  by (simp add: tick_peer_def Let_def)

lemma ticks_keep_dead:
  "hm_get (hb_peers m) q = Some p \<Longrightarrow>
    \<exists>p'. hm_get (hb_peers (fst (ticks ts m))) q = Some p' \<and> (pe_status p = Dead \<longrightarrow> pe_status p' = Dead)"
proof (induction ts arbitrary: m p)
  case (Cons t ts)
  have "hm_get (hb_peers (fst (tick t m))) q = Some (fst (tick_peer (hb_config m) t p))"
    using Cons.prems by (simp add: tick_get)
  from Cons.IH [OF this] tick_peer_dead show ?case by (fastforce simp: Let_def case_prod_unfold)
qed simp

lemma tick_reports:
  assumes "hb_inv cfg m"
  shows "q \<in> set (died (snd (tick t m))) \<longleftrightarrow>
    (\<exists>p. hm_get (hb_peers m) q = Some p \<and> pe_status p \<noteq> Dead \<and> pe_status (fst (tick_peer cfg t p)) = Dead)"
proof -
  have cfg: "hb_config m = cfg" and ids: "\<And>k p. (k, p) \<in> set (hb_peers m) \<longleftrightarrow> hm_get (hb_peers m) k = Some p"
    "\<And>k p. hm_get (hb_peers m) k = Some p \<Longrightarrow> pe_peer_id p = k"
    using assms hm.entries_get [of "hb_peers m"] by (auto simp: hb_inv_def peer_ok_def)
  have name: "PeerDied q \<in> set (snd (tick_peer cfg t p)) \<Longrightarrow> pe_peer_id p = q" for p
    by (auto simp: tick_peer_def Let_def split: PeerStatus.splits if_splits)
  have "q \<in> set (died (snd (tick t m))) \<longleftrightarrow>
      (\<exists>k p. (k, p) \<in> set (hb_peers m) \<and> PeerDied q \<in> set (snd (tick_peer cfg t p)))"
    by (fastforce simp: set_died tick_def cfg)
  also have "\<dots> \<longleftrightarrow> (\<exists>p. hm_get (hb_peers m) q = Some p \<and> PeerDied q \<in> set (snd (tick_peer cfg t p)))"
    unfolding ids(1) using ids(2) name by metis
  finally show ?thesis using ids(2) tick_peer_died [where cfg = cfg and t = t] by metis
qed

lemma ticks_reports:
  "hb_inv cfg m \<Longrightarrow> q \<in> set (died (snd (ticks ts m))) \<longleftrightarrow>
    (\<exists>p p'. hm_get (hb_peers m) q = Some p \<and> pe_status p \<noteq> Dead \<and>
       hm_get (hb_peers (fst (ticks ts m))) q = Some p' \<and> pe_status p' = Dead)"
proof (induction ts arbitrary: m)
  case (Cons t ts)
  let ?m = "fst (tick t m)"
  have cfg: "hb_config m = cfg" using Cons.prems by (simp add: hb_inv_def)
  have split: "q \<in> set (died (snd (ticks (t # ts) m))) \<longleftrightarrow>
      q \<in> set (died (snd (tick t m))) \<or> q \<in> set (died (snd (ticks ts ?m)))"
    by (auto simp: set_died Let_def case_prod_unfold)
  have last: "fst (ticks (t # ts) m) = fst (ticks ts ?m)" by (simp add: Let_def case_prod_unfold)
  show ?case
  proof (cases "hm_get (hb_peers m) q")
    case None
    then show ?thesis
      unfolding split last tick_reports [OF Cons.prems] Cons.IH [OF hb_inv_tick [OF Cons.prems]]
      by (simp add: tick_get)
  next
    case (Some p)
    obtain p' where p': "hm_get (hb_peers (fst (ticks ts ?m))) q = Some p'"
      "pe_status (fst (tick_peer cfg t p)) = Dead \<longrightarrow> pe_status p' = Dead"
      using ticks_keep_dead [of ?m q "fst (tick_peer cfg t p)" ts] Some by (auto simp: tick_get cfg)
    show ?thesis
      unfolding split last tick_reports [OF Cons.prems] Cons.IH [OF hb_inv_tick [OF Cons.prems]]
      using Some p' tick_peer_dead [of p cfg t] by (auto simp: tick_get cfg)
  qed
qed (auto simp: set_died)

section \<open>Property\<close>

text \<open>
  C34: a silent peer costs its shards.  From any reachable heartbeat manager (suspect threshold at
  most 1, as in the default) and any reachable replication manager with a positive target and no
  overflowing shard count: a peer sends a heartbeat at time t, then the ticks \<open>ts\<close> come, and
  every death they report is handed over.  Then a peer is reported exactly when its status
  turned to dead; the peer of the heartbeat exactly when at least \<open>max 2 max_missed\<close> of the ticks
  found it overdue; every reported peer holds no shard afterwards and every other peer what it
  held; the shards of a chunk add up; a chunk is replicated exactly when the target is still
  held; and the chunks reported for repair are exactly those that lost shards and are not
  replicated any more.
\<close>

theorem failure_repair:
  assumes "hb_reach cfg m" and "hc_suspect_threshold cfg \<le> 1" and "length ts < 2 ^ 32"
    and "rm_reach n rm" and "0 < n" and "\<forall>c. shards_held rm c < 2 ^ 64"
    and "m1 = fst (process_heartbeat t t' node stamp space m)"
    and "ticks ts m1 = (m2, events)"
    and "handle_deaths handle_peer_death (died events) rm = (rm', todo)"
  shows "(\<forall>q. q \<in> set (died events) \<longleftrightarrow>
       (\<exists>p p'. hm_get (hb_peers m1) q = Some p \<and> pe_status p \<noteq> Dead \<and>
          hm_get (hb_peers m2) q = Some p' \<and> pe_status p' = Dead)) \<and>
    (node \<in> set (died events) \<longleftrightarrow> max 2 (unat (hc_max_missed cfg)) \<le> length (filter (overdue cfg t) ts)) \<and>
    (\<forall>c q. shards_on rm' c q = (if q \<in> set (died events) then 0 else shards_on rm c q)) \<and>
    (\<forall>c. shards_held rm c = shards_held rm' c + (\<Sum>q \<in> set (died events). shards_on rm c q)) \<and>
    (\<forall>c. is_replicated c rm' \<longleftrightarrow> is_tracked rm c \<and> unat n \<le> shards_held rm' c) \<and>
    (\<forall>c. c \<in> set todo \<longleftrightarrow> is_tracked rm c \<and> shards_held rm' c < shards_held rm c \<and> \<not> is_replicated c rm')"
    (is "?reported \<and> ?silent \<and> ?shards \<and> ?sum \<and> ?repl \<and> ?todo")
proof -
  from assms(8,9) have run: "m2 = fst (ticks ts m1)" "events = snd (ticks ts m1)"
    "rm' = fst (handle_deaths handle_peer_death (died events) rm)"
    "todo = snd (handle_deaths handle_peer_death (died events) rm)" by simp_all
  from beat_silent [OF assms(1,2), of t t' node stamp space] obtain p where
    inv: "hb_inv cfg m1" and p: "hm_get (hb_peers m1) node = Some p" "pe_last_seen p = t" "silent_for cfg 0 p"
    unfolding assms(7) by blast
  have tr: "tracker_inv n rm"
    using assms(5,6) rm_reach_inv [OF assms(4)] by (simp add: tracker_inv_def)
  note tr' = tracker.deaths_inv [OF tr, of "died events", folded run(3)]
  have "node \<in> set (died events) \<longleftrightarrow> 0 < length (filter (\<lambda>e. e = PeerDied node) events)"
    by (auto simp: set_died filter_empty_conv)
  moreover have "length (filter (\<lambda>e. e = PeerDied node) events) =
      (if max 2 (unat (hc_max_missed cfg)) \<le> length (filter (overdue cfg t) ts) then 1 else 0)"
    using silent_run [OF assms(2) inv p(1,3), of ts] assms(3) unfolding run(2) p(2) by auto
  ultimately have ?silent by simp
  moreover have tracked: "is_tracked rm' c \<longleftrightarrow> is_tracked rm c" for c
    using tracker.deaths_tracked [OF tr] by (simp add: run(3))
  have repl: "is_replicated c rm' \<longleftrightarrow> is_tracked rm c \<and> unat n \<le> shards_held rm' c" for c
    using tracker_replicated [OF tr', of c] tracked [of c]
    by (cases "is_tracked rm' c") (auto simp: is_replicated_def is_tracked_def)
  moreover have ?todo
    using tracker.deaths_report [OF tr, of _ "died events"] repl by (auto simp: run(3,4) not_le)
  moreover have ?reported using ticks_reports [OF inv, of _ ts] by (simp add: run(1,2))
  moreover have ?shards ?sum
    using tracker.deaths_shards [OF tr] tracker.deaths_hold [OF tr, of _ "died events"] by (simp_all add: run(3))
  ultimately show ?thesis by blast
qed

text \<open>Three silent intervals of the peer \<open>q\<close>, which holds 2 of the 6 shards of the chunk \<open>c\<close>.\<close>

lemma sample_shards:
  "shards_on sample_replication c p = (if c = ''c'' then if p = ''q'' then 2 else if p = ''p'' then 4 else 0 else 0)"
  "shards_held sample_replication c = (if c = ''c'' then 6 else 0)"
  "is_tracked sample_replication c \<longleftrightarrow> c = ''c''"
  by (simp_all add: shards_on_def shards_held_def is_tracked_def sample_replication_def record_peer_shards_def
      register_chunk_def ReplicationManager_new_def ReplicationState_new_def add_replica_def Let_def hmap_simps
      held_def hm_values_def)
    (simp add: hm_insert_def hm_empty_def)

definition sample_events :: "PeerEvent list" where
  "sample_events = snd (ticks [900000000001, 900000000002, 900000000003]
     (fst (process_heartbeat 0 0 ''q'' 0 0 (HeartbeatManager_new ''me'' HeartbeatConfig_default))))"

theorem failure_repair_witness:
  "''q'' \<in> set (died sample_events) \<and>
   shards_on (fst (handle_deaths handle_peer_death (died sample_events) sample_replication)) ''c'' ''q'' = 0 \<and>
   ''c'' \<in> set (snd (handle_deaths handle_peer_death (died sample_events) sample_replication))"
proof -
  let ?m1 = "fst (process_heartbeat 0 0 ''q'' 0 0 (HeartbeatManager_new ''me'' HeartbeatConfig_default))"
  let ?ts = "[900000000001, 900000000002, 900000000003]" and ?d = "died sample_events"
  let ?rm = "fst (handle_deaths handle_peer_death ?d sample_replication)"
  have reach: "rm_reach 6 sample_replication"
    unfolding sample_replication_def by (intro rm_reach.intros)
  have thr: "hc_suspect_threshold HeartbeatConfig_default \<le> 1" "length ?ts < 2 ^ 32" "(0 :: u32) < 6"
    by (simp_all add: HeartbeatConfig_default_def)
  have small: "\<forall>c. shards_held sample_replication c < 2 ^ 64" by (simp add: sample_shards)
  have run: "ticks ?ts ?m1 = (fst (ticks ?ts ?m1), sample_events)" by (simp add: sample_events_def del: ticks.simps)
  note all = failure_repair [OF hb_new thr(1,2) reach thr(3) small refl run surjective_pairing]
  note parts = all [THEN conjunct2, THEN conjunct1] all [THEN conjunct2, THEN conjunct2, THEN conjunct1]
    all [THEN conjunct2, THEN conjunct2, THEN conjunct2]
  from parts(1) have q: "''q'' \<in> set ?d"
    by (simp add: HeartbeatConfig_default_def overdue_def)
  have "shards_on sample_replication ''c'' ''q'' \<le> (\<Sum>p \<in> set ?d. shards_on sample_replication ''c'' p)"
    using q by (intro member_le_sum) simp_all
  moreover from all have "shards_held sample_replication ''c'' =
      shards_held ?rm ''c'' + (\<Sum>p \<in> set ?d. shards_on sample_replication ''c'' p)" by blast
  ultimately have lost: "shards_held ?rm ''c'' < 6" by (simp add: sample_shards)
  from all have "is_replicated ''c'' ?rm \<longleftrightarrow> is_tracked sample_replication ''c'' \<and> unat (6 :: u32) \<le> shards_held ?rm ''c''"
    by blast
  with lost have "\<not> is_replicated ''c'' ?rm" by simp
  with parts(3) lost have "''c'' \<in> set (snd (handle_deaths handle_peer_death ?d sample_replication))"
    by (simp add: sample_shards)
  moreover from parts(2) q have "shards_on ?rm ''c'' ''q'' = 0" by simp
  ultimately show ?thesis using q by blast
qed

end
