(* ===== verification/SampleCodes.thy ===== *)
theory SampleCodes
  imports Prelude
begin

text \<open>
  Self-delimiting codes for strings, numbers and pairs: the building blocks of the concrete file
  formats with which the witnesses instantiate serde_json.  A form that is cut short does not
  parse.
\<close>

section \<open>Self-delimiting codes\<close>

type_synonym 'a code = "('a \<Rightarrow> bytes) \<times> (bytes \<Rightarrow> ('a \<times> bytes) option)"

definition good_code :: "'a code \<Rightarrow> bool" where
  "good_code c \<longleftrightarrow> (\<forall>x r. snd c (fst c x @ r) = Some (x, r)) \<and>
     (\<forall>x. \<forall>k < length (fst c x). snd c (take k (fst c x)) = None)"

fun print_string :: "string \<Rightarrow> bytes" where
  "print_string [] = [0]"
| "print_string (c # s) = 1 # of_nat (of_char c) # print_string s"

fun parse_string :: "bytes \<Rightarrow> (string \<times> bytes) option" where
  "parse_string (b # bs) = (if b = 0 then Some ([], bs) else
     (case bs of [] \<Rightarrow> None | x # r \<Rightarrow> map_option (\<lambda>(s, q). (char_of (unat x) # s, q)) (parse_string r)))"
| "parse_string [] = None"

fun print_nat :: "nat \<Rightarrow> bytes" where
  "print_nat 0 = [0]"
| "print_nat (Suc n) = 1 # print_nat n"

fun parse_nat :: "bytes \<Rightarrow> (nat \<times> bytes) option" where
  "parse_nat (b # bs) = (if b = 0 then Some (0, bs) else map_option (\<lambda>(n, q). (Suc n, q)) (parse_nat bs))"
| "parse_nat [] = None"

lemma good_nat: "good_code (print_nat, parse_nat)"
proof -
  have "parse_nat (print_nat n @ r) = Some (n, r)" for n r by (induction n) simp_all
  moreover have "k < length (print_nat n) \<Longrightarrow> parse_nat (take k (print_nat n)) = None" for n k
  proof (induction n arbitrary: k)
    case (Suc n)
    then show ?case by (cases k) simp_all
  qed simp
  ultimately show ?thesis by (simp add: good_code_def)
qed

lemma char_of_byte [simp]: "char_of (unat (of_nat (of_char c) :: byte)) = c"
proof -
  have "(of_char c :: nat) < 2 ^ 8" by simp
  then have "unat (of_nat (of_char c) :: byte) = of_char c"
    by (simp add: unsigned_of_nat take_bit_nat_eq_self)
  then show ?thesis by simp
qed

lemma good_string: "good_code (print_string, parse_string)"
proof -
  have "parse_string (print_string s @ r) = Some (s, r)" for s r
    by (induction s) simp_all
  moreover have "k < length (print_string s) \<Longrightarrow> parse_string (take k (print_string s)) = None" for s k
  proof (induction s arbitrary: k)
    case (Cons c s)
    show ?case
    proof (cases k)
      case (Suc j)
      show ?thesis
      proof (cases j)
        case (Suc i)
        with \<open>k = Suc j\<close> Cons show ?thesis by simp
      qed (simp add: \<open>k = Suc j\<close>)
    qed simp
  qed simp
  ultimately show ?thesis by (simp add: good_code_def)
qed

definition pair_code :: "'a code \<Rightarrow> 'b code \<Rightarrow> ('a \<times> 'b) code" where
  "pair_code c d = (\<lambda>(x, y). fst c x @ fst d y,
     \<lambda>bs. case snd c bs of None \<Rightarrow> None
       | Some (x, r) \<Rightarrow> map_option (\<lambda>(y, q). ((x, y), q)) (snd d r))"

lemma good_pair:
  assumes "good_code c" and "good_code d"
  shows "good_code (pair_code c d)"
proof -
  have "snd (pair_code c d) (take k (fst (pair_code c d) (x, y))) = None"
    if k: "k < length (fst (pair_code c d) (x, y))" for x y k
  proof (cases "k < length (fst c x)")
    case True
    then have "snd c (take k (fst c x)) = None" using assms(1) by (simp add: good_code_def)
    with True show ?thesis by (simp add: pair_code_def)
  next
    case False
    then have "take k (fst c x @ fst d y) = fst c x @ take (k - length (fst c x)) (fst d y)" by simp
    moreover have "k - length (fst c x) < length (fst d y)" using k False by (simp add: pair_code_def)
    ultimately show ?thesis using assms by (simp add: pair_code_def good_code_def)
  qed
  with assms show ?thesis by (simp add: good_code_def pair_code_def)
qed

end
