(* ===== verification/SampleMeta.thy ===== *)
theory SampleMeta
  imports ShardStore SampleCodes
begin

text \<open>
  A concrete metadata format for the witnesses (a stand-in for JSON with the same documented
  behaviour): fields one after the other, each self-delimiting, so that a form that is cut short
  does not parse.
\<close>

section \<open>The format\<close>

definition meta_code :: "(string \<times> nat \<times> nat \<times> string \<times> string \<times> string) code" where
  "meta_code = pair_code (print_string, parse_string) (pair_code (print_nat, parse_nat)
     (pair_code (print_nat, parse_nat) (pair_code (print_string, parse_string)
       (pair_code (print_string, parse_string) (print_string, parse_string)))))"

lemma good_meta_code: "good_code meta_code"
  unfolding meta_code_def by (intro good_pair good_string good_nat)

definition meta_tuple :: "ShardMeta \<Rightarrow> string \<times> nat \<times> nat \<times> string \<times> string \<times> string" where
  "meta_tuple m = (sm_chunk_id m, sm_shard_index m, unat (sm_size m), sm_blake3_hash m, sm_created_at m,
     sm_last_verified m)"

definition tuple_meta :: "string \<times> nat \<times> nat \<times> string \<times> string \<times> string \<Rightarrow> ShardMeta" where
  "tuple_meta x = (case x of (c, i, n, h, t, u) \<Rightarrow>
     \<lparr>sm_chunk_id = c, sm_shard_index = i, sm_size = of_nat n, sm_blake3_hash = h, sm_created_at = t,
      sm_last_verified = u\<rparr>)"

lemma tuple_meta_tuple: "tuple_meta (meta_tuple m) = m"
  by (cases m) (simp add: tuple_meta_def meta_tuple_def)

definition sample_meta :: meta_api where
  "sample_meta = \<lparr>m_print = (\<lambda>m. Inr (fst meta_code (meta_tuple m))),
     m_parse = (\<lambda>b. case snd meta_code b of Some (x, []) \<Rightarrow> Some (tuple_meta x) | _ \<Rightarrow> None)\<rparr>"

lemma sample_meta_laws: "meta_laws sample_meta"
proof -
  have "snd meta_code (fst meta_code x @ []) = Some (x, [])" for x
    using good_meta_code unfolding good_code_def by blast
  moreover have "snd meta_code (take k (fst meta_code x)) = None" if "k < length (fst meta_code x)" for k x
    using good_meta_code that unfolding good_code_def by blast
  ultimately show ?thesis by (simp add: meta_laws_def sample_meta_def tuple_meta_tuple)
qed

definition sample_fs :: file_system where
  "sample_fs = \<lparr>fs_dirs = [[''data'']], fs_files = []\<rparr>"

lemma sample_store_ok: "store_ok cr [''data''] sample_fs"
  by (simp add: store_ok_def fs_inv_def fs_is_dir_def fs_is_file_def sample_fs_def hm_get_def hm_inv_def
      prefixes_def shard_path_def meta_path_def chunk_directory_def)

end
