(* ===== verification/ShardProofs.thy ===== *)
theory ShardProofs
  imports SampleMeta
begin

text \<open>What the shard store guarantees: lookups after storing, failed writes, and the listing.\<close>

section \<open>Deleting\<close>

lemma delete_shard_cases:
  assumes "store_ok cr base fs"
  shows "fs_exists fs (shard_path cr base c i) = fs_is_file fs (shard_path cr base c i)"
    and "fs_exists fs (meta_path cr base c i) = fs_is_file fs (meta_path cr base c i)"
  using assms by (simp_all add: store_ok_def fs_exists_def)

lemma remove_get: "hm_get (fs_files (fst (fs_remove_file io p fs))) q =
    (if q = p \<and> snd (fs_remove_file io p fs) = Inr () then None else hm_get (fs_files fs) q)"
  by (simp add: fs_remove_file_def hmap_simps)

lemma remove_dirs: "fs_dirs (fst (fs_remove_file io p fs)) = fs_dirs fs"
  by (simp add: fs_remove_file_def)

lemma delete_dirs: "fs_dirs (fst (delete_shard cr io base c i fs)) = fs_dirs fs"
  unfolding delete_shard_def fs_then_cases
  by (simp add: remove_dirs split: sum.split)

lemma delete_files:
  assumes "store_ok cr base fs" and "crypto_laws cr"
  shows "snd (delete_shard cr (\<lambda>_. NoFault) base c i fs) = Inr ()"
    and "shard_files cr base c i (fst (delete_shard cr (\<lambda>_. NoFault) base c i fs)) = (None, None)"
    and "(c', i') \<noteq> (c, i) \<Longrightarrow>
      shard_files cr base c' i' (fst (delete_shard cr (\<lambda>_. NoFault) base c i fs)) = shard_files cr base c' i' fs"
proof -
  let ?s = "shard_path cr base c i" and ?m = "meta_path cr base c i"
  let ?io = "\<lambda>_ :: path. NoFault"
  let ?f1 = "fst (if fs_exists fs ?s then fs_remove_file ?io ?s fs else (fs, Inr ()))"
  have ne: "?s \<noteq> ?m" "?m \<noteq> ?s" using path_inject(3) [OF assms(2)] by metis+
  note ex = delete_shard_cases [OF assms(1)]
  have f1: "hm_get (fs_files ?f1) q = (if q = ?s then None else hm_get (fs_files fs) q)" for q
    using ex(1) [of c i] by (simp add: fs_remove_file_def hmap_simps fs_is_file_def)
  have "fs_exists ?f1 ?m = fs_is_file ?f1 ?m"
    using assms(1) by (simp add: fs_exists_def fs_is_dir_def store_ok_def remove_dirs)
  then have del: "hm_get (fs_files (fst (delete_shard cr ?io base c i fs))) q =
      (if q = ?s \<or> q = ?m then None else hm_get (fs_files fs) q) \<and> snd (delete_shard cr ?io base c i fs) = Inr ()" for q
    using f1 ex(1) [of c i] unfolding delete_shard_def fs_then_cases
    by (auto simp: fs_remove_file_def hmap_simps fs_is_file_def split: if_splits)
  then show "snd (delete_shard cr ?io base c i fs) = Inr ()" by blast
  show "shard_files cr base c i (fst (delete_shard cr ?io base c i fs)) = (None, None)"
    using del by (simp add: shard_files_def)
  show "shard_files cr base c' i' (fst (delete_shard cr ?io base c i fs)) = shard_files cr base c' i' fs"
    if "(c', i') \<noteq> (c, i)"
  proof -
    have "shard_path cr base c' i' \<noteq> ?s" "meta_path cr base c' i' \<noteq> ?m"
      using that path_inject(1,2) [OF assms(2)] by auto
    moreover have "shard_path cr base c' i' \<noteq> ?m" "meta_path cr base c' i' \<noteq> ?s"
      using path_inject(3) [OF assms(2)] by metis+
    ultimately show ?thesis using del by (simp add: shard_files_def)
  qed
qed

section \<open>The listing\<close>

lemma set_chunk_names: "set (chunk_names cr es) = {c. \<exists>n. (n, True) \<in> set es \<and> ChunkId_from_hex cr n = Inr c}"
  by (induction cr es rule: chunk_names.induct) (auto split: sum.splits)

definition chunk_dirs :: "crypto \<Rightarrow> path \<Rightarrow> file_system \<Rightarrow> ChunkId set" where
  "chunk_dirs cr base fs = {c. \<exists>n. base @ [n] \<in> set (fs_dirs fs) \<and> ChunkId_from_hex cr n = Inr c}"

lemma list_chunks_dirs:
  assumes "fs_is_dir fs base"
  shows "\<exists>cs. list_chunks cr base fs = Inr cs \<and> set cs = chunk_dirs cr base fs"
proof -
  let ?es = "map (\<lambda>d. (last d, True)) (filter (\<lambda>d. d \<noteq> [] \<and> butlast d = base) (fs_dirs fs)) @
    map (\<lambda>(f, _). (last f, False)) (filter (\<lambda>(f, _). f \<noteq> [] \<and> butlast f = base) (fs_files fs))"
  have "(n, True) \<in> set ?es \<longleftrightarrow> base @ [n] \<in> set (fs_dirs fs)" for n
  proof
    assume "(n, True) \<in> set ?es"
    then obtain d where d: "d \<in> set (fs_dirs fs)" "d \<noteq> []" "butlast d = base" "last d = n" by auto
    then have "d = base @ [n]" by (metis append_butlast_last_id)
    with d(1) show "base @ [n] \<in> set (fs_dirs fs)" by simp
  next
    assume "base @ [n] \<in> set (fs_dirs fs)"
    then have "(n, True) \<in> (\<lambda>d. (last d, True)) ` {d \<in> set (fs_dirs fs). d \<noteq> [] \<and> butlast d = base}"
      by (intro image_eqI [of _ _ "base @ [n]"]) simp_all
    then show "(n, True) \<in> set ?es" by simp
  qed
  then have "set (chunk_names cr ?es) = chunk_dirs cr base fs"
    unfolding set_chunk_names chunk_dirs_def by simp
  with assms show ?thesis by (simp add: list_chunks_def fs_exists_def fs_read_dir_def)
qed

lemma chunk_dirs_mkdir:
  assumes "crypto_laws cr" and "ChunkId_valid c" and "snd (create_dir_all io (chunk_directory cr base c) fs) = Inr ()"
  shows "chunk_dirs cr base (fst (create_dir_all io (chunk_directory cr base c) fs)) = insert c (chunk_dirs cr base fs)"
proof -
  have new: "set (fs_dirs (fst (create_dir_all io (chunk_directory cr base c) fs))) =
      set (fs_dirs fs) \<union> set (prefixes (chunk_directory cr base c))"
    using assms(3) by (auto simp: create_dir_all_def split: if_splits)
  have "base @ [n] \<in> set (prefixes (chunk_directory cr base c)) \<longleftrightarrow> n = ChunkId_as_hex cr c" for n
    using prefixes_length [of "base @ [n]" base] by (auto simp: chunk_directory_def prefixes_snoc)
  with new ChunkId_hex_roundtrip [OF assms(1,2)] show ?thesis
    by (auto simp: chunk_dirs_def)
qed

lemma store_dirs:
  assumes "m_print M (new_meta cr t u c i data) = Inr json"
  shows "fs_dirs (fst (store_shard cr M io t u base c i data fs)) =
    fs_dirs (fst (create_dir_all io (chunk_directory cr base c) fs))"
  unfolding store_shard_steps [OF assms] Let_def by (simp add: fs_write_dirs split: sum.split)

section \<open>Properties\<close>

text \<open>
  C37: the shard store is a map.  On a well-formed store and without I/O errors, after storing
  any list of shards every shard of the list is retrieved as stored last, and every other shard
  as before; the hash check never fails on them.
\<close>

theorem shards_retrieved:
  assumes "crypto_laws cr" and "meta_laws M" and "store_ok cr base fs"
  shows "shard_get (fold (\<lambda>(k, v). shard_put k v) kvs (cr, M, base, fs)) (c, i) =
    (case map_of (rev kvs) (c, i) of None \<Rightarrow> retrieve_shard cr M base c i fs | Some d \<Rightarrow> Inr d)"
proof -
  have "shard_get (cr, M, base, fs) (c, i) = retrieve_shard cr M base c i fs" by (simp add: shard_get_def)
  moreover have "shard_ok (cr, M, base, fs)" using assms by (simp add: shard_ok_def)
  ultimately show ?thesis using shards.get_puts [of "(cr, M, base, fs)" kvs "(c, i)"]
    by (simp split: option.split)
qed

theorem shards_retrieved_witness:
  "shard_get (fold (\<lambda>(k, v). shard_put k v)
      [((ChunkId [1], ShardIndex 0), [7]), ((ChunkId [1], ShardIndex 10), [8]), ((ChunkId [1], ShardIndex 0), [9])]
      (sample_crypto, sample_meta, [''data''], sample_fs)) (ChunkId [1], ShardIndex 0) = Inr [9]"
  using shards_retrieved [OF sample_crypto_laws sample_meta_laws sample_store_ok, of
      "[((ChunkId [1], ShardIndex 0), [7]), ((ChunkId [1], ShardIndex 10), [8]), ((ChunkId [1], ShardIndex 0), [9])]"
      "ChunkId [1]" "ShardIndex 0"]
  by simp

text \<open>When the metadata file cannot be opened, the new data lies beside the old metadata.\<close>

lemma meta_not_opened:
  assumes "crypto_laws cr" and "store_ok cr base fs" and "m_print M (new_meta cr t u c i data) = Inr json"
    and "io (meta_path cr base c i) = Fault None" and "\<forall>p. p \<noteq> meta_path cr base c i \<longrightarrow> io p = NoFault"
    and "shard_files cr base c i fs = (d0, j0)"
    and "store_shard cr M io t u base c i data fs = (fs', r)"
  shows "shard_files cr base c i fs' = (Some data, j0)"
proof -
  let ?x = "create_dir_all io (chunk_directory cr base c) fs"
  let ?y = "fs_write io (shard_path cr base c i) data (fst ?x)"
  have len: "chunk_directory cr base c \<noteq> meta_path cr base c i"
    using path_lengths by (metis n_not_Suc_n)
  have x: "snd ?x = Inr ()"
    using assms(2,5) len unfolding chunk_directory_def create_dir_all_def prefixes_snoc
    by (simp add: store_ok_def chunk_directory_def ball_Un)
  note okx = store_ok_mkdir [OF assms(2), of io c]
  have y: "snd ?y = Inr ()"
    using okx create_dir_is_dir [OF x] assms(5) path_inject(3) [OF assms(1), of base c i c i]
    by (intro fs_write_ok) (simp_all add: store_ok_def)
  have "fs_write io (meta_path cr base c i) json (fst ?y) = (fst ?y, Inl (Err ''cannot open file''))"
    using assms(4) by (simp add: fs_write_def)
  then have "fs' = fst ?y" using assms(7) x y by (simp add: store_shard_steps [OF assms(3)] Let_def)
  moreover have "hm_get (fs_files (fst ?y)) (meta_path cr base c i) = j0"
    using assms(6) path_inject(3) [OF assms(1), of base c i c i]
    by (simp add: fs_write_other create_dir_files shard_files_def)
  ultimately show ?thesis using fs_write_self [OF y] by (simp add: shard_files_def)
qed

text \<open>
  C38: failed writes.  Whatever the outcomes of the system calls while a shard is stored over
  an old version of it, every other shard is retrieved as before, and what is retrieved for the
  shard itself is the new data, something with the BLAKE3 hash of the old data, or an error.  The store is not atomic: if only the metadata cannot be opened for writing
  and the hashes differ, the old version is lost and the shard fails its integrity check.
\<close>

theorem store_shard_faults:
  assumes "crypto_laws cr" and "meta_laws M" and "store_ok cr base fs"
    and "retrieve_shard cr M base c i fs = Inr old"
    and "store_shard cr M io t u base c i data fs = (fs', r)"
  shows "(\<forall>c' i'. (c', i') \<noteq> (c, i) \<longrightarrow> retrieve_shard cr M base c' i' fs' = retrieve_shard cr M base c' i' fs) \<and>
    (\<forall>d. retrieve_shard cr M base c i fs' = Inr d \<longrightarrow>
       d = data \<or> blake3 cr d = blake3 cr old) \<and>
    (is_ok r \<longrightarrow> retrieve_shard cr M base c i fs' = Inr data) \<and>
    (blake3 cr data \<noteq> blake3 cr old \<and> io (meta_path cr base c i) = Fault None \<and>
     (\<forall>p. p \<noteq> meta_path cr base c i \<longrightarrow> io p = NoFault) \<longrightarrow>
       retrieve_shard cr M base c i fs' = Inl (Err ''Shard integrity check failed''))"
proof -
  from assms(2) obtain json where json: "m_print M (new_meta cr t u c i data) = Inr json"
      "m_parse M json = Some (new_meta cr t u c i data)" "\<And>k. k < length json \<Longrightarrow> m_parse M (take k json) = None"
    by (auto simp: meta_laws_def)
  obtain d0 j0 where f0: "shard_files cr base c i fs = (d0, j0)" by fastforce
  obtain jm m0 where old: "d0 = Some old" "j0 = Some jm" "m_parse M jm = Some m0"
      "sm_blake3_hash m0 = hex_encode cr (blake3 cr old)"
    using assms(4) f0 by (auto simp: retrieve_shard_files read_files_def split: option.splits if_splits)
  note new = read_files_new [OF assms(2) json(1)]
  have read_old: "read_files cr M (Some d, j0) =
      (if blake3 cr d = blake3 cr old then Inr d else Inl (Err ''Shard integrity check failed''))" for d
    by (simp add: read_files_def old hex_encode_inject [OF assms(1)])
  have read_new: "read_files cr M (Some data, Some (take k json)) = Inr d \<Longrightarrow> d = data" for k d
    using json(2) json(3) [of k] new by (cases "k < length json") (auto simp: read_files_def split: if_splits)
  note self = store_shard_self [OF assms(1) json(1) assms(5) f0]
  have "retrieve_shard cr M base c' i' fs' = retrieve_shard cr M base c' i' fs" if "(c', i') \<noteq> (c, i)" for c' i'
    using store_shard_other [OF assms(1,2) that] assms(5) by (metis fst_conv retrieve_shard_files)
  moreover have "d = data \<or> blake3 cr d = blake3 cr old" if "retrieve_shard cr M base c i fs' = Inr d" for d
    using that self read_old read_new new old(1) unfolding retrieve_shard_files
    by (cases "is_ok r") (auto split: if_splits)
  moreover have "retrieve_shard cr M base c i fs' = Inr data" if "is_ok r"
    using self that new by (simp add: retrieve_shard_files)
  moreover have "retrieve_shard cr M base c i fs' = Inl (Err ''Shard integrity check failed'')"
    if "blake3 cr data \<noteq> blake3 cr old" "io (meta_path cr base c i) = Fault None"
      "\<forall>p. p \<noteq> meta_path cr base c i \<longrightarrow> io p = NoFault"
    using meta_not_opened [OF assms(1) assms(3) json(1) that(2) _ f0 assms(5)] that read_old
    by (simp add: retrieve_shard_files)
  ultimately show ?thesis by blast
qed

definition overwrite_fault :: io where
  "overwrite_fault p = (if p = meta_path sample_crypto [''data''] (ChunkId [1]) (ShardIndex 0) then Fault None else NoFault)"

theorem store_shard_faults_witness:
  "retrieve_shard sample_crypto sample_meta [''data''] (ChunkId [1]) (ShardIndex 0)
     (fst (store_shard sample_crypto sample_meta overwrite_fault ''t'' ''u'' [''data''] (ChunkId [1]) (ShardIndex 0) [2]
       (fst (store_shard sample_crypto sample_meta (\<lambda>_. NoFault) ''t'' ''u'' [''data''] (ChunkId [1]) (ShardIndex 0) [1]
         sample_fs)))) = Inl (Err ''Shard integrity check failed'')"
proof -
  let ?fs = "fst (store_shard sample_crypto sample_meta (\<lambda>_. NoFault) ''t'' ''u'' [''data''] (ChunkId [1]) (ShardIndex 0)
    [1] sample_fs)"
  have ok: "store_ok sample_crypto [''data''] ?fs" by (rule store_ok_store [OF sample_meta_laws sample_store_ok])
  have old: "retrieve_shard sample_crypto sample_meta [''data''] (ChunkId [1]) (ShardIndex 0) ?fs = Inr [1]"
    by (simp add: retrieve_stored [OF sample_crypto_laws sample_meta_laws sample_store_ok])
  have "blake3 sample_crypto [2] \<noteq> blake3 sample_crypto [1]" by (simp add: sample_crypto_def sample_blake3_def)
  with store_shard_faults [OF sample_crypto_laws sample_meta_laws ok old prod.collapse [symmetric],
      of overwrite_fault "''t''" "''u''" "[2]"]
  show ?thesis by (simp add: overwrite_fault_def)
qed

text \<open>
  C39: the listing.  On a well-formed store, a successful store of a chunk's shard adds that
  chunk to \<open>list_chunks\<close> and nothing else; deleting a shard makes it unretrievable and
  non-existent and leaves every other shard as it was, but never takes a chunk out of the
  listing, not even with its last shard.
\<close>

theorem shard_listing:
  assumes "crypto_laws cr" and "meta_laws M" and "store_ok cr base fs" and "ChunkId_valid c"
  shows "\<exists>cs cs1 cs2 fs1 fs2 meta.
    store_shard cr M (\<lambda>_. NoFault) t u base c i data fs = (fs1, Inr meta) \<and>
    delete_shard cr (\<lambda>_. NoFault) base c i fs1 = (fs2, Inr ()) \<and>
    list_chunks cr base fs = Inr cs \<and> list_chunks cr base fs1 = Inr cs1 \<and> list_chunks cr base fs2 = Inr cs2 \<and>
    set cs1 = insert c (set cs) \<and> set cs2 = set cs1 \<and>
    shard_exists cr base c i fs1 \<and> \<not> shard_exists cr base c i fs2 \<and>
    \<not> is_ok (retrieve_shard cr M base c i fs2) \<and>
    (\<forall>c' i'. (c', i') \<noteq> (c, i) \<longrightarrow> retrieve_shard cr M base c' i' fs2 = retrieve_shard cr M base c' i' fs)"
proof -
  let ?io = "\<lambda>_ :: path. NoFault"
  from assms(2) obtain json where json: "m_print M (new_meta cr t u c i data) = Inr json"
    by (auto simp: meta_laws_def)
  let ?fs1 = "fst (store_shard cr M ?io t u base c i data fs)"
  let ?fs2 = "fst (delete_shard cr ?io base c i ?fs1)"
  have s: "store_shard cr M ?io t u base c i data fs = (?fs1, Inr (new_meta cr t u c i data))"
    using store_succeeds [OF assms(2,3)] by (metis prod.collapse)
  have ok1: "store_ok cr base ?fs1" by (rule store_ok_store [OF assms(2,3)])
  note del = delete_files(1,2) [OF ok1 assms(1), of c i]
  have d: "delete_shard cr ?io base c i ?fs1 = (?fs2, Inr ())" using del(1) by (metis prod.collapse)
  have mk: "snd (create_dir_all ?io (chunk_directory cr base c) fs) = Inr ()"
    using assms(3) unfolding chunk_directory_def create_dir_all_def prefixes_snoc
    by (simp add: store_ok_def chunk_directory_def ball_Un)
  have dirs1: "chunk_dirs cr base ?fs1 = insert c (chunk_dirs cr base fs)"
    using chunk_dirs_mkdir [OF assms(1,4) mk] by (simp add: chunk_dirs_def store_dirs [OF json])
  have dirs2: "chunk_dirs cr base ?fs2 = chunk_dirs cr base ?fs1" by (simp add: chunk_dirs_def delete_dirs)
  have base: "fs_is_dir fs base" "fs_is_dir ?fs1 base" "fs_is_dir ?fs2 base"
    using assms(3) ok1 by (simp_all add: store_ok_def fs_is_dir_def delete_dirs)
  have files1: "shard_files cr base c i ?fs1 = (Some data, Some json)"
    using store_shard_self [OF assms(1) json s] by (cases "shard_files cr base c i fs") simp
  have ex1: "shard_exists cr base c i ?fs1"
    using files1 by (simp add: shard_exists_def fs_exists_def fs_is_file_def shard_files_def)
  have ex2: "\<not> shard_exists cr base c i ?fs2"
    using del(2) ok1 by (simp add: shard_exists_def fs_exists_def fs_is_file_def fs_is_dir_def shard_files_def
        store_ok_def delete_dirs)
  have no: "\<not> is_ok (retrieve_shard cr M base c i ?fs2)"
    using del(2) by (simp add: retrieve_shard_files read_files_def)
  have others: "retrieve_shard cr M base c' i' ?fs2 = retrieve_shard cr M base c' i' fs"
    if "(c', i') \<noteq> (c, i)" for c' i'
    using delete_files(3) [OF ok1 assms(1) that] store_shard_other [OF assms(1,2) that] by (simp add: retrieve_shard_files)
  from list_chunks_dirs [OF base(1)] list_chunks_dirs [OF base(2)] list_chunks_dirs [OF base(3)]
  obtain cs cs1 cs2 where "list_chunks cr base fs = Inr cs" "set cs = chunk_dirs cr base fs"
    "list_chunks cr base ?fs1 = Inr cs1" "set cs1 = chunk_dirs cr base ?fs1"
    "list_chunks cr base ?fs2 = Inr cs2" "set cs2 = chunk_dirs cr base ?fs2" by blast
  with s d dirs1 dirs2 ex1 ex2 no others show ?thesis by metis
qed

theorem shard_listing_witness:
  "\<exists>fs1 fs2 meta cs. store_shard sample_crypto sample_meta (\<lambda>_. NoFault) ''t'' ''u'' [''data'']
      (ChunkId (replicate 32 0)) (ShardIndex 3) [5] sample_fs = (fs1, Inr meta) \<and>
     delete_shard sample_crypto (\<lambda>_. NoFault) [''data''] (ChunkId (replicate 32 0)) (ShardIndex 3) fs1 = (fs2, Inr ()) \<and>
     list_chunks sample_crypto [''data''] fs2 = Inr cs \<and> ChunkId (replicate 32 0) \<in> set cs"
  using shard_listing [OF sample_crypto_laws sample_meta_laws sample_store_ok, of "ChunkId (replicate 32 0)"
      "''t''" "''u''" "ShardIndex 3" "[5]"]
  by (auto simp: ChunkId_valid_def)

end
