(* ===== verification/Float64.thy ===== *)
theory Float64
  imports Complex_Main "HOL-Library.Log_Nat" Prelude
begin

text \<open>
  The part of \<open>f64\<close> that the program computes with: conversion from \<open>u64\<close> and division, for
  positive values whose quotient is far from the limits of the exponent.  A value is the rational
  it stands for, and a result is rounded to 53 significant bits, to the nearest, ties to even
  (IEEE 754, binary64).  Quotients of integers below \<open>2 ^ 64\<close> lie between \<open>2 ^ - 64\<close> and
  \<open>2 ^ 64\<close>, so neither overflow nor subnormal numbers occur.
\<close>

section \<open>Rounding\<close>

definition pow2 :: "int \<Rightarrow> rat" where
  "pow2 e = (if 0 \<le> e then 2 ^ nat e else 1 / 2 ^ nat (- e))"

text \<open>The exponent of the leading bit, from the numbers of bits of the numerator and denominator.\<close>

definition f64_exp :: "rat \<Rightarrow> int" where
  "f64_exp q =
     (case quotient_of q of (n, d) \<Rightarrow>
        let k = int (floorlog 2 (nat n)) - int (floorlog 2 (nat d))
        in if pow2 k \<le> q then k else k - 1)"

definition round_even :: "rat \<Rightarrow> int" where
  "round_even q =
     (let f = \<lfloor>q\<rfloor>; r = q - of_int f
      in if r < 1 / 2 then f else if r > 1 / 2 then f + 1 else if even f then f else f + 1)"

definition f64_round :: "rat \<Rightarrow> rat" where
  "f64_round q =
     (if q \<le> 0 then 0
      else let e = f64_exp q - 52 in of_int (round_even (q / pow2 e)) * pow2 e)"

definition f64_of_u64 :: "u64 \<Rightarrow> rat" where
  "f64_of_u64 w = f64_round (of_nat (unat w))"

definition f64_div :: "rat \<Rightarrow> rat \<Rightarrow> rat" where
  "f64_div x y = f64_round (x / y)"

section \<open>Facts on the exponent\<close>

lemma pow2_pos [simp]: "0 < pow2 e"
  by (simp add: pow2_def)

lemma pow2_nonzero [simp]: "pow2 e \<noteq> 0"
  by (simp add: pow2_def)

lemma pow2_abs [simp]: "\<bar>pow2 e\<bar> = pow2 e"
  by (simp add: pow2_def)

lemma pow2_add: "pow2 (a + b) = pow2 a * pow2 b"
proof -
  have "pow2 e = 2 powi e" for e by (simp add: pow2_def power_int_def field_simps)
  then show ?thesis by (simp add: power_int_add)
qed

lemma pow2_mono: "a \<le> b \<Longrightarrow> pow2 a \<le> pow2 b"
proof -
  assume "a \<le> b"
  then have "pow2 b = pow2 a * pow2 (b - a)" and "1 \<le> pow2 (b - a)"
    using pow2_add [of a "b - a"] by (simp_all add: pow2_def)
  then show ?thesis using mult_left_mono [of 1 "pow2 (b - a)" "pow2 a"] by (simp add: less_imp_le)
qed

lemma pow2_less: "pow2 a < pow2 b \<Longrightarrow> a < b"
  using pow2_mono [of b a] by linarith

lemma floorlog_pow2:
  assumes "0 < n"
  shows "pow2 (int (floorlog 2 (nat n)) - 1) \<le> of_int n" and "of_int n < pow2 (int (floorlog 2 (nat n)))"
proof -
  let ?b = "floorlog 2 (nat n)"
  have b: "2 ^ (?b - 1) \<le> nat n" "nat n < 2 ^ ?b" "0 < ?b"
    using floorlog_bounds [of "nat n" 2] assms by (simp_all add: floorlog_eq_zero_iff flip: neq0_conv)
  have nn: "(of_int n :: rat) = of_nat (nat n)" using assms by simp
  have "(of_nat (2 ^ (?b - 1)) :: rat) \<le> of_nat (nat n)" using b(1) by (simp only: of_nat_le_iff)
  then show "pow2 (int ?b - 1) \<le> of_int n"
    using b(3) unfolding nn pow2_def by (simp add: nat_diff_distrib)
  have "(of_nat (nat n) :: rat) < of_nat (2 ^ ?b)" using b(2) by (simp only: of_nat_less_iff)
  then show "of_int n < pow2 (int ?b)" unfolding nn pow2_def by simp
qed

lemma f64_exp_bounds:
  assumes "0 < q"
  shows "pow2 (f64_exp q) \<le> q" and "q < pow2 (f64_exp q + 1)"
proof -
  obtain n d where nd: "quotient_of q = (n, d)" by fastforce
  then have d: "0 < d" and q: "q = of_int n / of_int d"
    by (auto simp: quotient_of_denom_pos quotient_of_div)
  then have n: "0 < n" using assms by (simp add: zero_less_divide_iff)
  let ?N = "int (floorlog 2 (nat n))" and ?D = "int (floorlog 2 (nat d))"
  note fn = floorlog_pow2 [OF n] and fd = floorlog_pow2 [OF d]
  have dpos: "(0 :: rat) < of_int d" using d by simp
  have "pow2 (?N - ?D - 1) * of_int d \<le> pow2 (?N - ?D - 1) * pow2 ?D"
    using fd(2) by (intro mult_left_mono) (simp_all add: less_imp_le)
  also have "\<dots> = pow2 (?N - 1)" by (simp add: pow2_add [symmetric])
  also have "\<dots> \<le> of_int n" by (rule fn(1))
  finally have low: "pow2 (?N - ?D - 1) \<le> q" using dpos by (simp add: q pos_le_divide_eq)
  have "of_int n < pow2 ?N" by (rule fn(2))
  also have "\<dots> = pow2 (?N - ?D + 1) * pow2 (?D - 1)" by (simp add: pow2_add [symmetric])
  also have "\<dots> \<le> pow2 (?N - ?D + 1) * of_int d"
    using fd(1) by (intro mult_left_mono) (simp_all add: less_imp_le)
  finally have high: "q < pow2 (?N - ?D + 1)" using dpos by (simp add: q pos_divide_less_eq)
  show "pow2 (f64_exp q) \<le> q" "q < pow2 (f64_exp q + 1)"
    using low high by (auto simp: f64_exp_def nd Let_def)
qed

lemma f64_exp_mono: "0 < p \<Longrightarrow> p \<le> q \<Longrightarrow> f64_exp p \<le> f64_exp q"
  using f64_exp_bounds(1) [of p] f64_exp_bounds(2) [of q] pow2_less [of "f64_exp p" "f64_exp q + 1"]
  by linarith

section \<open>Facts on rounding\<close>

lemma round_even_int [simp]: "round_even (of_int k) = k"
  by (simp add: round_even_def)

lemma round_even_bounds: "of_int \<lfloor>q\<rfloor> \<le> (of_int (round_even q) :: rat)" "round_even q \<le> \<lfloor>q\<rfloor> + 1"
  by (simp_all add: round_even_def Let_def)

lemma round_even_near: "\<bar>of_int (round_even q) - q\<bar> \<le> 1 / 2"
  unfolding round_even_def Let_def abs_if by (simp split: if_split; linarith)

lemma round_even_mono: "p \<le> q \<Longrightarrow> round_even p \<le> round_even q"
proof -
  assume le: "p \<le> q"
  then have f: "\<lfloor>p\<rfloor> \<le> \<lfloor>q\<rfloor>" by (rule floor_mono)
  show ?thesis
  proof (cases "\<lfloor>p\<rfloor> = \<lfloor>q\<rfloor>")
    case True
    with le show ?thesis by (auto simp: round_even_def Let_def)
  next
    case False
    with f round_even_bounds(2) [of p] round_even_bounds(1) [of q] show ?thesis by simp
  qed
qed

text \<open>A value with 53 significant bits is not changed.\<close>

lemma f64_round_exact:
  assumes "0 < q" and "q = of_int k * pow2 (f64_exp q - 52)"
  shows "f64_round q = q"
proof -
  have "q / pow2 (f64_exp q - 52) = of_int k"
    using assms(2) pow2_pos [of "f64_exp q - 52"] by (metis nonzero_mult_div_cancel_right less_irrefl)
  then show ?thesis using assms by (simp add: f64_round_def Let_def)
qed

lemma f64_exp_pow2: "f64_exp (pow2 k) = k"
proof -
  have "k < f64_exp (pow2 k) + 1" by (rule pow2_less) (rule f64_exp_bounds(2), simp)
  moreover have "pow2 (f64_exp (pow2 k)) < pow2 (k + 1)"
  proof -
    have "pow2 (f64_exp (pow2 k)) \<le> pow2 k" by (rule f64_exp_bounds(1)) simp
    also have "pow2 k < pow2 (k + 1)" by (simp add: pow2_add) (simp add: pow2_def)
    finally show ?thesis .
  qed
  then have "f64_exp (pow2 k) < k + 1" by (rule pow2_less)
  ultimately show ?thesis by simp
qed

lemma f64_round_pow2 [simp]: "f64_round (pow2 k) = pow2 k"
proof (rule f64_round_exact)
  show "pow2 k = of_int (2 ^ 52) * pow2 (f64_exp (pow2 k) - 52)"
    using pow2_add [of 52 "k - 52"] unfolding f64_exp_pow2 by (simp add: pow2_def [of 52])
qed simp

text \<open>Rounding stays within the power of two, and is within half a unit of the last place.\<close>

lemma f64_round_range:
  assumes "0 < q"
  shows "pow2 (f64_exp q) \<le> f64_round q" and "f64_round q \<le> pow2 (f64_exp q + 1)"
proof -
  let ?e = "f64_exp q - 52"
  have e: "pow2 (f64_exp q) = of_int (2 ^ 52) * pow2 ?e" "pow2 (f64_exp q + 1) = of_int (2 ^ 53) * pow2 ?e"
    using pow2_add [of 52 ?e] pow2_add [of 53 ?e]
    by (simp_all add: pow2_def [of 52] pow2_def [of 53] add.commute)
  have "of_int (2 ^ 52) \<le> q / pow2 ?e" "q / pow2 ?e \<le> of_int (2 ^ 53)"
    using f64_exp_bounds [OF assms] unfolding e by (simp_all add: pos_le_divide_eq pos_divide_le_eq)
  from round_even_mono [OF this(1)] round_even_mono [OF this(2)]
  have "2 ^ 52 \<le> round_even (q / pow2 ?e)" "round_even (q / pow2 ?e) \<le> 2 ^ 53"
    by (simp_all only: round_even_int)
  then have "(of_int (2 ^ 52) :: rat) \<le> of_int (round_even (q / pow2 ?e))"
    "(of_int (round_even (q / pow2 ?e)) :: rat) \<le> of_int (2 ^ 53)" by (simp_all only: of_int_le_iff)
  then show "pow2 (f64_exp q) \<le> f64_round q" "f64_round q \<le> pow2 (f64_exp q + 1)"
    using assms unfolding e by (simp_all add: f64_round_def Let_def)
qed

lemma f64_round_error: "0 < q \<Longrightarrow> \<bar>f64_round q - q\<bar> \<le> q / 2 ^ 53"
proof -
  assume q: "0 < q"
  let ?e = "f64_exp q - 52"
  have "f64_round q - q = (of_int (round_even (q / pow2 ?e)) - q / pow2 ?e) * pow2 ?e"
    using q pow2_pos [of ?e] by (simp add: f64_round_def Let_def left_diff_distrib)
  then have "\<bar>f64_round q - q\<bar> = \<bar>of_int (round_even (q / pow2 ?e)) - q / pow2 ?e\<bar> * pow2 ?e"
    by (simp add: abs_mult)
  also have "\<dots> \<le> 1 / 2 * pow2 ?e" using round_even_near by (intro mult_right_mono) (simp_all add: less_imp_le)
  also have "\<dots> = pow2 (f64_exp q) / 2 ^ 53"
    using pow2_add [of 52 ?e] by (simp add: pow2_def [of 52])
  also have "\<dots> \<le> q / 2 ^ 53" using f64_exp_bounds(1) [OF q] by (intro divide_right_mono) simp_all
  finally show ?thesis .
qed

lemma f64_round_zero [simp]: "q \<le> 0 \<Longrightarrow> f64_round q = 0"
  by (simp add: f64_round_def)

lemma f64_round_pos: "0 < f64_round q \<longleftrightarrow> 0 < q"
proof
  assume "0 < q"
  then show "0 < f64_round q" by (intro less_le_trans [OF pow2_pos f64_round_range(1)])
next
  assume "0 < f64_round q"
  then show "0 < q" by (cases "0 < q") simp_all
qed

lemma f64_round_nonneg: "0 \<le> f64_round q"
  using f64_round_pos [of q] by (cases "0 < q") simp_all

lemma f64_round_mono:
  assumes "p \<le> q"
  shows "f64_round p \<le> f64_round q"
proof (cases "0 < p")
  case True
  then have q: "0 < q" using assms by simp
  show ?thesis
  proof (cases "f64_exp p = f64_exp q")
    case True
    have "round_even (p / pow2 (f64_exp q - 52)) \<le> round_even (q / pow2 (f64_exp q - 52))"
      using assms by (intro round_even_mono divide_right_mono) (simp_all add: less_imp_le)
    then show ?thesis
      using True \<open>0 < p\<close> q by (simp add: f64_round_def Let_def mult_right_mono less_imp_le)
  next
    case False
    with f64_exp_mono [OF True assms] have "f64_exp p + 1 \<le> f64_exp q" by simp
    from f64_round_range(2) [OF True] pow2_mono [OF this] f64_round_range(1) [OF q] show ?thesis by linarith
  qed
next
  case False
  then show ?thesis using f64_round_nonneg by (simp add: f64_round_def)
qed

lemma f64_round_1 [simp]: "f64_round 1 = 1"
  using f64_round_pow2 [of 0] by (simp add: pow2_def)

lemma f64_of_u64_mono: "v \<le> w \<Longrightarrow> f64_of_u64 v \<le> f64_of_u64 w"
  unfolding f64_of_u64_def by (rule f64_round_mono) (simp only: of_nat_le_iff word_le_nat_alt)

lemma f64_of_u64_nonneg: "0 \<le> f64_of_u64 w"
  by (simp only: f64_of_u64_def f64_round_nonneg)

lemma f64_of_u64_pos: "0 < f64_of_u64 w \<longleftrightarrow> w \<noteq> 0"
  unfolding f64_of_u64_def f64_round_pos of_nat_0_less_iff by (simp add: unat_gt_0)

text \<open>Integers below \<open>2 ^ 53\<close> are converted exactly.\<close>

lemma f64_of_small:
  assumes "unat w < 2 ^ 53"
  shows "f64_of_u64 w = of_nat (unat w)"
proof (cases "unat w = 0")
  case False
  let ?q = "of_nat (unat w) :: rat"
  have q: "0 < ?q" using False by (simp only: of_nat_0_less_iff neq0_conv [symmetric] not_False_eq_True)
  have "?q < of_nat (2 ^ 53)" using assms by (simp only: of_nat_less_iff)
  then have "pow2 (f64_exp ?q) < pow2 53" using f64_exp_bounds(1) [OF q] by (simp add: pow2_def)
  then have "f64_exp ?q \<le> 52" using pow2_less [of "f64_exp ?q" 53] by simp
  then obtain j where j: "f64_exp ?q - 52 = - int j" by (metis diff_le_0_iff_le nonpos_int_cases)
  have "?q = of_int (int (unat w) * 2 ^ j) * pow2 (f64_exp ?q - 52)"
    unfolding j by (simp add: pow2_def)
  from f64_round_exact [OF q this] show ?thesis by (simp add: f64_of_u64_def)
qed (simp add: f64_of_u64_def f64_round_def)

end
