(* ===== verification/Host.thy ===== *)
theory Host
  imports Float64 Prelude
begin

text \<open>
  storage/src/disk.rs and storage/src/sandbox.rs: the disks of a host and the sandbox around its
  storage process.  Whether a path exists is an argument.  An \<open>f64\<close> is the rational it stands
  for (Float64), and the multipliers are small binary fractions that it holds exactly.
\<close>

section \<open>Disks\<close>

datatype HostDiskType = HostHdd | HostSsd | HostNvme | HostUnknown

fun HostDiskType_multiplier :: "HostDiskType \<Rightarrow> rat" where
  "HostDiskType_multiplier HostHdd = 1"
| "HostDiskType_multiplier HostSsd = 3 / 2"
| "HostDiskType_multiplier HostNvme = 2"
| "HostDiskType_multiplier HostUnknown = 1"

record DiskInfo =
  di_path :: string
  di_disk_type :: HostDiskType
  di_total_bytes :: u64
  di_available_bytes :: u64
  di_used_bytes :: u64

definition utilization :: "DiskInfo \<Rightarrow> rat" where
  "utilization d =
     (if di_total_bytes d = 0 then 0
      else f64_div (f64_of_u64 (di_used_bytes d)) (f64_of_u64 (di_total_bytes d)))"

definition has_space :: "u64 \<Rightarrow> DiskInfo \<Rightarrow> bool" where
  "has_space required_bytes d \<longleftrightarrow> di_available_bytes d \<ge> required_bytes"

record DiskManager =
  dm_storage_paths :: "DiskInfo list"

definition DiskManager_new :: DiskManager where
  "DiskManager_new = \<lparr>dm_storage_paths = []\<rparr>"

definition DiskManager_default :: DiskManager where
  "DiskManager_default = DiskManager_new"

definition detect_disk_type :: "string \<Rightarrow> HostDiskType" where
  "detect_disk_type path = HostHdd"

definition probe_disk :: "(string \<Rightarrow> bool) \<Rightarrow> string \<Rightarrow> DiskInfo result" where
  "probe_disk path_exists path =
     (if \<not> path_exists path then Inl (Err (''Path does not exist: '' @ path))
      else let tot = 1099511627776; used = 0; available = tot - used; disk_type = detect_disk_type path
        in Inr \<lparr>di_path = path, di_disk_type = disk_type, di_total_bytes = tot,
                di_available_bytes = available, di_used_bytes = used\<rparr>)"

definition add_storage_path :: "(string \<Rightarrow> bool) \<Rightarrow> string \<Rightarrow> DiskManager \<Rightarrow> DiskManager \<times> unit result" where
  "add_storage_path path_exists path m =
     (case probe_disk path_exists path of
        Inl e \<Rightarrow> (m, Inl e)
      | Inr info \<Rightarrow> (m\<lparr>dm_storage_paths := dm_storage_paths m @ [info]\<rparr>, Inr ()))"

definition total_available :: "DiskManager \<Rightarrow> u64" where
  "total_available m = sum_list (map di_available_bytes (dm_storage_paths m))"

definition total_used :: "DiskManager \<Rightarrow> u64" where
  "total_used m = sum_list (map di_used_bytes (dm_storage_paths m))"

definition get_disk_info :: "string \<Rightarrow> DiskManager \<Rightarrow> DiskInfo option" where
  "get_disk_info path m = find (\<lambda>d. di_path d = path) (dm_storage_paths m)"

definition list_disks :: "DiskManager \<Rightarrow> DiskInfo list" where
  "list_disks m = dm_storage_paths m"

section \<open>The sandbox\<close>

datatype SandboxType = SeccompCgroups | Wasm | NoSandbox

text \<open>The build target decides; \<open>linux\<close> is \<open>cfg(target_os = "linux")\<close>.\<close>

definition platform_sandbox_type :: "bool \<Rightarrow> SandboxType" where
  "platform_sandbox_type linux = (if linux then SeccompCgroups else Wasm)"

record SandboxConfig =
  sb_max_memory_mb :: u64
  sb_max_cpu_percent :: u8
  sb_read_only_paths :: "string list"
  sb_write_path :: string
  sb_allow_network :: bool
  sb_allow_exec :: bool

definition SandboxConfig_default :: SandboxConfig where
  "SandboxConfig_default =
     \<lparr>sb_max_memory_mb = 512, sb_max_cpu_percent = 50, sb_read_only_paths = [],
      sb_write_path = ''/tmp/vaultkeeper-sandbox'', sb_allow_network = False, sb_allow_exec = False\<rparr>"

record SeccompConfig =
  se_allowed_syscalls :: "string list"
  se_blocked_syscalls :: "string list"

definition SeccompConfig_default :: SeccompConfig where
  "SeccompConfig_default =
     \<lparr>se_allowed_syscalls =
        [''read'', ''write'', ''openat'', ''close'', ''fstat'', ''lseek'', ''mmap'', ''munmap'', ''brk'',
         ''exit'', ''exit_group'', ''futex'', ''epoll_wait'', ''epoll_ctl'', ''epoll_create1'', ''statx'',
         ''newfstatat'', ''getrandom''],
      se_blocked_syscalls =
        [''fork'', ''clone'', ''execve'', ''execveat'', ''socket'', ''connect'', ''bind'', ''listen'',
         ''accept'', ''mount'', ''umount'', ''ptrace'', ''kill'', ''setuid'', ''setgid'']\<rparr>"

record Sandbox =
  sx_config :: SandboxConfig
  sx_sandbox_type :: SandboxType
  sx_is_active :: bool

definition Sandbox_new :: "bool \<Rightarrow> SandboxConfig \<Rightarrow> Sandbox result" where
  "Sandbox_new linux config =
     Inr \<lparr>sx_config = config, sx_sandbox_type = platform_sandbox_type linux, sx_is_active = False\<rparr>"

text \<open>A failed \<open>assert!\<close> is a panic.\<close>

definition assert_or_panic :: "bool \<Rightarrow> unit result" where
  "assert_or_panic b = (if b then Inr () else Inl Panic)"

fun check_dangerous :: "string list \<Rightarrow> string list \<Rightarrow> unit result" where
  "check_dangerous allowed [] = Inr ()"
| "check_dangerous allowed (s # rest) =
     try_then (assert_or_panic (s \<notin> set allowed)) (\<lambda>_. check_dangerous allowed rest)"

definition activate_seccomp :: "Sandbox \<Rightarrow> unit result" where
  "activate_seccomp s =
     check_dangerous (se_allowed_syscalls SeccompConfig_default)
       [''fork'', ''clone'', ''execve'', ''execveat'', ''socket'', ''connect'']"

definition activate_cgroups :: "Sandbox \<Rightarrow> unit result" where
  "activate_cgroups s =
     try_then (assert_or_panic (sb_max_memory_mb (sx_config s) > 0))
       (\<lambda>_. assert_or_panic (sb_max_cpu_percent (sx_config s) \<le> 100))"

definition activate :: "Sandbox \<Rightarrow> Sandbox \<times> unit result" where
  "activate s =
     (case (case sx_sandbox_type s of
              SeccompCgroups \<Rightarrow> try_then (activate_seccomp s) (\<lambda>_. activate_cgroups s)
            | Wasm \<Rightarrow> Inr ()
            | NoSandbox \<Rightarrow> Inr ()) of
        Inl e \<Rightarrow> (s, Inl e)
      | Inr _ \<Rightarrow> (s\<lparr>sx_is_active := True\<rparr>, Inr ()))"

definition sandbox_is_active :: "Sandbox \<Rightarrow> bool" where
  "sandbox_is_active s = sx_is_active s"

definition sandbox_type :: "Sandbox \<Rightarrow> SandboxType" where
  "sandbox_type s = sx_sandbox_type s"

definition is_network_blocked :: "Sandbox \<Rightarrow> bool" where
  "is_network_blocked s \<longleftrightarrow> \<not> sb_allow_network (sx_config s)"

definition is_exec_blocked :: "Sandbox \<Rightarrow> bool" where
  "is_exec_blocked s \<longleftrightarrow> \<not> sb_allow_exec (sx_config s)"

definition allowed_syscall_count :: nat where
  "allowed_syscall_count = length (se_allowed_syscalls SeccompConfig_default)"

definition blocked_syscall_count :: nat where
  "blocked_syscall_count = length (se_blocked_syscalls SeccompConfig_default)"

definition verify_host_isolation :: "bool \<Rightarrow> bool" where
  "verify_host_isolation linux =
     (case platform_sandbox_type linux of SeccompCgroups \<Rightarrow> True | Wasm \<Rightarrow> True | NoSandbox \<Rightarrow> False)"

lemma activate_seccomp_ok: "activate_seccomp s = Inr ()"
  by (simp add: activate_seccomp_def assert_or_panic_def SeccompConfig_default_def)

lemma syscalls_disjoint:
  "set (se_allowed_syscalls SeccompConfig_default) \<inter> set (se_blocked_syscalls SeccompConfig_default) = {}"
  by (simp add: SeccompConfig_default_def)

text \<open>
  Activation checks the limits and the constant list, and sets a flag; on Linux a limit out of
  range is a panic, elsewhere nothing is checked.
\<close>

lemma activate_result:
  "Sandbox_new linux config = Inr s \<Longrightarrow> snd (activate s) =
    (if linux \<and> (sb_max_memory_mb config = 0 \<or> sb_max_cpu_percent config > 100) then Inl Panic else Inr ())"
  by (auto simp: Sandbox_new_def platform_sandbox_type_def activate_def activate_seccomp_ok activate_cgroups_def
      assert_or_panic_def word_gt_0 not_le)

lemma activate_keeps_config: "sx_config (fst (activate s)) = sx_config s"
  by (simp add: activate_def split: sum.split)

section \<open>Capacity\<close>

fun add_paths :: "(string \<Rightarrow> bool) \<Rightarrow> string list \<Rightarrow> DiskManager \<Rightarrow> DiskManager" where
  "add_paths ex [] m = m"
| "add_paths ex (p # ps) m = add_paths ex ps (fst (add_storage_path ex p m))"

lemma add_paths_list:
  "map di_path (dm_storage_paths (add_paths ex ps m)) = map di_path (dm_storage_paths m) @ filter ex ps \<and>
   map di_available_bytes (dm_storage_paths (add_paths ex ps m)) =
     map di_available_bytes (dm_storage_paths m) @ replicate (length (filter ex ps)) 1099511627776"
  by (induction ps arbitrary: m) (simp_all add: add_storage_path_def probe_disk_def Let_def)

lemma sum_replicate_u64: "unat (sum_list (replicate n (1099511627776 :: u64))) = n * 1099511627776 mod 2 ^ 64"
proof -
  have "sum_list (replicate n (1099511627776 :: u64)) = of_nat (n * 1099511627776)"
    by (induction n) (simp_all add: algebra_simps)
  then show ?thesis by (simp only: unsigned_of_nat take_bit_eq_mod) simp
qed

section \<open>Properties\<close>

text \<open>
  Utilization.  It is never negative, at most 1 when no more than the total is used, 0 exactly
  for an unused disk (or one without capacity), and grows with what is used.  For disks below
  \<open>2 ^ 53\<close> bytes it is the true ratio up to the last of 53 bits.
\<close>

theorem disk_utilization:
  "0 \<le> utilization d \<and>
   (di_used_bytes d \<le> di_total_bytes d \<longrightarrow> utilization d \<le> 1) \<and>
   (utilization d = 0 \<longleftrightarrow> di_used_bytes d = 0 \<or> di_total_bytes d = 0) \<and>
   (di_used_bytes d \<le> u \<longrightarrow> utilization d \<le> utilization (d\<lparr>di_used_bytes := u\<rparr>)) \<and>
   (unat (di_used_bytes d) < 2 ^ 53 \<longrightarrow> unat (di_total_bytes d) < 2 ^ 53 \<longrightarrow> di_total_bytes d \<noteq> 0 \<longrightarrow>
      \<bar>utilization d - of_nat (unat (di_used_bytes d)) / of_nat (unat (di_total_bytes d))\<bar> \<le>
        of_nat (unat (di_used_bytes d)) / of_nat (unat (di_total_bytes d)) / 2 ^ 53)"
proof -
  let ?u = "di_used_bytes d" and ?t = "di_total_bytes d"
  show ?thesis
  proof (cases "?t = 0")
    case False
    then have t: "0 < f64_of_u64 ?t" by (simp add: f64_of_u64_pos)
    have mono: "utilization d \<le> utilization (d\<lparr>di_used_bytes := v\<rparr>)" if "?u \<le> v" for v
      using False t f64_of_u64_mono [OF that]
      by (auto simp: utilization_def f64_div_def intro!: f64_round_mono divide_right_mono)
    have one: "utilization (d\<lparr>di_used_bytes := ?t\<rparr>) = 1"
      using False t by (simp add: utilization_def f64_div_def)
    have zero: "utilization d = 0 \<longleftrightarrow> ?u = 0"
      using False t f64_round_pos [of "f64_of_u64 ?u / f64_of_u64 ?t"] f64_of_u64_nonneg [of ?u]
      by (auto simp: utilization_def f64_div_def f64_of_u64_pos zero_less_divide_iff order_le_less)
    have near: "\<bar>utilization d - of_nat (unat ?u) / of_nat (unat ?t)\<bar> \<le> of_nat (unat ?u) / of_nat (unat ?t) / 2 ^ 53"
      if "unat ?u < 2 ^ 53" "unat ?t < 2 ^ 53"
    proof (cases "?u = 0")
      case True
      then show ?thesis using zero by simp
    next
      case u: False
      let ?q = "of_nat (unat ?u) / of_nat (unat ?t) :: rat"
      have "0 < ?q" using u False by (intro divide_pos_pos) (simp_all only: of_nat_0_less_iff unat_gt_0 not_False_eq_True)
      from f64_round_error [OF this] show ?thesis
        using False that by (simp only: utilization_def f64_div_def f64_of_small if_False)
    qed
    show ?thesis
      using mono [of ?t] mono [of u] one zero near f64_round_nonneg False
      by (auto simp: utilization_def f64_div_def)
  qed (simp add: utilization_def)
qed

text \<open>
  Capacity.  After any attempts to add storage paths to a new manager, exactly the
  existing ones are kept, in order and with repetitions, each counted as one terabyte even when
  it is the same path again: the total available space is that many terabytes, modulo
  \<open>2 ^ 64\<close> bytes, and a path has an entry exactly if it was added and exists.
\<close>

theorem disk_capacity:
  "map di_path (list_disks (add_paths ex ps DiskManager_new)) = filter ex ps \<and>
   unat (total_available (add_paths ex ps DiskManager_new)) =
     length (filter ex ps) * 1099511627776 mod 2 ^ 64 \<and>
   (get_disk_info p (add_paths ex ps DiskManager_new) \<noteq> None) = (p \<in> set ps \<and> ex p)"
proof -
  let ?m = "add_paths ex ps DiskManager_new"
  have paths: "map di_path (dm_storage_paths ?m) = filter ex ps"
    "map di_available_bytes (dm_storage_paths ?m) = replicate (length (filter ex ps)) 1099511627776"
    using add_paths_list [of ex ps DiskManager_new] by (simp_all add: DiskManager_new_def)
  have "p \<in> set (map di_path (dm_storage_paths ?m)) \<longleftrightarrow> get_disk_info p ?m \<noteq> None"
    by (auto simp: get_disk_info_def find_None_iff)
  with paths show ?thesis
    unfolding list_disks_def total_available_def by (auto simp: sum_replicate_u64)
qed

end
