(* ===== verification/Strings.thy ===== *)
theory Strings
  imports Prelude "HOL-Library.Sublist"
begin

text \<open>
  What the program uses of the string functions of the standard library: \<open>trim\<close> and
  \<open>contains\<close> of \<open>str\<close>, and \<open>String::from_utf8_lossy\<close>.  A string holds its UTF-8 bytes.
\<close>

section \<open>Trimming\<close>

text \<open>The UTF-8 encodings of the characters with the Unicode property White_Space.\<close>

definition byte_string :: "nat list \<Rightarrow> string" where
  "byte_string ns = map char_of ns"

definition white_codes :: "nat list list" where
  "white_codes =
     [[9], [10], [11], [12], [13], [32], [0xC2, 0x85], [0xC2, 0xA0], [0xE1, 0x9A, 0x80]] @
     map (\<lambda>n. [0xE2, 0x80, n]) [0x80..<0x8B] @
     [[0xE2, 0x80, 0xA8], [0xE2, 0x80, 0xA9], [0xE2, 0x80, 0xAF], [0xE2, 0x81, 0x9F], [0xE3, 0x80, 0x80]]"

definition white_space :: "string list" where
  "white_space = map byte_string white_codes"

text \<open>Taking codes off the front as long as there is one; the empty code counts as none.\<close>

function strip_codes :: "'a list list \<Rightarrow> 'a list \<Rightarrow> 'a list" where
  "strip_codes codes s =
     (case find (\<lambda>w. w \<noteq> [] \<and> prefix w s) codes of
        None \<Rightarrow> s
      | Some w \<Rightarrow> strip_codes codes (drop (length w) s))"
  by pat_completeness auto
termination
proof (relation "measure (\<lambda>(codes, s). length s)", goal_cases)
  case (2 codes s w)
  then have "w \<noteq> []" "prefix w s" by (auto simp: find_Some_iff)
  then show ?case by (auto simp: prefix_def)
qed simp

declare strip_codes.simps [simp del]

definition trim_start :: "string \<Rightarrow> string" where
  "trim_start s = strip_codes white_space s"

definition trim_end :: "string \<Rightarrow> string" where
  "trim_end s = rev (strip_codes (map rev white_space) (rev s))"

definition trim :: "string \<Rightarrow> string" where
  "trim s = trim_end (trim_start s)"

lemma strip_codes_stop: "\<forall>w \<in> set codes. w \<noteq> [] \<longrightarrow> \<not> prefix w s \<Longrightarrow> strip_codes codes s = s"
  by (subst strip_codes.simps) (auto simp: find_None_iff find_Some_iff dest: nth_mem split: option.split)

text \<open>With a prefix-free set of codes a text of codes is taken off completely.\<close>

lemma strip_codes_one:
  assumes free: "\<forall>v \<in> set codes. \<forall>w \<in> set codes. prefix v w \<longrightarrow> v = w"
    and w: "w \<in> set codes" "w \<noteq> []"
  shows "strip_codes codes (w @ s) = strip_codes codes s"
proof -
  have "find (\<lambda>v. v \<noteq> [] \<and> prefix v (w @ s)) codes \<noteq> None"
    using w by (auto simp: find_None_iff)
  then obtain v where v: "find (\<lambda>v. v \<noteq> [] \<and> prefix v (w @ s)) codes = Some v" by auto
  then have "v \<in> set codes" "prefix v (w @ s)" by (auto simp: find_Some_iff)
  with prefix_same_cases [of v "w @ s" w] free w(1) have "v = w" by auto
  with v show ?thesis by (subst strip_codes.simps) simp
qed

lemma strip_codes_all:
  assumes "\<forall>v \<in> set codes. \<forall>w \<in> set codes. prefix v w \<longrightarrow> v = w" and "[] \<notin> set codes"
    and "set ws \<subseteq> set codes"
  shows "strip_codes codes (concat ws @ s) = strip_codes codes s"
  using assms(3)
proof (induction ws)
  case (Cons w ws)
  then have "w \<in> set codes" "w \<noteq> []" using assms(2) by auto
  from strip_codes_one [OF assms(1) this, of "concat ws @ s"] Cons show ?case by simp
qed simp

lemma white_codes_free:
  "\<forall>v \<in> set white_codes. \<forall>w \<in> set white_codes. prefix v w \<longrightarrow> v = w"
  "\<forall>v \<in> set white_codes. \<forall>w \<in> set white_codes. prefix (rev v) (rev w) \<longrightarrow> v = w"
  "\<forall>v \<in> set white_codes. v \<noteq> [] \<and> (\<forall>n \<in> set v. n < 256 \<and> (n \<le> 32 \<or> 128 \<le> n))"
  by code_simp+

lemma of_char_byte_string: "v \<in> set white_codes \<Longrightarrow> map of_char (byte_string v) = v"
  using white_codes_free(3) by (auto simp: byte_string_def o_def of_char_of intro!: map_idI)

lemma white_space_codes:
  "\<forall>v \<in> set white_space. \<forall>w \<in> set white_space. prefix v w \<longrightarrow> v = w"
  "\<forall>v \<in> set (map rev white_space). \<forall>w \<in> set (map rev white_space). prefix v w \<longrightarrow> v = w"
  "[] \<notin> set white_space"
proof -
  have "a = b" if "a \<in> set white_codes" "b \<in> set white_codes" "prefix (byte_string a) (byte_string b)" for a b
    using map_mono_prefix [OF that(3), of "of_char :: char \<Rightarrow> nat"] that(1,2) white_codes_free(1)
    by (simp add: of_char_byte_string)
  then show "\<forall>v \<in> set white_space. \<forall>w \<in> set white_space. prefix v w \<longrightarrow> v = w"
    unfolding white_space_def by fastforce
  have "a = b" if "a \<in> set white_codes" "b \<in> set white_codes"
    "prefix (rev (byte_string a)) (rev (byte_string b))" for a b
    using map_mono_prefix [OF that(3), of "of_char :: char \<Rightarrow> nat"] that(1,2) white_codes_free(2)
    by (simp add: of_char_byte_string rev_map [symmetric])
  then show "\<forall>v \<in> set (map rev white_space). \<forall>w \<in> set (map rev white_space). prefix v w \<longrightarrow> v = w"
    unfolding white_space_def by fastforce
  show "[] \<notin> set white_space"
    using white_codes_free(3) by (auto simp: white_space_def byte_string_def)
qed

text \<open>A graphic ASCII character is not part of the encoding of white space.\<close>

definition graphic :: "char \<Rightarrow> bool" where
  "graphic c \<longleftrightarrow> 32 < (of_char c :: nat) \<and> (of_char c :: nat) < 128"

lemma white_space_not_graphic:
  "\<forall>w \<in> set white_space. \<forall>c \<in> set w. \<not> graphic c"
proof (intro ballI notI)
  fix w c assume "w \<in> set white_space" "c \<in> set w" "graphic c"
  then obtain v where v: "v \<in> set white_codes" "c \<in> set (byte_string v)" by (auto simp: white_space_def)
  then have "of_char c \<in> set v" using of_char_byte_string [OF v(1)] by (metis image_eqI list.set_map)
  with v(1) white_codes_free(3) \<open>graphic c\<close> show False by (fastforce simp: graphic_def)
qed

lemma prefix_not_hd: "prefix w (c # s) \<Longrightarrow> w \<noteq> [] \<Longrightarrow> c \<in> set w"
  by (cases w) (auto simp: prefix_def)

lemma trim_spaces:
  assumes "set us \<subseteq> set white_space" and "set vs \<subseteq> set white_space"
    and "s \<noteq> []" and "graphic (hd s)" and "graphic (last s)"
  shows "trim (concat us @ s @ concat vs) = s"
proof -
  obtain c s' where s: "s = c # s'" using assms(3) by (cases s) auto
  have "trim_start (concat us @ s @ concat vs) = strip_codes white_space (s @ concat vs)"
    using strip_codes_all [OF white_space_codes(1,3) assms(1)] by (simp add: trim_start_def)
  also have "\<dots> = s @ concat vs"
    using assms(4) white_space_not_graphic
    by (intro strip_codes_stop) (auto simp: s dest!: prefix_not_hd)
  finally have "trim (concat us @ s @ concat vs) = trim_end (s @ concat vs)" by (simp add: trim_def)
  also have "rev (s @ concat vs) = concat (map rev (rev vs)) @ rev s" by (simp add: rev_concat rev_map)
  then have "trim_end (s @ concat vs) = rev (strip_codes (map rev white_space) (rev s))"
    using strip_codes_all [OF white_space_codes(2), of "map rev (rev vs)" "rev s"] assms(2) white_space_codes(3)
    by (auto simp: trim_end_def)
  also have "strip_codes (map rev white_space) (rev s) = rev s"
  proof (rule strip_codes_stop, intro ballI impI notI)
    fix w assume w: "w \<in> set (map rev white_space)" "w \<noteq> []" "prefix w (rev s)"
    have "rev s = last s # rev (butlast s)" using assms(3) by (metis append_butlast_last_id rev_eq_Cons_iff rev_rev_ident)
    with w have "last s \<in> set w" by (metis prefix_not_hd)
    with w(1) assms(5) white_space_not_graphic show False by auto
  qed
  finally show ?thesis by simp
qed


section \<open>Searching\<close>

fun contains :: "'a list \<Rightarrow> 'a list \<Rightarrow> bool" where
  "contains pat [] = (pat = [])"
| "contains pat (x # xs) = (prefix pat (x # xs) \<or> contains pat xs)"

lemma contains_iff: "contains pat s \<longleftrightarrow> (\<exists>us vs. s = us @ pat @ vs)"
proof (induction s)
  case (Cons x xs)
  have "(\<exists>us vs. x # xs = us @ pat @ vs) \<longleftrightarrow> prefix pat (x # xs) \<or> (\<exists>us vs. xs = us @ pat @ vs)"
    by (auto simp: prefix_def Cons_eq_append_conv)
  with Cons.IH show ?case by simp
qed simp

section \<open>Decoding bytes\<close>

text \<open>
  \<open>utf8_step\<close> reads one character or one maximal ill-formed piece from the front: how many bytes
  it takes, and whether they are well-formed.  A missing byte reads as 0.
\<close>

definition safe_get :: "bytes \<Rightarrow> nat \<Rightarrow> nat" where
  "safe_get b i = (if i < length b then unat (b ! i) else 0)"

definition is_tail :: "nat \<Rightarrow> bool" where
  "is_tail n \<longleftrightarrow> 0x80 \<le> n \<and> n \<le> 0xBF"

definition second_of_3 :: "nat \<Rightarrow> nat \<Rightarrow> bool" where
  "second_of_3 first n \<longleftrightarrow>
     (if first = 0xE0 then 0xA0 \<le> n \<and> n \<le> 0xBF
      else if first = 0xED then 0x80 \<le> n \<and> n \<le> 0x9F else is_tail n)"

definition second_of_4 :: "nat \<Rightarrow> nat \<Rightarrow> bool" where
  "second_of_4 first n \<longleftrightarrow>
     (if first = 0xF0 then 0x90 \<le> n \<and> n \<le> 0xBF
      else if first = 0xF4 then 0x80 \<le> n \<and> n \<le> 0x8F else is_tail n)"

definition utf8_step :: "bytes \<Rightarrow> nat \<times> bool" where
  "utf8_step b =
     (let first = safe_get b 0 in
      if first < 0x80 then (1, True)
      else if 0xC2 \<le> first \<and> first \<le> 0xDF then
        (if is_tail (safe_get b 1) then (2, True) else (1, False))
      else if 0xE0 \<le> first \<and> first \<le> 0xEF then
        (if \<not> second_of_3 first (safe_get b 1) then (1, False)
         else if is_tail (safe_get b 2) then (3, True) else (2, False))
      else if 0xF0 \<le> first \<and> first \<le> 0xF4 then
        (if \<not> second_of_4 first (safe_get b 1) then (1, False)
         else if \<not> is_tail (safe_get b 2) then (2, False)
         else if is_tail (safe_get b 3) then (4, True) else (3, False))
      else (1, False))"

lemma utf8_step_pos: "0 < fst (utf8_step b)"
  by (simp add: utf8_step_def Let_def)

function lossy_bytes :: "bytes \<Rightarrow> bytes" where
  "lossy_bytes b =
     (if b = [] then []
      else let (n, ok) = utf8_step b
        in (if ok then take n b else [0xEF, 0xBF, 0xBD]) @ lossy_bytes (drop n b))"
  by pat_completeness auto
termination
proof (relation "measure length", goal_cases)
  case (2 b x n ok)
  then show ?case using utf8_step_pos [of b] by (cases "utf8_step b"; cases b) auto
qed simp

declare lossy_bytes.simps [simp del]

definition byte_char :: "byte \<Rightarrow> char" where
  "byte_char x = char_of (unat x)"

definition from_utf8_lossy :: "bytes \<Rightarrow> string" where
  "from_utf8_lossy b = map byte_char (lossy_bytes b)"

text \<open>
  Decoding replaces only bytes outside ASCII, by bytes outside ASCII: the search for an ASCII
  text gives the same answer on the bytes received.
\<close>

inductive same_ascii :: "bytes \<Rightarrow> bytes \<Rightarrow> bool" where
  ascii_Nil: "same_ascii [] []"
| ascii_byte: "same_ascii xs ys \<Longrightarrow> same_ascii (x # xs) (x # ys)"
| ascii_block: "same_ascii xs ys \<Longrightarrow> us \<noteq> [] \<Longrightarrow> vs \<noteq> [] \<Longrightarrow> \<forall>u \<in> set (us @ vs). 128 \<le> unat u \<Longrightarrow>
    same_ascii (us @ xs) (vs @ ys)"

definition ascii :: "bytes \<Rightarrow> bool" where
  "ascii b \<longleftrightarrow> (\<forall>x \<in> set b. unat x < 128)"

lemma prefix_block:
  "ascii pat \<Longrightarrow> us \<noteq> [] \<Longrightarrow> \<forall>u \<in> set us. 128 \<le> unat u \<Longrightarrow> prefix pat (us @ xs) \<longleftrightarrow> pat = []"
  by (cases pat; cases us) (auto simp: ascii_def not_le [symmetric])

lemma contains_block:
  "ascii pat \<Longrightarrow> pat \<noteq> [] \<Longrightarrow> \<forall>u \<in> set us. 128 \<le> unat u \<Longrightarrow> contains pat (us @ xs) \<longleftrightarrow> contains pat xs"
proof (induction us)
  case (Cons u us)
  then show ?case using prefix_block [of pat "u # us" xs] by simp
qed simp

lemma same_ascii_prefix: "same_ascii xs ys \<Longrightarrow> ascii pat \<Longrightarrow> prefix pat xs \<longleftrightarrow> prefix pat ys"
proof (induction arbitrary: pat rule: same_ascii.induct)
  case (ascii_byte xs ys x)
  then show ?case by (cases pat) (auto simp: ascii_def)
next
  case (ascii_block xs ys us vs)
  then show ?case by (simp add: prefix_block)
qed simp

lemma same_ascii_contains:
  "same_ascii xs ys \<Longrightarrow> ascii pat \<Longrightarrow> pat \<noteq> [] \<Longrightarrow> contains pat xs \<longleftrightarrow> contains pat ys"
proof (induction rule: same_ascii.induct)
  case (ascii_byte xs ys x)
  then show ?case
    using same_ascii_prefix [OF same_ascii.ascii_byte [OF ascii_byte.hyps], of pat x] by simp
next
  case (ascii_block xs ys us vs)
  then show ?case by (simp add: contains_block)
qed simp

text \<open>One step takes an ASCII byte, or a piece that lies outside ASCII.\<close>

lemma safe_get_high: "128 \<le> safe_get b i \<Longrightarrow> i < length b \<and> 128 \<le> unat (b ! i)"
  by (auto simp: safe_get_def split: if_splits)

lemma tail_high:
  "is_tail n \<Longrightarrow> 128 \<le> n" "second_of_3 k n \<Longrightarrow> 128 \<le> n" "second_of_4 k n \<Longrightarrow> 128 \<le> n"
  by (auto simp: is_tail_def second_of_3_def second_of_4_def split: if_splits)

lemma utf8_step_high:
  assumes "128 \<le> safe_get b 0" and "utf8_step b = (n, ok)" and "i < n"
  shows "128 \<le> safe_get b i"
proof -
  consider "i = 0" | "i = 1" "1 < n" | "i = 2" "2 < n" | "i = 3" "3 < n" | "4 \<le> i" using assms(3) by linarith
  then show ?thesis
    using assms by cases (auto simp: utf8_step_def Let_def dest: tail_high split: if_splits)
qed

lemma lossy_same_ascii: "same_ascii b (lossy_bytes b)"
proof (induction b rule: lossy_bytes.induct)
  case (1 b)
  show ?case
  proof (cases b)
    case Nil
    then show ?thesis by (simp add: lossy_bytes.simps [of "[]"] ascii_Nil)
  next
    case (Cons x xs)
    obtain n ok where step: "utf8_step b = (n, ok)" by (cases "utf8_step b")
    from "1" Cons step have IH: "same_ascii (drop n b) (lossy_bytes (drop n b))" by simp
    have eq: "lossy_bytes b = (if ok then take n b else [0xEF, 0xBF, 0xBD]) @ lossy_bytes (drop n b)"
      using Cons step by (subst lossy_bytes.simps) simp
    show ?thesis
    proof (cases "128 \<le> safe_get b 0")
      case False
      with Cons step have "n = 1 \<and> ok" by (auto simp: utf8_step_def Let_def)
      with IH eq Cons show ?thesis by (simp add: ascii_byte)
    next
      case True
      have high: "i < length b \<and> 128 \<le> unat (b ! i)" if "i < n" for i
        using safe_get_high utf8_step_high [OF True step that] by blast
      have "\<forall>u \<in> set (take n b). 128 \<le> unat u"
        using high by (auto simp: in_set_conv_nth)
      moreover have "take n b \<noteq> []" using utf8_step_pos [of b] step Cons by simp
      ultimately have "same_ascii (take n b @ drop n b) (lossy_bytes b)"
        unfolding eq using IH by (intro ascii_block) auto
      then show ?thesis by simp
    qed
  qed
qed

lemma unat_eq: "unat x = unat y \<Longrightarrow> x = y"
  by (simp add: word_unat_eq_iff)

lemma byte_char_inj: "byte_char x = byte_char y \<longleftrightarrow> x = y"
proof
  assume "byte_char x = byte_char y"
  then have "(of_char (char_of (unat x) :: char) :: nat) = of_char (char_of (unat y) :: char)"
    by (simp add: byte_char_def)
  then have "unat x = unat y" using byte_bound [of x] byte_bound [of y] by (simp add: of_char_of)
  then show "x = y" by (rule unat_eq)
qed simp

lemma byte_char_of: "byte_char (of_char c) = c"
proof -
  have "(of_char c :: nat) < 256" by (rule nat_of_char_less_256)
  then have "unat (of_char c :: byte) = of_char c"
    using unat_of_nat [of "of_char c", where ?'a = 8] by (simp add: of_nat_of_char)
  then show ?thesis by (simp add: byte_char_def)
qed

lemma prefix_map_byte_char: "prefix (map byte_char p) (map byte_char s) \<longleftrightarrow> prefix p s"
proof (induction p arbitrary: s)
  case (Cons a p)
  then show ?case by (cases s) (simp_all add: byte_char_inj)
qed simp

lemma contains_map_byte_char: "contains (map byte_char p) (map byte_char s) \<longleftrightarrow> contains p s"
proof (induction s)
  case (Cons a s)
  then show ?case using prefix_map_byte_char [of p "a # s"] by simp
qed simp

lemma contains_lossy:
  assumes "ascii (as_bytes pat)" and "pat \<noteq> []"
  shows "contains pat (from_utf8_lossy b) \<longleftrightarrow> contains (as_bytes pat) b"
proof -
  have "map byte_char (as_bytes pat) = pat" by (simp add: as_bytes_def o_def byte_char_of)
  then have "contains pat (from_utf8_lossy b) \<longleftrightarrow> contains (as_bytes pat) (lossy_bytes b)"
    using contains_map_byte_char [of "as_bytes pat"] by (simp add: from_utf8_lossy_def)
  also have "\<dots> \<longleftrightarrow> contains (as_bytes pat) b"
    using same_ascii_contains [OF lossy_same_ascii assms(1)] assms(2) by (simp add: as_bytes_def)
  finally show ?thesis .
qed

end
