(* ===== verification/Api.thy ===== *)
theory Api
  imports Strings FileSystem
begin

text \<open>
  cli/src/api.rs: the HTTP interface of the daemon.  A connection is what reading from it and
  writing to it give: \<open>read\<close> delivers some bytes, at most the 4096 of the buffer, or fails.
\<close>

section \<open>Requests\<close>

definition status_response :: string where
  "status_response = ''{\"status\":\"running\",\"version\":\"0.1.0\"}''"

definition handle_body :: "string \<Rightarrow> string" where
  "handle_body request =
     (if contains ''GET /api/v1/status'' request then status_response
      else if contains ''GET /api/v1/balance'' request
        then ''{\"balance\":\"0.00\",\"currency\":\"RUB\",\"status\":\"active\"}''
      else if contains ''GET /api/v1/peers'' request then ''{\"peers\":[],\"count\":0}''
      else if contains ''GET /api/v1/chunks'' request then ''{\"chunks\":[],\"count\":0}''
      else ''{\"error\":\"not_found\"}'')"

definition crlf :: string where
  "crlf = [CHR 0x0D, CHR 0x0A]"

definition handle_request :: "string \<Rightarrow> string" where
  "handle_request request =
     (let response = handle_body request in
      ''HTTP/1.1 200 OK'' @ crlf @ ''Content-Type: application/json'' @ crlf @ ''Content-Length: '' @
      show_nat (length response) @ crlf @ ''Connection: close'' @ crlf @ crlf @ response)"

section \<open>The server\<close>

datatype api_event =
    AcceptFailed string
  | Connection "bytes option" "unit result" "unit result"

text \<open>
  The loop over the connections that come in: the responses written, and the error with which
  the server ends, \<open>None\<close> while it goes on listening.  A connection holds the bytes that
  \<open>read\<close> delivers, or \<open>None\<close> if it fails, and the results of writing and of shutting down.
\<close>

fun api_loop :: "api_event list \<Rightarrow> string list \<times> rust_error option" where
  "api_loop [] = ([], None)"
| "api_loop (AcceptFailed e # rest) = ([], Some (Err e))"
| "api_loop (Connection received written shut # rest) =
     (case received of
        None \<Rightarrow> api_loop rest
      | Some b \<Rightarrow>
          if b = [] then api_loop rest
          else
            let request = from_utf8_lossy (take 4096 b);
                response = handle_request request
            in (case written of
                  Inl e \<Rightarrow> ([], Some e)
                | Inr _ \<Rightarrow>
                    (case shut of
                       Inl e \<Rightarrow> ([response], Some e)
                     | Inr _ \<Rightarrow>
                         let (out, r) = api_loop rest in (response # out, r))))"

text \<open>\<open>parse_addr\<close> reads a socket address, \<open>bind\<close> is the outcome of listening on it.\<close>

definition run_api_server ::
  "(string \<Rightarrow> 'a option) \<Rightarrow> ('a \<Rightarrow> unit result) \<Rightarrow> string \<Rightarrow> api_event list \<Rightarrow> string list \<times> rust_error option" where
  "run_api_server parse_addr bind addr events =
     (case parse_addr addr of
        None \<Rightarrow> ([], Some (Err ''invalid socket address syntax''))
      | Some socket_addr \<Rightarrow>
          (case bind socket_addr of
             Inl e \<Rightarrow> ([], Some e)
           | Inr _ \<Rightarrow> api_loop events))"

section \<open>A client\<close>

text \<open>
  What a client makes of a response: the lines of the head up to an empty line, and the body,
  which has to be as long as the head declares.
\<close>

fun take_line :: "string \<Rightarrow> (string \<times> string) option" where
  "take_line [] = None"
| "take_line [c] = None"
| "take_line (c # d # s) =
     (if [c, d] = crlf then Some ([], s)
      else map_option (\<lambda>(l, r). (c # l, r)) (take_line (d # s)))"

lemma take_line_shorter: "take_line s = Some (l, r) \<Longrightarrow> length r < length s"
  by (induction s arbitrary: l r rule: take_line.induct) (auto split: if_splits)

function read_head :: "string \<Rightarrow> (string list \<times> string) option" where
  "read_head s =
     (case take_line s of
        None \<Rightarrow> None
      | Some (l, r) \<Rightarrow>
          if l = [] then Some ([], r) else map_option (\<lambda>(ls, body). (l # ls, body)) (read_head r))"
  by pat_completeness auto
termination
  by (relation "measure length") (auto dest: take_line_shorter)

declare read_head.simps [simp del]

definition header_value :: "string \<Rightarrow> string list \<Rightarrow> string option" where
  "header_value name ls =
     map_option (drop (length name)) (find (\<lambda>l. take (length name) l = name) ls)"

definition http_parse :: "string \<Rightarrow> (string \<times> string) option" where
  "http_parse s =
     (case read_head s of
        Some (status # ls, body) \<Rightarrow>
          if map_option read_nat (header_value ''Content-Length: '' ls) = Some (length body)
          then Some (status, body) else None
      | _ \<Rightarrow> None)"

section \<open>Facts\<close>

lemma take_line_crlf: "CHR 0x0D \<notin> set l \<Longrightarrow> take_line (l @ crlf @ r) = Some (l, r)"
proof (induction l)
  case (Cons c l)
  then have "take_line (l @ crlf @ r) = Some (l, r)" "c \<noteq> CHR 0x0D" by auto
  then show ?case by (cases l) (auto simp: crlf_def)
qed (simp add: crlf_def)

lemma read_head_line:
  "CHR 0x0D \<notin> set l \<Longrightarrow> l \<noteq> [] \<Longrightarrow>
   read_head (l @ crlf @ r) = map_option (\<lambda>(ls, body). (l # ls, body)) (read_head r)"
  by (subst read_head.simps) (simp add: take_line_crlf)

lemma read_head_end: "read_head (crlf @ r) = Some ([], r)"
  using take_line_crlf [of "[]" r] by (subst read_head.simps) simp

lemma show_nat_graphic: "c \<in> set (show_nat n) \<Longrightarrow> graphic c"
proof (induction n rule: show_nat.induct)
  case (1 n)
  have "graphic (digit_char d)" if "d < 10" for d
    using that by (simp add: graphic_def digit_char_def of_char_of)
  with 1 show ?case by (subst (asm) show_nat.simps) (auto split: if_splits)
qed

lemma show_nat_not_Nil: "show_nat n \<noteq> []"
  by (subst show_nat.simps) simp

lemma http_response: "http_parse (handle_request request) = Some (''HTTP/1.1 200 OK'', handle_body request)"
proof -
  let ?b = "handle_body request"
  have cr: "CHR 0x0D \<notin> set (''Content-Length: '' @ show_nat (length ?b))"
    using show_nat_graphic [of "CHR 0x0D"] by (auto simp: graphic_def)
  have "read_head (''HTTP/1.1 200 OK'' @ crlf @ ''Content-Type: application/json'' @ crlf @
      (''Content-Length: '' @ show_nat (length ?b)) @ crlf @ ''Connection: close'' @ crlf @ crlf @ ?b) =
    Some ([''HTTP/1.1 200 OK'', ''Content-Type: application/json'',
      ''Content-Length: '' @ show_nat (length ?b), ''Connection: close''], ?b)"
    using read_head_line [OF cr] by (simp add: read_head_line read_head_end del: append_Cons)
  then show ?thesis
    by (simp add: http_parse_def handle_request_def Let_def header_value_def read_show_nat del: append_Cons)
qed

section \<open>Properties\<close>

text \<open>What one connection without faults in writing gets: nothing if it sent nothing.\<close>

fun answer :: "api_event \<Rightarrow> string list" where
  "answer (AcceptFailed e) = []"
| "answer (Connection received written shut) =
     (case received of
        None \<Rightarrow> []
      | Some b \<Rightarrow> if b = [] then [] else [handle_request (from_utf8_lossy (take 4096 b))])"

fun served :: "api_event \<Rightarrow> bool" where
  "served (AcceptFailed e) = False"
| "served (Connection received written shut) =
     (received = None \<or> received = Some [] \<or> is_ok written \<and> is_ok shut)"

lemma api_loop_served:
  "list_all served good \<Longrightarrow>
   api_loop (good @ rest) = (concat (map answer good) @ fst (api_loop rest), snd (api_loop rest))"
proof (induction good)
  case (Cons e good)
  then show ?case
    by (cases e) (auto simp: Let_def is_ok_def split: option.splits sum.splits)
qed simp

text \<open>The routes on the bytes that were received.\<close>

definition asks :: "string \<Rightarrow> bytes \<Rightarrow> bool" where
  "asks path b \<longleftrightarrow> contains (as_bytes (''GET /api/v1/'' @ path)) (take 4096 b)"

lemma asks_lossy:
  assumes "\<forall>c \<in> set path. graphic c"
  shows "contains (''GET /api/v1/'' @ path) (from_utf8_lossy (take 4096 b)) \<longleftrightarrow> asks path b"
proof -
  have "unat (of_char c :: byte) = of_char c" for c
    using byte_char_of [of c] byte_bound [of "of_char c"] unat_of_nat [of "of_char c", where ?'a = 8]
    by (simp add: of_nat_of_char)
  then have "ascii (as_bytes (''GET /api/v1/'' @ path))"
    using assms by (auto simp: ascii_def as_bytes_def graphic_def)
  from contains_lossy [OF this] show ?thesis by (simp add: asks_def)
qed

definition route :: "bytes \<Rightarrow> string" where
  "route b =
     (if asks ''status'' b then ''{\"status\":\"running\",\"version\":\"0.1.0\"}''
      else if asks ''balance'' b then ''{\"balance\":\"0.00\",\"currency\":\"RUB\",\"status\":\"active\"}''
      else if asks ''peers'' b then ''{\"peers\":[],\"count\":0}''
      else if asks ''chunks'' b then ''{\"chunks\":[],\"count\":0}''
      else ''{\"error\":\"not_found\"}'')"

lemma handle_body_route: "handle_body (from_utf8_lossy (take 4096 b)) = route b"
  using asks_lossy [of "''status''" b] asks_lossy [of "''balance''" b] asks_lossy [of "''peers''" b]
    asks_lossy [of "''chunks''" b]
  by (simp add: handle_body_def route_def status_response_def graphic_def)

text \<open>
  C40: the HTTP interface.  As long as every connection that sent something can be written to
  and shut down, the server goes on listening, and answers each of them once, in order, with a
  well-framed response whose body depends on the first text \<open>GET /api/v1/...\<close> that occurs anywhere
  in the first 4096 bytes; the status line says 200 OK even for what is not found.  The first
  response that cannot be written ends the server, whatever connections follow.
\<close>

theorem api_server:
  assumes "list_all served good"
  shows "api_loop good = (concat (map answer good), None) \<and>
    (\<forall>b w s. b \<noteq> [] \<longrightarrow> (\<exists>x. answer (Connection (Some b) w s) = [x] \<and>
       http_parse x = Some (''HTTP/1.1 200 OK'', route b))) \<and>
    (\<forall>b e s rest. b \<noteq> [] \<longrightarrow>
       api_loop (good @ Connection (Some b) (Inl e) s # rest) = (concat (map answer good), Some e))"
  using api_loop_served [OF assms, of "[]"] api_loop_served [OF assms]
  by (simp add: http_response handle_body_route Let_def)

definition sample_request :: bytes where
  "sample_request = as_bytes (''GET /api/v1/peers HTTP/1.1'' @ crlf @ crlf)"

theorem api_server_witness:
  "api_loop [Connection None (Inr ()) (Inr ()), Connection (Some sample_request) (Inr ()) (Inr ())] =
     ([handle_request (from_utf8_lossy (take 4096 sample_request))], None) \<and>
   route sample_request = ''{\"peers\":[],\"count\":0}'' \<and>
   api_loop [Connection (Some sample_request) (Inl (Err ''broken pipe'')) (Inr ()),
     Connection (Some sample_request) (Inr ()) (Inr ())] = ([], Some (Err ''broken pipe''))"
proof -
  have ne: "sample_request \<noteq> []" by (simp add: sample_request_def as_bytes_def)
  have "api_loop [Connection None (Inr ()) (Inr ()), Connection (Some sample_request) (Inr ()) (Inr ())] =
      ([handle_request (from_utf8_lossy (take 4096 sample_request))], None)"
    using api_server [of "[Connection None (Inr ()) (Inr ()), Connection (Some sample_request) (Inr ()) (Inr ())]"] ne
    by simp
  moreover have "route sample_request = ''{\"peers\":[],\"count\":0}''"
    by (simp add: route_def asks_def sample_request_def crlf_def as_bytes_def)
  moreover have "api_loop [Connection (Some sample_request) (Inl (Err ''broken pipe'')) (Inr ()),
      Connection (Some sample_request) (Inr ()) (Inr ())] = ([], Some (Err ''broken pipe''))"
    using api_server [of "[]"] ne by simp
  ultimately show ?thesis by blast
qed

end
