(* ===== verification/Identity.thy ===== *)
theory Identity
  imports Prelude
begin

text \<open>
  The identity of a node and its transport (p2p/src/behaviour.rs, \<open>generate_identity\<close> and
  \<open>build_transport\<close>).  libp2p is a parameter: \<open>id_generate\<close> is the keypair that
  \<open>generate_ed25519\<close> makes from the random source, \<open>id_peer_id\<close> the identifier of its public
  key, and \<open>id_to_string\<close> the text form of an identifier.  Keypairs and identifiers are their
  bytes.
\<close>

section \<open>Identity\<close>

type_synonym keypair = bytes

type_synonym peer_id = bytes

record identity_api =
  id_generate :: "(nat \<Rightarrow> bytes) \<Rightarrow> keypair"
  id_peer_id :: "keypair \<Rightarrow> peer_id"
  id_to_string :: "peer_id \<Rightarrow> string"

definition generate_identity :: "identity_api \<Rightarrow> (nat \<Rightarrow> bytes) \<Rightarrow> keypair" where
  "generate_identity I rng = (let keypair = id_generate I rng in keypair)"

text \<open>The text form of the identifier of a new keypair.\<close>

definition fresh_name :: "identity_api \<Rightarrow> (nat \<Rightarrow> bytes) \<Rightarrow> string" where
  "fresh_name I rng = id_to_string I (id_peer_id I (id_generate I rng))"

section \<open>Transport\<close>

text \<open>
  The builder of a libp2p transport, one function for each call in the chain; \<open>tr_noise\<close> fails
  when the keypair cannot sign.
\<close>

record ('n, 't) transport_api =
  tr_noise :: "keypair \<Rightarrow> 'n result"
  tr_tcp :: "bool \<Rightarrow> 't"
  tr_upgrade_v1_lazy :: "'t \<Rightarrow> 't"
  tr_authenticate :: "'n \<Rightarrow> 't \<Rightarrow> 't"
  tr_multiplex_yamux :: "'t \<Rightarrow> 't"
  tr_boxed :: "'t \<Rightarrow> 't"

definition build_transport :: "('n, 't) transport_api \<Rightarrow> keypair \<Rightarrow> 't result" where
  "build_transport T keypair =
     try_then (tr_noise T keypair) (\<lambda>noise_config.
       let transport = tr_boxed T (tr_multiplex_yamux T (tr_authenticate T noise_config
             (tr_upgrade_v1_lazy T (tr_tcp T True))))
       in Inr transport)"

text \<open>Every transport that is built is authenticated with the key of the node.\<close>

lemma build_transport_authenticated:
  "build_transport T keypair = Inr t \<longleftrightarrow>
    (\<exists>noise. tr_noise T keypair = Inr noise \<and>
       t = tr_boxed T (tr_multiplex_yamux T (tr_authenticate T noise (tr_upgrade_v1_lazy T (tr_tcp T True)))))"
  by (cases "tr_noise T keypair") (auto simp: build_transport_def)

end
