(* ===== verification/DaemonConfig.thy ===== *)
theory DaemonConfig
  imports FileSystem Strings Identity
begin

text \<open>
  cli/src/config.rs: the configuration file of a node.  serde_json is the argument \<open>J\<close>; the
  identity that libp2p generates, the text and the bytes of its peer identifier, and the time
  are arguments of \<open>NodeConfig_generate\<close>.
\<close>

section \<open>Paths and text files\<close>

text \<open>
  \<open>PathBuf::from\<close> on Unix: the components of a path, repeated separators and \<open>.\<close> left out.  The
  root directory is the component \<open>/\<close>.
\<close>

fun split_on :: "char \<Rightarrow> string \<Rightarrow> string list" where
  "split_on sep [] = [[]]"
| "split_on sep (c # cs) =
     (if c = sep then [] # split_on sep cs
      else case split_on sep cs of [] \<Rightarrow> [[c]] | p # ps \<Rightarrow> (c # p) # ps)"

definition path_of :: "string \<Rightarrow> path" where
  "path_of s =
     (if take 1 s = ''/'' then [''/''] else []) @
     filter (\<lambda>p. p \<noteq> [] \<and> p \<noteq> ''.'') (split_on (CHR ''/'') s)"

text \<open>\<open>read_to_string\<close> fails on bytes that are not UTF-8.\<close>

function utf8_valid :: "bytes \<Rightarrow> bool" where
  "utf8_valid b =
     (if b = [] then True else let (n, ok) = utf8_step b in ok \<and> utf8_valid (drop n b))"
  by pat_completeness auto
termination
proof (relation "measure length", goal_cases)
  case (2 b x n ok)
  then show ?case using utf8_step_pos [of b] by (cases "utf8_step b"; cases b) auto
qed simp

declare utf8_valid.simps [simp del]

definition read_to_string :: "path \<Rightarrow> file_system \<Rightarrow> string result" where
  "read_to_string p fs =
     try_then (fs_read p fs) (\<lambda>b.
       if utf8_valid b then Inr (map byte_char b) else Inl (Err ''stream did not contain valid UTF-8''))"

section \<open>The configuration\<close>

record NodeConfig =
  nc_peer_id :: string
  nc_public_key :: bytes
  nc_data_dir :: string
  nc_p2p_port :: "16 word"
  nc_api_port :: "16 word"
  nc_created_at :: string

record config_json =
  cj_to_string_pretty :: "NodeConfig \<Rightarrow> string result"
  cj_from_str :: "string \<Rightarrow> NodeConfig result"

text \<open>The strings of a Rust program are valid UTF-8.\<close>

definition config_utf8 :: "NodeConfig \<Rightarrow> bool" where
  "config_utf8 c \<longleftrightarrow> utf8_valid (as_bytes (nc_peer_id c)) \<and> utf8_valid (as_bytes (nc_data_dir c)) \<and>
     utf8_valid (as_bytes (nc_created_at c))"

definition config_json_laws :: "config_json \<Rightarrow> bool" where
  "config_json_laws J \<longleftrightarrow>
     (\<forall>c. config_utf8 c \<longrightarrow> (\<exists>s. cj_to_string_pretty J c = Inr s \<and> utf8_valid (as_bytes s) \<and>
        cj_from_str J s = Inr c))"

definition config_path :: "string \<Rightarrow> path" where
  "config_path data_dir = path_of data_dir @ [''config.json'']"

definition NodeConfig_save :: "config_json \<Rightarrow> io \<Rightarrow> NodeConfig \<Rightarrow> string \<Rightarrow> file_system \<Rightarrow> file_system \<times> unit result" where
  "NodeConfig_save J io c data_dir fs =
     (case cj_to_string_pretty J c of
        Inl e \<Rightarrow> (fs, Inl e)
      | Inr content \<Rightarrow> fs_write io (config_path data_dir) (as_bytes content) fs)"

definition NodeConfig_generate ::
  "identity_api \<Rightarrow> (nat \<Rightarrow> bytes) \<Rightarrow> config_json \<Rightarrow> io \<Rightarrow> string \<Rightarrow> string \<Rightarrow> file_system \<Rightarrow>
   file_system \<times> NodeConfig result" where
  "NodeConfig_generate I rng J io now data_dir fs =
     (let keypair = id_generate I rng;
          peer_id = id_peer_id I keypair;
          config = \<lparr>nc_peer_id = id_to_string I peer_id, nc_public_key = id_peer_id I keypair, nc_data_dir = data_dir,
            nc_p2p_port = 9444, nc_api_port = 8080, nc_created_at = now\<rparr>
      in fs_then (NodeConfig_save J io config data_dir fs) (\<lambda>_ fs1. (fs1, Inr config)))"

definition NodeConfig_load :: "config_json \<Rightarrow> string \<Rightarrow> file_system \<Rightarrow> NodeConfig result" where
  "NodeConfig_load J data_dir fs =
     (case read_to_string (config_path data_dir) fs of
        Inl e \<Rightarrow> Inl (Err ''Config not found'')
      | Inr content \<Rightarrow> cj_from_str J content)"

section \<open>Facts\<close>

lemma byte_char_as_bytes: "map byte_char (as_bytes s) = s"
  by (simp add: as_bytes_def o_def byte_char_of)

lemma read_written:
  "hm_get (fs_files fs) p = Some (as_bytes s) \<Longrightarrow> utf8_valid (as_bytes s) \<Longrightarrow> read_to_string p fs = Inr s"
  by (simp add: read_to_string_def fs_read_def byte_char_as_bytes)

lemma generate_load:
  assumes "config_json_laws J" and "utf8_valid (as_bytes (fresh_name I rng))" and "utf8_valid (as_bytes dir)"
    and "utf8_valid (as_bytes now)"
    and "NodeConfig_generate I rng J io now dir fs = (fs', Inr c)"
  shows "NodeConfig_load J dir fs' = Inr c" and "nc_peer_id c = fresh_name I rng"
    and "nc_public_key c = id_peer_id I (id_generate I rng)" and "nc_p2p_port c = 9444" and "nc_api_port c = 8080"
proof -
  let ?c = "\<lparr>nc_peer_id = fresh_name I rng, nc_public_key = id_peer_id I (id_generate I rng), nc_data_dir = dir,
            nc_p2p_port = 9444, nc_api_port = 8080, nc_created_at = now\<rparr>"
  from assms(5) have c: "c = ?c" and save: "NodeConfig_save J io ?c dir fs = (fs', Inr ())"
    by (auto simp: NodeConfig_generate_def fresh_name_def Let_def fs_then_def split: prod.splits sum.splits)
  from assms(1-4) obtain s where s: "cj_to_string_pretty J ?c = Inr s" "utf8_valid (as_bytes s)"
    "cj_from_str J s = Inr ?c"
    by (force simp: config_json_laws_def config_utf8_def)
  from save s(1) have "fs_write io (config_path dir) (as_bytes s) fs = (fs', Inr ())"
    by (simp add: NodeConfig_save_def)
  then have "hm_get (fs_files fs') (config_path dir) = Some (as_bytes s)"
    using fs_write_self [of io "config_path dir" "as_bytes s" fs] by simp
  from read_written [OF this s(2)] s(3) show "NodeConfig_load J dir fs' = Inr c"
    by (simp add: NodeConfig_load_def c)
  show "nc_peer_id c = fresh_name I rng" "nc_public_key c = id_peer_id I (id_generate I rng)" "nc_p2p_port c = 9444" "nc_api_port c = 8080" by (simp_all add: c)
qed

end
