(* ===== verification/Recovery.thy ===== *)
theory Recovery
  imports CoreTypes Strings
begin

text \<open>
  core/src/bip39_recovery.rs: mnemonic phrases.  The bip39 crate is the argument \<open>B\<close>, the random
  source \<open>rng\<close>.  \<open>bip39_laws\<close> is what the crate documents: \<open>generate_in_with\<close> takes the number
  of words, which has to be 12, 15, 18, 21 or 24; a seed has 64 bytes; the phrase of a mnemonic
  parses to it, and is made of words and single spaces.
\<close>

section \<open>The crate\<close>

record 'm bip39_crate =
  bp_generate_in_with :: "(nat \<Rightarrow> bytes) \<Rightarrow> nat \<Rightarrow> 'm option"
  bp_parse_normalized :: "string \<Rightarrow> 'm option"
  bp_to_seed :: "'m \<Rightarrow> string \<Rightarrow> bytes"
  bp_to_string :: "'m \<Rightarrow> string"
  bp_word_count :: "'m \<Rightarrow> nat"

definition word_counts :: "nat set" where
  "word_counts = {12, 15, 18, 21, 24}"

definition bip39_laws :: "'m bip39_crate \<Rightarrow> bool" where
  "bip39_laws B \<longleftrightarrow>
     (\<forall>rng n. if n \<in> word_counts
        then \<exists>m. bp_generate_in_with B rng n = Some m \<and> bp_word_count B m = n
        else bp_generate_in_with B rng n = None) \<and>
     (\<forall>m pass. length (bp_to_seed B m pass) = 64) \<and>
     (\<forall>m. bp_parse_normalized B (bp_to_string B m) = Some m) \<and>
     (\<forall>m. bp_to_string B m \<noteq> [] \<and> graphic (hd (bp_to_string B m)) \<and> graphic (last (bp_to_string B m)))"

section \<open>The operations\<close>

definition generate_mnemonic :: "'m bip39_crate \<Rightarrow> (nat \<Rightarrow> bytes) \<Rightarrow> MnemonicWordCount \<Rightarrow> 'm result" where
  "generate_mnemonic B rng word_count =
     (case (case word_count of
              Twelve \<Rightarrow> bp_generate_in_with B rng 128
            | TwentyFour \<Rightarrow> bp_generate_in_with B rng 256) of
        None \<Rightarrow> Inl (Err ''Failed to generate mnemonic'')
      | Some mnemonic \<Rightarrow> Inr mnemonic)"

text \<open>The slice panics when the seed is shorter than a key.\<close>

definition recover_key_from_mnemonic :: "'m bip39_crate \<Rightarrow> 'm \<Rightarrow> string \<Rightarrow> DerivedKey result" where
  "recover_key_from_mnemonic B mnemonic passphrase =
     (let seed = bp_to_seed B mnemonic passphrase in
      if length seed < DERIVED_KEY_LEN then Inl Panic
      else Inr (DerivedKey (sub_slice 0 DERIVED_KEY_LEN seed)))"

definition parse_mnemonic :: "'m bip39_crate \<Rightarrow> string \<Rightarrow> 'm result" where
  "parse_mnemonic B phrase =
     (case bp_parse_normalized B (trim phrase) of
        None \<Rightarrow> Inl (Err ''Invalid mnemonic phrase'')
      | Some mnemonic \<Rightarrow> Inr mnemonic)"

definition validate_mnemonic :: "'m bip39_crate \<Rightarrow> string \<Rightarrow> bool" where
  "validate_mnemonic B phrase = (bp_parse_normalized B (trim phrase) \<noteq> None)"

section \<open>Facts\<close>

lemma validate_parse: "validate_mnemonic B phrase \<longleftrightarrow> is_ok (parse_mnemonic B phrase)"
  by (simp add: validate_mnemonic_def parse_mnemonic_def split: option.split)

text \<open>The sizes of the entropy in bits are no word counts.\<close>

lemma generate_fails:
  assumes "bip39_laws B"
  shows "generate_mnemonic B rng count = Inl (Err ''Failed to generate mnemonic'')"
proof -
  have "bp_generate_in_with B rng n = None" if "n \<notin> word_counts" for n
    using assms that unfolding bip39_laws_def by presburger
  then show ?thesis
    by (cases count) (simp_all add: generate_mnemonic_def word_counts_def)
qed

lemma recover_key_ok:
  assumes "bip39_laws B"
  shows "recover_key_from_mnemonic B m pass = Inr (DerivedKey (take 32 (bp_to_seed B m pass)))"
  using assms by (simp add: bip39_laws_def recover_key_from_mnemonic_def sub_slice_def DERIVED_KEY_LEN_def)

lemma parse_phrase:
  assumes "bip39_laws B" and "set us \<subseteq> set white_space" and "set vs \<subseteq> set white_space"
  shows "parse_mnemonic B (concat us @ bp_to_string B m @ concat vs) = Inr m"
  using assms(1) trim_spaces [OF assms(2,3), of "bp_to_string B m"]
  by (simp add: parse_mnemonic_def bip39_laws_def)

lemma mnemonic_recovery:
  assumes "bip39_laws B" and "set us \<subseteq> set white_space" and "set vs \<subseteq> set white_space"
    and "phrase = concat us @ bp_to_string B m @ concat vs"
  shows "\<not> is_ok (generate_mnemonic B rng count) \<and>
    validate_mnemonic B phrase \<and> parse_mnemonic B phrase = Inr m \<and>
    try_then (parse_mnemonic B phrase) (\<lambda>m'. recover_key_from_mnemonic B m' pass) =
      recover_key_from_mnemonic B m pass \<and>
    (\<exists>key. recover_key_from_mnemonic B m pass = Inr (DerivedKey key) \<and> length key = DERIVED_KEY_LEN) \<and>
    (\<forall>s. validate_mnemonic B s \<longleftrightarrow> is_ok (parse_mnemonic B s))"
proof -
  have "parse_mnemonic B phrase = Inr m" unfolding assms(4) by (rule parse_phrase [OF assms(1-3)])
  moreover have "length (take 32 (bp_to_seed B m pass)) = DERIVED_KEY_LEN"
    using assms(1) by (simp add: bip39_laws_def DERIVED_KEY_LEN_def)
  ultimately show ?thesis
    using generate_fails [OF assms(1)] recover_key_ok [OF assms(1)] by (simp add: validate_parse)
qed

section \<open>A concrete crate\<close>

text \<open>For the witnesses: the mnemonic with number \<open>m\<close> has the phrase of \<open>m + 1\<close> letters.\<close>

definition sample_bip39 :: "nat bip39_crate" where
  "sample_bip39 =
     \<lparr>bp_generate_in_with = (\<lambda>rng n. if n \<in> {12, 15, 18, 21, 24} then Some n else None),
      bp_parse_normalized = (\<lambda>s. case s of [] \<Rightarrow> None
        | c # cs \<Rightarrow> if list_all (\<lambda>d. d = CHR ''w'') s then Some (length cs) else None),
      bp_to_seed = (\<lambda>m pass. take 64 (as_bytes pass @ replicate 64 (of_nat m))),
      bp_to_string = (\<lambda>m. replicate (Suc m) (CHR ''w'')), bp_word_count = (\<lambda>m. m)\<rparr>"

lemma sample_bip39_laws: "bip39_laws sample_bip39"
  by (simp add: bip39_laws_def sample_bip39_def word_counts_def graphic_def list_all_iff min_def)

lemma space_white: "'' '' \<in> set white_space"
  by (simp add: white_space_def white_codes_def byte_string_def char_of_def bit_0)

end
