(* ===== verification/Node.thy ===== *)
theory Node
  imports Heartbeat Merkle Identity
begin

text \<open>
  p2p/src/config.rs, behaviour.rs, discovery.rs, challenge.rs and node.rs: the configuration,
  the readiness flags, the DHT glue, the proof-of-storage check and the node that owns a
  heartbeat manager and a message queue.  The node's locks make its operations run one at a
  time.  libp2p is a parameter: \<open>I\<close> makes identities, and \<open>N\<close> holds the DHT operations that
  discovery calls.
\<close>

section \<open>Configuration\<close>

definition DEFAULT_LISTEN_PORT :: "16 word" where
  "DEFAULT_LISTEN_PORT = 9444"

definition DEFAULT_BOOTSTRAP_NODES :: "string list" where
  "DEFAULT_BOOTSTRAP_NODES =
     [''/dns4/bootstrap1.vaultkeeper.net/tcp/9444/p2p/QmBootstrap1Placeholder0000000000000000000000000000000'',
      ''/dns4/bootstrap2.vaultkeeper.net/tcp/9444/p2p/QmBootstrap2Placeholder0000000000000000000000000000000'',
      ''/dns4/bootstrap3.vaultkeeper.net/tcp/9444/p2p/QmBootstrap3Placeholder0000000000000000000000000000000'']"

text \<open>A socket address is the four bytes of the IPv4 address and the port.\<close>

record P2pConfig =
  pc_listen_addr :: "byte list \<times> 16 word"
  pc_bootstrap_nodes :: "string list"
  pc_enable_nat :: bool
  pc_dht_protocol :: string
  pc_gossip_topic_prefix :: string
  pc_heartbeat_interval_secs :: u64
  pc_max_connections :: nat

definition P2pConfig_default :: P2pConfig where
  "P2pConfig_default =
     \<lparr>pc_listen_addr = ([0, 0, 0, 0], DEFAULT_LISTEN_PORT), pc_bootstrap_nodes = DEFAULT_BOOTSTRAP_NODES,
      pc_enable_nat = True, pc_dht_protocol = ''/vaultkeeper/dht/1.0.0'',
      pc_gossip_topic_prefix = ''vaultkeeper'', pc_heartbeat_interval_secs = 900, pc_max_connections = 50\<rparr>"

section \<open>Readiness\<close>

record VaultKeeperBehaviour =
  vb_kademlia_initialized :: bool
  vb_gossip_initialized :: bool
  vb_heartbeat_active :: bool

definition VaultKeeperBehaviour_new :: VaultKeeperBehaviour where
  "VaultKeeperBehaviour_new =
     \<lparr>vb_kademlia_initialized = False, vb_gossip_initialized = False, vb_heartbeat_active = False\<rparr>"

definition VaultKeeperBehaviour_default :: VaultKeeperBehaviour where
  "VaultKeeperBehaviour_default = VaultKeeperBehaviour_new"

definition mark_kademlia_ready :: "VaultKeeperBehaviour \<Rightarrow> VaultKeeperBehaviour" where
  "mark_kademlia_ready b = b\<lparr>vb_kademlia_initialized := True\<rparr>"

definition mark_gossip_ready :: "VaultKeeperBehaviour \<Rightarrow> VaultKeeperBehaviour" where
  "mark_gossip_ready b = b\<lparr>vb_gossip_initialized := True\<rparr>"

definition mark_heartbeat_active :: "VaultKeeperBehaviour \<Rightarrow> VaultKeeperBehaviour" where
  "mark_heartbeat_active b = b\<lparr>vb_heartbeat_active := True\<rparr>"

definition is_fully_initialized :: "VaultKeeperBehaviour \<Rightarrow> bool" where
  "is_fully_initialized b \<longleftrightarrow>
     vb_kademlia_initialized b \<and> vb_gossip_initialized b \<and> vb_heartbeat_active b"

section \<open>Discovery\<close>

text \<open>
  The DHT of libp2p: the names of protocols it accepts, a table for an identifier and protocols,
  parsing an address, the peer id in it, and the calls on the table.  A protocol name has to
  start with a slash.
\<close>

record ('k, 'a) dht_api =
  d_stream_protocol :: "string \<Rightarrow> string option"
  d_with_config :: "peer_id \<Rightarrow> string list \<Rightarrow> 'k"
  d_parse :: "string \<Rightarrow> 'a option"
  d_peer_of :: "'a \<Rightarrow> string option"
  d_add_address :: "string \<Rightarrow> 'a \<Rightarrow> 'k \<Rightarrow> 'k"
  d_bootstrap :: "'k \<Rightarrow> 'k"
  d_put_record :: "bytes \<Rightarrow> bytes \<Rightarrow> 'k \<Rightarrow> 'k \<times> unit result"
  d_get_record :: "bytes \<Rightarrow> 'k \<Rightarrow> 'k"

definition dht_laws :: "('k, 'a) dht_api \<Rightarrow> bool" where
  "dht_laws N \<longleftrightarrow> (\<forall>s. d_stream_protocol N s = (if take 1 s = ''/'' then Some s else None))"

definition create_kademlia :: "('k, 'a) dht_api \<Rightarrow> peer_id \<Rightarrow> string \<Rightarrow> 'k result" where
  "create_kademlia N local_peer_id protocol_name =
     (case d_stream_protocol N protocol_name of
        None \<Rightarrow> Inl (Err ''protocol must start with a slash'')
      | Some protocol \<Rightarrow> Inr (d_with_config N local_peer_id [protocol]))"

fun add_bootstrap_loop :: "('k, 'a) dht_api \<Rightarrow> string list \<Rightarrow> nat \<Rightarrow> 'k \<Rightarrow> 'k \<times> nat result" where
  "add_bootstrap_loop N [] added kad = (kad, Inr added)"
| "add_bootstrap_loop N (addr_str # rest) added kad =
     (case d_parse N addr_str of
        None \<Rightarrow> (kad, Inl (Err (''Failed to parse bootstrap addr '' @ addr_str)))
      | Some addr \<Rightarrow>
          (case d_peer_of N addr of
             Some peer_id \<Rightarrow> add_bootstrap_loop N rest (added + 1) (d_add_address N peer_id addr kad)
           | None \<Rightarrow> add_bootstrap_loop N rest added kad))"

definition add_bootstrap_nodes :: "('k, 'a) dht_api \<Rightarrow> string list \<Rightarrow> 'k \<Rightarrow> 'k \<times> nat result" where
  "add_bootstrap_nodes N bootstrap_addrs kad = add_bootstrap_loop N bootstrap_addrs 0 kad"

definition dht_bootstrap :: "('k, 'a) dht_api \<Rightarrow> 'k \<Rightarrow> 'k" where
  "dht_bootstrap N kad = d_bootstrap N kad"

definition put_record :: "('k, 'a) dht_api \<Rightarrow> bytes \<Rightarrow> bytes \<Rightarrow> 'k \<Rightarrow> 'k \<times> unit result" where
  "put_record N k v kad = d_put_record N k v kad"

definition get_record :: "('k, 'a) dht_api \<Rightarrow> bytes \<Rightarrow> 'k \<Rightarrow> 'k \<times> bytes option result" where
  "get_record N k kad = (d_get_record N k kad, Inr None)"

text \<open>The protocol of the default configuration is accepted.\<close>

lemma create_kademlia_default:
  "dht_laws N \<Longrightarrow> create_kademlia N p (pc_dht_protocol P2pConfig_default) =
    Inr (d_with_config N p [''/vaultkeeper/dht/1.0.0''])"
  by (simp add: create_kademlia_def dht_laws_def P2pConfig_default_def)

text \<open>Addresses before the first that does not parse are added, one for each peer id.\<close>

lemma add_bootstrap_all:
  "\<forall>s \<in> set addrs. d_parse N s \<noteq> None \<Longrightarrow>
    snd (add_bootstrap_loop N addrs n kad) =
      Inr (n + length (filter (\<lambda>s. d_peer_of N (the (d_parse N s)) \<noteq> None) addrs))"
  by (induction addrs arbitrary: n kad) (auto split: option.splits)

lemma add_bootstrap_partial:
  assumes "\<forall>s \<in> set good. d_parse N s \<noteq> None" and "d_parse N bad = None"
  shows "fst (add_bootstrap_loop N (good @ bad # rest) n kad) = fst (add_bootstrap_loop N good n kad)"
    and "\<not> is_ok (snd (add_bootstrap_loop N (good @ bad # rest) n kad))"
  using assms by (induction good arbitrary: n kad) (auto split: option.splits)

section \<open>Proof of storage\<close>

definition challenge_generate ::
  "(u64 list \<Rightarrow> nat \<Rightarrow> u64 list) \<Rightarrow> bytes \<Rightarrow> u64 \<Rightarrow> ChunkId \<Rightarrow> u64 \<Rightarrow> nat \<Rightarrow> StorageChallenge" where
  "challenge_generate pick nonce now chunk_id num_blocks challenge_count =
     generate_challenge pick nonce now chunk_id num_blocks challenge_count"

fun indices_match :: "u64 list \<Rightarrow> nat \<Rightarrow> u64 list \<Rightarrow> bool result" where
  "indices_match [] i challenge_indices = Inr True"
| "indices_match (proof_idx # rest) i challenge_indices =
     try_then (index_or_panic challenge_indices i)
       (\<lambda>challenge_idx. if proof_idx \<noteq> challenge_idx then Inr False
          else indices_match rest (i + 1) challenge_indices)"

definition challenge_verify_proof :: "StorageChallenge \<Rightarrow> StorageProof \<Rightarrow> bool result" where
  "challenge_verify_proof challenge prf =
     (if sp_chunk_id prf \<noteq> sc_chunk_id challenge then Inr False
      else if length (sp_leaf_indices prf) \<noteq> length (sc_leaf_indices challenge) then Inr False
      else indices_match (sp_leaf_indices prf) 0 (sc_leaf_indices challenge))"

lemma indices_match_eq:
  "i + length xs = length ys \<Longrightarrow> indices_match xs i ys = Inr (xs = drop i ys)"
proof (induction xs arbitrary: i)
  case (Cons x xs)
  then have i: "i < length ys" "Suc i + length xs = length ys" by simp_all
  from Cons.IH [OF i(2)] i(1) show ?case by (simp add: Cons_nth_drop_Suc [symmetric])
qed simp

lemma challenge_verdict:
  "challenge_verify_proof c p = Inr (sp_chunk_id p = sc_chunk_id c \<and> sp_leaf_indices p = sc_leaf_indices c)"
  by (auto simp: challenge_verify_proof_def indices_match_eq)

section \<open>The node\<close>

record P2pNode =
  nd_peer_id :: peer_id
  nd_config :: P2pConfig
  nd_heartbeat :: HeartbeatManager
  nd_gossip_queue :: GossipQueue
  nd_behaviour :: VaultKeeperBehaviour
  nd_transport_keypair :: keypair

definition P2pNode_new :: "identity_api \<Rightarrow> (nat \<Rightarrow> bytes) \<Rightarrow> P2pConfig \<Rightarrow> P2pNode result" where
  "P2pNode_new I rng config =
     (let keypair = generate_identity I rng;
          peer_id = id_peer_id I keypair
      in Inr \<lparr>nd_peer_id = peer_id, nd_config = config,
              nd_heartbeat = HeartbeatManager_new (id_to_string I peer_id)
                (HeartbeatConfig_default\<lparr>hc_interval_secs := pc_heartbeat_interval_secs config\<rparr>),
              nd_gossip_queue = GossipQueue_new 10000,
              nd_behaviour = VaultKeeperBehaviour_new,
              nd_transport_keypair = keypair\<rparr>)"

definition send_gossip ::
  "identity_api \<Rightarrow> int \<Rightarrow> GossipTopic \<Rightarrow> P2pMessage \<Rightarrow> P2pNode \<Rightarrow> P2pNode \<times> unit result" where
  "send_gossip I now_secs topic message n =
     (let priority = get_message_priority message 1;
          (q, r) = enqueue now_secs priority (id_to_string I (nd_peer_id n)) message (nd_gossip_queue n)
      in (n\<lparr>nd_gossip_queue := q\<rparr>, r))"

definition peer_id_str :: "identity_api \<Rightarrow> P2pNode \<Rightarrow> string" where
  "peer_id_str I n = id_to_string I (nd_peer_id n)"

definition update_available_space :: "u64 \<Rightarrow> P2pNode \<Rightarrow> P2pNode" where
  "update_available_space space n = n\<lparr>nd_heartbeat := set_available_space space (nd_heartbeat n)\<rparr>"

definition node_initialize :: "P2pNode \<Rightarrow> P2pNode \<times> unit result" where
  "node_initialize n =
     (n\<lparr>nd_behaviour := mark_heartbeat_active (mark_gossip_ready (mark_kademlia_ready (nd_behaviour n)))\<rparr>, Inr ())"

lemma node_initialize_ready: "is_fully_initialized (nd_behaviour (fst (node_initialize n)))"
  by (simp add: node_initialize_def is_fully_initialized_def mark_heartbeat_active_def
      mark_gossip_ready_def mark_kademlia_ready_def)

lemma node_queue_reach:
  "queue_reach (nd_gossip_queue n) \<Longrightarrow> queue_reach (nd_gossip_queue (fst (send_gossip I now topic m n)))"
  unfolding send_gossip_def Let_def case_prod_unfold
  by simp (rule qr_enqueue [OF _ prod.collapse [symmetric]])

section \<open>Properties\<close>

text \<open>
  C35: what a proof of storage proves.  The challenge names the chunk and asks for as many
  different leaves of it as it can; of a chunk without leaves it asks for leaf 0.  The check never
  panics and accepts a proof exactly if it names the challenged chunk and repeats the challenged
  indices in order.  So a host that keeps nothing of the chunk passes, whatever it sends as
  leaves, paths and root, and a proof that was accepted once is accepted again for every later
  challenge with the same indices: nonce and time of the challenge have no influence.
\<close>

theorem storage_proof_structural:
  assumes pick: "pick_laws pick"
    and c: "c = challenge_generate pick nonce now chunk_id num_blocks challenge_count"
  shows "sc_chunk_id c = chunk_id \<and>
    (if num_blocks = 0 then sc_leaf_indices c = [0]
     else length (sc_leaf_indices c) = min challenge_count (unat num_blocks) \<and>
       distinct (sc_leaf_indices c) \<and> (\<forall>i \<in> set (sc_leaf_indices c). i < num_blocks)) \<and>
    (\<forall>p. challenge_verify_proof c p =
       Inr (sp_chunk_id p = chunk_id \<and> sp_leaf_indices p = sc_leaf_indices c)) \<and>
    (\<forall>leaves paths r. challenge_verify_proof c \<lparr>sp_chunk_id = chunk_id,
       sp_leaf_indices = sc_leaf_indices c, sp_leaves = leaves, sp_proofs = paths, sp_root = r\<rparr> = Inr True) \<and>
    (\<forall>nonce' now' p. challenge_verify_proof c p = Inr True \<longrightarrow>
       challenge_verify_proof (c\<lparr>sc_nonce := nonce', sc_timestamp := now'\<rparr>) p = Inr True)"
proof -
  have "num_blocks = 0 \<Longrightarrow> sc_leaf_indices c = [0]" "sc_chunk_id c = chunk_id"
    by (simp_all add: c challenge_generate_def generate_challenge_def)
  moreover have "length (sc_leaf_indices c) = min challenge_count (unat num_blocks) \<and>
      distinct (sc_leaf_indices c) \<and> (\<forall>i \<in> set (sc_leaf_indices c). i < num_blocks)" if "num_blocks \<noteq> 0"
    using generate_challenge_indices(2-4) [OF pick that] unfolding c challenge_generate_def by blast
  ultimately show ?thesis by (simp add: challenge_verdict)
qed

text \<open>A source that picks the leaves in front: three of the five leaves of a chunk.\<close>

theorem storage_proof_structural_witness:
  "(let c = challenge_generate (\<lambda>xs n. take n xs) [] 0 (ChunkId [7]) 5 3 in
    sc_leaf_indices c = [0, 1, 2] \<and> distinct (sc_leaf_indices c) \<and> (\<forall>i \<in> set (sc_leaf_indices c). i < 5) \<and>
    challenge_verify_proof c \<lparr>sp_chunk_id = ChunkId [7], sp_leaf_indices = [0, 1, 2], sp_leaves = [],
      sp_proofs = [], sp_root = ''''\<rparr> = Inr True \<and>
    challenge_verify_proof c \<lparr>sp_chunk_id = ChunkId [7], sp_leaf_indices = [0, 1], sp_leaves = [],
      sp_proofs = [], sp_root = ''''\<rparr> = Inr False)"
proof -
  let ?c = "challenge_generate (\<lambda>xs n. take n xs) [] 0 (ChunkId [7]) 5 3"
  have "pick_laws (\<lambda>xs n. take n xs)" by (auto simp: pick_laws_def dest: in_set_takeD)
  note c = storage_proof_structural [OF this refl, where nonce = "[]" and now = 0 and
      chunk_id = "ChunkId [7]" and num_blocks = 5 and challenge_count = 3]
  have i: "sc_leaf_indices ?c = [0, 1, 2]"
    by (simp add: challenge_generate_def generate_challenge_def upt_conv_Cons)
  from c show ?thesis unfolding Let_def i by simp
qed

end
