(* ===== verification/Commands.thy ===== *)
theory Commands
  imports Api DaemonConfig Recovery Chunking Account LedgerStore Node ShardStore
begin

text \<open>
  cli/src/commands.rs: the commands of the daemon.  A command returns the file system, the lines
  it prints, and its result; log messages are left out.  Everything the commands take from
  outside is in \<open>daemon_env\<close>: the expansion of the home directory, the outcomes of the system
  calls, the crates, the identities that libp2p generates, the clock and the UUIDs, opening a
  database at a path (which SQLite does by creating the file if there is none), and the network
  connections.
\<close>

section \<open>The environment\<close>

record ('d, 'm, 'a) daemon_env =
  en_tilde :: "string \<Rightarrow> string"
  en_io :: io
  en_crypto :: crypto
  en_config_json :: config_json
  en_bip39 :: "'m bip39_crate"
  en_rng :: "nat \<Rightarrow> bytes"
  en_decimal :: "'d decimal_api"
  en_chrono :: chrono_api
  en_identity :: identity_api
  en_config_rng :: "nat \<Rightarrow> bytes"
  en_node_rng :: "nat \<Rightarrow> bytes"
  en_account_uuid :: string
  en_tx_uuid :: string
  en_now :: int
  en_now_rfc3339 :: string
  en_open_ledger :: "path \<Rightarrow> file_system \<Rightarrow> file_system \<times> LedgerDb result"
  en_parse_addr :: "string \<Rightarrow> 'a option"
  en_bind :: "'a \<Rightarrow> unit result"
  en_connections :: "api_event list"

datatype KeyAction = Generate | Show | Backup

datatype CliCommand =
    Init string
  | Start string string
  | Stop
  | Status string
  | Upload string u32
  | Download string string
  | Balance
  | Keys KeyAction
  | Recover string string
  | Daemon string

text \<open>\<open>None\<close> as the result means that the daemon goes on serving.\<close>

type_synonym command_run = "file_system \<times> string list \<times> unit result option"

text \<open>\<open>with_context\<close> replaces the message of an error.\<close>

definition fs_context :: "string \<Rightarrow> file_system \<times> 'a result \<Rightarrow> file_system \<times> 'a result" where
  "fs_context msg x = (case x of (fs, Inl e) \<Rightarrow> (fs, Inl (Err msg)) | (fs, Inr a) \<Rightarrow> (fs, Inr a))"

section \<open>Setting up and starting\<close>

definition init_node :: "('d, 'm, 'a) daemon_env \<Rightarrow> string \<Rightarrow> file_system \<Rightarrow> file_system \<times> unit result" where
  "init_node E data_dir fs =
     (let expanded = en_tilde E data_dir;
          path = path_of expanded
      in fs_then (fs_context ''Failed to create data directory'' (create_dir_all (en_io E) path fs)) (\<lambda>_ fs1.
         fs_then (fs_context ''Failed to create shards directory'' (create_dir_all (en_io E) (path @ [''shards'']) fs1)) (\<lambda>_ fs2.
         fs_then (fs_context ''Failed to create ledger directory'' (create_dir_all (en_io E) (path @ [''ledger'']) fs2)) (\<lambda>_ fs3.
         fs_then (NodeConfig_generate (en_identity E) (en_config_rng E) (en_config_json E) (en_io E)
             (en_now_rfc3339 E) expanded fs3) (\<lambda>config fs4.
         (fs4, Inr ()))))))"

definition cmd_init :: "('d, 'm, 'a) daemon_env \<Rightarrow> string \<Rightarrow> file_system \<Rightarrow> command_run" where
  "cmd_init E data_dir fs = (case init_node E data_dir fs of (fs1, r) \<Rightarrow> (fs1, [], Some r))"

text \<open>What a started daemon has opened.\<close>

record 'd daemon =
  dm_config :: NodeConfig
  dm_node :: P2pNode
  dm_ledger :: LedgerDb
  dm_billing :: "'d BillingAccount"
  dm_storage :: path

definition ledger_file :: "string \<Rightarrow> path" where
  "ledger_file expanded = path_of expanded @ [''ledger'', ''vaultkeeper.db'']"

definition start_daemon ::
  "('d, 'm, 'a) daemon_env \<Rightarrow> string \<Rightarrow> file_system \<Rightarrow> file_system \<times> 'd daemon result" where
  "start_daemon E data_dir fs =
     (let expanded = en_tilde E data_dir in
      case NodeConfig_load (en_config_json E) expanded fs of
        Inl e \<Rightarrow> (fs, Inl e)
      | Inr config \<Rightarrow>
       (case P2pNode_new (en_identity E) (en_node_rng E) P2pConfig_default of
          Inl e \<Rightarrow> (fs, Inl e)
        | Inr node \<Rightarrow>
          (let ledger_path = ledger_file expanded
           in fs_then (en_open_ledger E ledger_path fs) (\<lambda>db fs0.
             (case BillingAccount_new (en_decimal E) (en_chrono E) (en_account_uuid E) (en_tx_uuid E) (en_now E)
                 (dlit (en_decimal E) 0) of
                Inl e \<Rightarrow> (fs0, Inl e)
              | Inr billing \<Rightarrow>
                fs_then (ShardStore_new (en_io E) (path_of expanded @ [''shards'']) fs0) (\<lambda>storage fs1.
                  (fs1, Inr \<lparr>dm_config = config, dm_node = node, dm_ledger = store_open db,
                             dm_billing = billing, dm_storage = storage\<rparr>)))))))"

definition cmd_start :: "('d, 'm, 'a) daemon_env \<Rightarrow> string \<Rightarrow> string \<Rightarrow> file_system \<Rightarrow> command_run" where
  "cmd_start E data_dir api_addr fs =
     (case start_daemon E data_dir fs of
        (fs1, Inl e) \<Rightarrow> (fs1, [], Some (Inl e))
      | (fs1, Inr d) \<Rightarrow>
          (case run_api_server (en_parse_addr E) (en_bind E) api_addr (en_connections E) of
             (_, None) \<Rightarrow> (fs1, [], None)
           | (_, Some e) \<Rightarrow> (fs1, [], Some (Inl e))))"

definition cmd_stop :: "file_system \<Rightarrow> command_run" where
  "cmd_stop fs = (fs, [], Some (Inr ()))"

definition cmd_daemon :: "('d, 'm, 'a) daemon_env \<Rightarrow> string \<Rightarrow> file_system \<Rightarrow> command_run" where
  "cmd_daemon E data_dir fs = cmd_start E data_dir ''127.0.0.1:8080'' fs"

definition cmd_status :: "('d, 'm, 'a) daemon_env \<Rightarrow> string \<Rightarrow> file_system \<Rightarrow> command_run" where
  "cmd_status E data_dir fs =
     (let expanded = en_tilde E data_dir in
      if \<not> fs_exists fs (config_path expanded) then (fs, [], Some (Inl (Err ''Node not initialized'')))
      else case NodeConfig_load (en_config_json E) expanded fs of
        Inl e \<Rightarrow> (fs, [], Some (Inl e))
      | Inr config \<Rightarrow>
          (fs, [''=== VaultKeeper Node Status ==='', ''Peer ID:       '' @ nc_peer_id config,
                ''Data directory: '' @ expanded, ''Initialized:    Yes'', ''Version:        0.1.0''],
           Some (Inr ())))"

section \<open>Files\<close>

definition chunk_line :: "crypto \<Rightarrow> nat \<Rightarrow> ChunkId \<Rightarrow> bytes \<Rightarrow> string" where
  "chunk_line cr i c chunk =
     ''  Chunk '' @ show_nat i @ '': '' @ ChunkId_fmt cr c @ '' ('' @ show_nat (length chunk) @ '' bytes)''"

definition cmd_upload :: "('d, 'm, 'a) daemon_env \<Rightarrow> string \<Rightarrow> u32 \<Rightarrow> file_system \<Rightarrow> command_run" where
  "cmd_upload E name replication fs =
     (let path = path_of name in
      if \<not> fs_exists fs path then (fs, [], Some (Inl (Err ''File not found'')))
      else case fs_read path fs of
        Inl e \<Rightarrow> (fs, [], Some (Inl e))
      | Inr data \<Rightarrow>
          let chunks = chunk_data data;
              chunk_ids = generate_chunk_ids (en_crypto E) chunks
          in (fs, map (\<lambda>i. chunk_line (en_crypto E) i (chunk_ids ! i) (chunks ! i)) [0..<length chunk_ids],
              Some (Inr ())))"

definition cmd_download :: "('d, 'm, 'a) daemon_env \<Rightarrow> string \<Rightarrow> string \<Rightarrow> file_system \<Rightarrow> command_run" where
  "cmd_download E chunk_id output fs =
     (case ChunkId_from_hex (en_crypto E) chunk_id of
        Inl e \<Rightarrow> (fs, [], Some (Inl (Err ''Invalid chunk ID'')))
      | Inr _ \<Rightarrow> (fs, [], Some (Inr ())))"

definition cmd_balance :: "file_system \<Rightarrow> command_run" where
  "cmd_balance fs =
     (fs, [''=== Account Balance ==='', ''Balance: 0.00 RUB'', ''Status: Active''], Some (Inr ()))"

section \<open>Keys\<close>

fun cmd_keys :: "('d, 'm, 'a) daemon_env \<Rightarrow> KeyAction \<Rightarrow> file_system \<Rightarrow> command_run" where
  "cmd_keys E Generate fs =
     (case generate_mnemonic (en_bip39 E) (en_rng E) Twelve of
        Inl e \<Rightarrow> (fs, [], Some (Inl e))
      | Inr mnemonic \<Rightarrow>
          (fs, [''=== New Recovery Key ==='', ''Mnemonic: '' @ bp_to_string (en_bip39 E) mnemonic, '''',
                ''IMPORTANT: Write down these words and store them securely.'',
                ''This is the ONLY way to recover your data.''], Some (Inr ())))"
| "cmd_keys E Show fs = (fs, [''Public key: (not yet implemented for key display)''], Some (Inr ()))"
| "cmd_keys E Backup fs =
     (fs, [''Backup: Use 'vaultkeeperd keys generate' to create a new recovery mnemonic.''], Some (Inr ()))"

definition cmd_recover :: "('d, 'm, 'a) daemon_env \<Rightarrow> string \<Rightarrow> string \<Rightarrow> file_system \<Rightarrow> command_run" where
  "cmd_recover E mnemonic passphrase fs =
     (case try_then (parse_mnemonic (en_bip39 E) mnemonic) (\<lambda>parsed.
             try_then (recover_key_from_mnemonic (en_bip39 E) parsed passphrase) (\<lambda>_. Inr parsed)) of
        Inl e \<Rightarrow> (fs, [], Some (Inl e))
      | Inr parsed \<Rightarrow>
          (fs, [''=== Recovery Successful ==='',
                ''Mnemonic validated: '' @ show_nat (bp_word_count (en_bip39 E) parsed) @ '' words'',
                ''Key derived successfully'', '''',
                ''NOTE: This validated the mnemonic but did not restore data.'',
                ''Run 'vaultkeeperd start' to resume operation with recovered key.''], Some (Inr ())))"

fun handle_command :: "('d, 'm, 'a) daemon_env \<Rightarrow> CliCommand \<Rightarrow> file_system \<Rightarrow> command_run" where
  "handle_command E (Init data_dir) fs = cmd_init E data_dir fs"
| "handle_command E (Start data_dir api_addr) fs = cmd_start E data_dir api_addr fs"
| "handle_command E Stop fs = cmd_stop fs"
| "handle_command E (Status data_dir) fs = cmd_status E data_dir fs"
| "handle_command E (Upload name replication) fs = cmd_upload E name replication fs"
| "handle_command E (Download chunk_id output) fs = cmd_download E chunk_id output fs"
| "handle_command E Balance fs = cmd_balance fs"
| "handle_command E (Keys action) fs = cmd_keys E action fs"
| "handle_command E (Recover mnemonic passphrase) fs = cmd_recover E mnemonic passphrase fs"
| "handle_command E (Daemon data_dir) fs = cmd_daemon E data_dir fs"

end
