(* ===== verification/SampleConfig.thy ===== *)
theory SampleConfig
  imports DaemonConfig CoreTypes SampleCodes
begin

text \<open>
  A concrete form of the configuration file for the witnesses, a stand-in for JSON: the fields in
  a self-delimiting code, written in base 16.
\<close>

lemma utf8_valid_ascii: "\<forall>x \<in> set b. unat x < 128 \<Longrightarrow> utf8_valid b"
proof (induction b)
  case (Cons x b)
  then have "utf8_step (x # b) = (1, True)" by (simp add: utf8_step_def safe_get_def)
  with Cons show ?case by (subst utf8_valid.simps) simp
qed (subst utf8_valid.simps, simp)

lemma utf8_valid_graphic: "\<forall>c \<in> set s. graphic c \<Longrightarrow> utf8_valid (as_bytes s)"
proof -
  have "unat (of_char c :: byte) = of_char c" for c
    using byte_char_of [of c] byte_bound [of "of_char c"] unat_of_nat [of "of_char c", where ?'a = 8]
    by (simp add: of_nat_of_char)
  then show "\<forall>c \<in> set s. graphic c \<Longrightarrow> utf8_valid (as_bytes s)"
    by (intro utf8_valid_ascii) (auto simp: as_bytes_def graphic_def)
qed

definition config_code :: "(string \<times> string \<times> string \<times> nat \<times> nat \<times> string) code" where
  "config_code = pair_code (print_string, parse_string) (pair_code (print_string, parse_string)
     (pair_code (print_string, parse_string) (pair_code (print_nat, parse_nat)
       (pair_code (print_nat, parse_nat) (print_string, parse_string)))))"

lemma good_config_code: "good_code config_code"
  unfolding config_code_def by (intro good_pair good_string good_nat)

definition config_tuple :: "NodeConfig \<Rightarrow> string \<times> string \<times> string \<times> nat \<times> nat \<times> string" where
  "config_tuple c = (nc_peer_id c, map byte_char (nc_public_key c), nc_data_dir c, unat (nc_p2p_port c),
     unat (nc_api_port c), nc_created_at c)"

definition tuple_config :: "string \<times> string \<times> string \<times> nat \<times> nat \<times> string \<Rightarrow> NodeConfig" where
  "tuple_config x = (case x of (i, k, d, p, a, t) \<Rightarrow>
     \<lparr>nc_peer_id = i, nc_public_key = as_bytes k, nc_data_dir = d, nc_p2p_port = of_nat p,
      nc_api_port = of_nat a, nc_created_at = t\<rparr>)"

lemma of_char_byte_char: "of_char (byte_char x) = (x :: byte)"
proof -
  have "byte_char (of_char (byte_char x)) = byte_char x" by (rule byte_char_of)
  then show ?thesis by (simp add: byte_char_inj)
qed

lemma tuple_config_tuple: "tuple_config (config_tuple c) = c"
  by (cases c) (simp add: tuple_config_def config_tuple_def as_bytes_def o_def of_char_byte_char)

definition sample_config_json :: config_json where
  "sample_config_json =
     \<lparr>cj_to_string_pretty = (\<lambda>c. Inr (sample_hex_encode (fst config_code (config_tuple c)))),
      cj_from_str = (\<lambda>s. case sample_hex_decode s of
          None \<Rightarrow> Inl (Err ''expected value'')
        | Some b \<Rightarrow> (case snd config_code b of
            Some (x, []) \<Rightarrow> Inr (tuple_config x)
          | _ \<Rightarrow> Inl (Err ''expected value'')))\<rparr>"

lemma hex_digit_graphic: "graphic (hex_digit n)"
proof -
  have "\<forall>m \<in> set [0..<16]. graphic (hex_digit m)" by code_simp
  then have "graphic (hex_digit (n mod 16))" by simp
  then show ?thesis by (simp add: hex_digit_def)
qed

lemma hex_graphic: "\<forall>c \<in> set (sample_hex_encode b). graphic c"
  by (induction b) (simp_all add: hex_digit_graphic)

lemma sample_config_laws: "config_json_laws sample_config_json"
proof -
  have "snd config_code (fst config_code x @ []) = Some (x, [])" for x
    using good_config_code unfolding good_code_def by blast
  then show ?thesis
    by (simp add: config_json_laws_def sample_config_json_def sample_hex_roundtrip tuple_config_tuple
        utf8_valid_graphic hex_graphic)
qed

end
