(* ===== verification/CommandProofs.thy ===== *)
theory CommandProofs
  imports Commands SampleConfig
begin

text \<open>
  The properties of cli/src/commands.rs: the life of a node from \<open>init\<close> to \<open>start\<close>, the chunk
  identifiers of \<open>upload\<close> and \<open>download\<close>, and keys.
\<close>

section \<open>Initialising a node\<close>

text \<open>Nothing is in the way of the directories and the configuration file.\<close>

definition init_clear :: "path \<Rightarrow> file_system \<Rightarrow> bool" where
  "init_clear p fs \<longleftrightarrow>
     (\<forall>q \<in> set (prefixes (p @ [''shards''])) \<union> set (prefixes (p @ [''ledger''])). \<not> fs_is_file fs q) \<and>
     \<not> fs_is_dir fs (p @ [''config.json''])"

lemma mkdir_ok:
  assumes "\<forall>q \<in> set (prefixes p). \<not> fs_is_file fs q" and "io p = NoFault"
  obtains fs' where "create_dir_all io p fs = (fs', Inr ())" "fs_is_dir fs' p"
    "\<forall>q. fs_is_file fs' q \<longleftrightarrow> fs_is_file fs q" "\<forall>q. fs_is_dir fs q \<longrightarrow> fs_is_dir fs' q"
    "\<forall>q. fs_is_dir fs' q \<longrightarrow> fs_is_dir fs q \<or> q \<in> set (prefixes p)"
proof -
  let ?c = "create_dir_all io p fs"
  have ok: "snd ?c = Inr ()" using assms by (simp add: create_dir_all_def)
  show thesis
  proof (rule that [of "fst ?c"])
    show "?c = (fst ?c, Inr ())" using ok by (metis prod.collapse)
    show "fs_is_dir (fst ?c) p" by (rule create_dir_is_dir [OF ok])
    show "\<forall>q. fs_is_file (fst ?c) q \<longleftrightarrow> fs_is_file fs q" by (simp add: fs_is_file_def create_dir_files)
    show "\<forall>q. fs_is_dir fs q \<longrightarrow> fs_is_dir (fst ?c) q" by (simp add: create_dir_keeps)
    show "\<forall>q. fs_is_dir (fst ?c) q \<longrightarrow> fs_is_dir fs q \<or> q \<in> set (prefixes p)"
      by (simp add: create_dir_dirs)
  qed
qed

lemma write_ok:
  assumes "fs_is_dir fs (butlast p)" and "\<not> fs_is_dir fs p" and "io p = NoFault"
  obtains fs' where "fs_write io p b fs = (fs', Inr ())" "hm_get (fs_files fs') p = Some b"
    "\<forall>q. fs_is_file fs' q \<longrightarrow> q = p \<or> fs_is_file fs q" "\<forall>q. fs_is_dir fs' q \<longleftrightarrow> fs_is_dir fs q"
proof -
  let ?w = "fs_write io p b fs"
  have ok: "snd ?w = Inr ()" by (rule fs_write_ok [where io = io, OF assms])
  show thesis
  proof (rule that [of "fst ?w"])
    show "?w = (fst ?w, Inr ())" using ok by (metis prod.collapse)
    show "hm_get (fs_files (fst ?w)) p = Some b" by (rule fs_write_self [OF ok])
    have "q = p \<or> fs_is_file fs q" if "fs_is_file (fst ?w) q" for q
      using that fs_write_other [of q p io b fs] by (cases "q = p") (simp_all add: fs_is_file_def)
    then show "\<forall>q. fs_is_file (fst ?w) q \<longrightarrow> q = p \<or> fs_is_file fs q" by blast
    show "\<forall>q. fs_is_dir (fst ?w) q \<longleftrightarrow> fs_is_dir fs q" by (simp add: fs_is_dir_def fs_write_dirs)
  qed
qed

lemma generate_ok:
  assumes "config_json_laws J" and "utf8_valid (as_bytes (fresh_name I rng))" and "utf8_valid (as_bytes dir)"
    and "utf8_valid (as_bytes now)"
    and "fs_is_dir fs (path_of dir)" and "\<not> fs_is_dir fs (config_path dir)" and "io (config_path dir) = NoFault"
  obtains fs' c where "NodeConfig_generate I rng J io now dir fs = (fs', Inr c)"
    "\<forall>q. fs_is_file fs' q \<longrightarrow> q = config_path dir \<or> fs_is_file fs q" "\<forall>q. fs_is_dir fs' q \<longleftrightarrow> fs_is_dir fs q"
proof -
  let ?c = "\<lparr>nc_peer_id = fresh_name I rng, nc_public_key = id_peer_id I (id_generate I rng), nc_data_dir = dir,
            nc_p2p_port = 9444, nc_api_port = 8080, nc_created_at = now\<rparr>"
  have "config_utf8 ?c" using assms(2-4) by (simp add: config_utf8_def)
  with assms(1) obtain s where s: "cj_to_string_pretty J ?c = Inr s"
    unfolding config_json_laws_def by blast
  have "fs_is_dir fs (butlast (config_path dir))" using assms(5) by (simp add: config_path_def)
  from write_ok [where io = io and b = "as_bytes s", OF this assms(6,7)] obtain fs' where
    w: "fs_write io (config_path dir) (as_bytes s) fs = (fs', Inr ())"
    and other: "\<forall>q. fs_is_file fs' q \<longrightarrow> q = config_path dir \<or> fs_is_file fs q"
      "\<forall>q. fs_is_dir fs' q \<longleftrightarrow> fs_is_dir fs q" by metis
  from s w have "NodeConfig_generate I rng J io now dir fs = (fs', Inr ?c)"
    by (simp add: NodeConfig_generate_def NodeConfig_save_def fresh_name_def fs_then_def Let_def)
  from that [OF this other] show thesis by blast
qed

text \<open>The assumptions on what a command takes from outside.\<close>

definition config_name :: "('d, 'm, 'a) daemon_env \<Rightarrow> string" where
  "config_name E = fresh_name (en_identity E) (en_config_rng E)"

definition env_ok :: "('d, 'm, 'a) daemon_env \<Rightarrow> string \<Rightarrow> bool" where
  "env_ok E dir \<longleftrightarrow> config_json_laws (en_config_json E) \<and> (\<forall>p. en_io E p = NoFault) \<and>
     utf8_valid (as_bytes (config_name E)) \<and> utf8_valid (as_bytes (en_tilde E dir)) \<and>
     utf8_valid (as_bytes (en_now_rfc3339 E))"

lemma init_node_ok:
  assumes env: "env_ok E dir" and clear: "init_clear (path_of (en_tilde E dir)) fs"
  obtains fs' c where "init_node E dir fs = (fs', Inr ())"
    "NodeConfig_load (en_config_json E) (en_tilde E dir) fs' = Inr c"
    "nc_peer_id c = config_name E"
    "fs_is_dir fs' (path_of (en_tilde E dir) @ [''shards''])"
    "fs_is_dir fs' (path_of (en_tilde E dir) @ [''ledger''])"
    "init_clear (path_of (en_tilde E dir)) fs'"
proof -
  let ?e = "en_tilde E dir" and ?p = "path_of (en_tilde E dir)" and ?io = "en_io E"
  let ?paths = "set (prefixes (?p @ [''shards''])) \<union> set (prefixes (?p @ [''ledger'']))"
  have io: "?io q = NoFault" for q using env by (simp add: env_ok_def)
  have free: "\<forall>q \<in> ?paths. \<not> fs_is_file fs q" using clear by (simp add: init_clear_def)
  then have "\<forall>q \<in> set (prefixes ?p). \<not> fs_is_file fs q" by (auto simp: prefixes_snoc)
  then obtain fs1 where c1: "create_dir_all ?io ?p fs = (fs1, Inr ())"
    and d1: "fs_is_dir fs1 ?p" "\<forall>q. fs_is_file fs1 q \<longleftrightarrow> fs_is_file fs q"
      "\<forall>q. fs_is_dir fs q \<longrightarrow> fs_is_dir fs1 q" "\<forall>q. fs_is_dir fs1 q \<longrightarrow> fs_is_dir fs q \<or> q \<in> set (prefixes ?p)" by (rule mkdir_ok [where io = "en_io E", OF _ io])
  from free have "\<forall>q \<in> set (prefixes (?p @ [''shards''])). \<not> fs_is_file fs1 q" by (simp add: d1(2))
  then obtain fs2 where c2: "create_dir_all ?io (?p @ [''shards'']) fs1 = (fs2, Inr ())"
    and d2: "fs_is_dir fs2 (?p @ [''shards''])" "\<forall>q. fs_is_file fs2 q \<longleftrightarrow> fs_is_file fs1 q"
      "\<forall>q. fs_is_dir fs1 q \<longrightarrow> fs_is_dir fs2 q"
      "\<forall>q. fs_is_dir fs2 q \<longrightarrow> fs_is_dir fs1 q \<or> q \<in> set (prefixes (?p @ [''shards'']))" by (rule mkdir_ok [where io = "en_io E", OF _ io])
  from free have "\<forall>q \<in> set (prefixes (?p @ [''ledger''])). \<not> fs_is_file fs2 q" by (simp add: d1(2) d2(2))
  then obtain fs3 where c3: "create_dir_all ?io (?p @ [''ledger'']) fs2 = (fs3, Inr ())"
    and d3: "fs_is_dir fs3 (?p @ [''ledger''])" "\<forall>q. fs_is_file fs3 q \<longleftrightarrow> fs_is_file fs2 q"
      "\<forall>q. fs_is_dir fs2 q \<longrightarrow> fs_is_dir fs3 q"
      "\<forall>q. fs_is_dir fs3 q \<longrightarrow> fs_is_dir fs2 q \<or> q \<in> set (prefixes (?p @ [''ledger'']))" by (rule mkdir_ok [where io = "en_io E", OF _ io])
  have cfg: "\<not> fs_is_dir fs3 (config_path ?e)"
    using clear d1(4) d2(4) d3(4) prefixes_length [of "config_path ?e" ?p]
    by (fastforce simp: config_path_def init_clear_def prefixes_snoc)
  have p3: "fs_is_dir fs3 ?p" using d1(1) d2(3) d3(3) by blast
  have utf8: "config_json_laws (en_config_json E)" "utf8_valid (as_bytes (config_name E))"
    "utf8_valid (as_bytes ?e)" "utf8_valid (as_bytes (en_now_rfc3339 E))" using env by (simp_all add: env_ok_def)
  obtain fs4 c where gen: "NodeConfig_generate (en_identity E) (en_config_rng E) (en_config_json E) ?io
      (en_now_rfc3339 E) ?e fs3 = (fs4, Inr c)"
    and d4: "\<forall>q. fs_is_file fs4 q \<longrightarrow> q = config_path ?e \<or> fs_is_file fs3 q"
      "\<forall>q. fs_is_dir fs4 q \<longleftrightarrow> fs_is_dir fs3 q"
    by (rule generate_ok [where io = "en_io E" and I = "en_identity E" and rng = "en_config_rng E",
          OF utf8 [unfolded config_name_def] p3 cfg io])
  have "init_node E dir fs = (fs4, Inr ())"
    using c1 c2 c3 gen by (simp add: init_node_def Let_def fs_then_def fs_context_def)
  moreover have "init_clear ?p fs4"
    using free cfg d4 d3(2) d2(2) d1(2) prefixes_length [of "config_path ?e" ?p]
    by (auto simp: init_clear_def config_path_def prefixes_snoc)
  ultimately show thesis
    using that generate_load [OF utf8 [unfolded config_name_def] gen, folded config_name_def] d4(2) d3(1,3) d2(1) by blast
qed

text \<open>Starting a daemon whose configuration loads.\<close>

lemma start_daemon_ok:
  assumes "NodeConfig_load (en_config_json F) (en_tilde F dir) fs = Inr c"
    and "en_open_ledger F (ledger_file (en_tilde F dir)) fs = (fs1, Inr db)"
    and "\<forall>q \<in> set (prefixes (path_of (en_tilde F dir) @ [''shards''])). \<not> fs_is_file fs1 q"
    and "\<forall>p. en_io F p = NoFault" and "chrono_laws (en_chrono F)"
  shows "\<exists>fs' d. start_daemon F dir fs = (fs', Inr d) \<and> dm_ledger d = store_open db \<and>
    acc_balance (dm_billing d) = dlit (en_decimal F) 0 \<and> freeze_state (dm_billing d) = Active \<and>
    dm_storage d = path_of (en_tilde F dir) @ [''shards''] \<and> fs_is_dir fs' (dm_storage d)"
proof -
  obtain fm where fm: "FreezeManager_new (en_chrono F) = Inr fm" "fm_state fm = Active"
    using FreezeManager_new_inv [OF assms(5)] by blast
  obtain fs2 where fs2: "create_dir_all (en_io F) (path_of (en_tilde F dir) @ [''shards'']) fs1 = (fs2, Inr ())"
    "fs_is_dir fs2 (path_of (en_tilde F dir) @ [''shards''])"
    by (rule mkdir_ok [OF assms(3), of "en_io F"]) (use assms(4) in simp_all)
  from assms(1,2) fm fs2 show ?thesis
    by (simp add: start_daemon_def ledger_file_def P2pNode_new_def Let_def fs_then_def BillingAccount_new_def
        ShardStore_new_def freeze_state_def FreezeManager_state_def)
qed

lemma start_daemon_no_ledger:
  assumes "NodeConfig_load (en_config_json F) (en_tilde F dir) fs = Inr c"
    and "en_open_ledger F (ledger_file (en_tilde F dir)) fs = (fs1, Inl e)"
  shows "start_daemon F dir fs = (fs1, Inl e)"
  using assms by (simp add: start_daemon_def ledger_file_def P2pNode_new_def Let_def fs_then_def)

section \<open>Properties\<close>

text \<open>
  C25: the life of a node.  When nothing is in the way and no system call fails, \<open>init\<close>
  succeeds and makes the directories; \<open>status\<close> then prints the identity that \<open>init\<close> generated,
  and a daemon that starts has loaded the configuration with it.  It does start as soon as the
  database opens without taking the place of the shard directory, and then holds the tables of
  the database, an active account with balance 0 and the shard directory; when the database does
  not open, the start fails with that error.  But the node it runs has the
  identity that was generated at the start, whatever the configuration says, and nothing stops
  a second \<open>init\<close>, which is as successful as the first and replaces the identity.  In a
  directory without a configuration \<open>status\<close> fails, and a daemon does not start.
\<close>

theorem node_life:
  assumes "env_ok E dir" and "init_clear (path_of (en_tilde E dir)) fs"
    and "en_tilde F = en_tilde E" and "en_config_json F = en_config_json E"
  shows "\<exists>fs'. cmd_init E dir fs = (fs', [], Some (Inr ())) \<and> init_clear (path_of (en_tilde E dir)) fs' \<and>
    fs_is_dir fs' (path_of (en_tilde E dir) @ [''shards'']) \<and>
    fs_is_dir fs' (path_of (en_tilde E dir) @ [''ledger'']) \<and>
    snd (snd (cmd_status F dir fs')) = Some (Inr ()) \<and>
    fst (snd (cmd_status F dir fs')) ! 1 = ''Peer ID:       '' @ config_name E \<and>
    (\<forall>fs'' d. start_daemon F dir fs' = (fs'', Inr d) \<longrightarrow>
       nc_peer_id (dm_config d) = config_name E \<and>
       peer_id_str (en_identity F) (dm_node d) = fresh_name (en_identity F) (en_node_rng F)) \<and>
    (\<forall>fs1 db. en_open_ledger F (ledger_file (en_tilde E dir)) fs' = (fs1, Inr db) \<and>
       (\<forall>q \<in> set (prefixes (path_of (en_tilde E dir) @ [''shards''])). \<not> fs_is_file fs1 q) \<and>
       (\<forall>p. en_io F p = NoFault) \<and> chrono_laws (en_chrono F) \<longrightarrow>
       (\<exists>fs'' d. start_daemon F dir fs' = (fs'', Inr d) \<and> dm_ledger d = store_open db \<and>
          acc_balance (dm_billing d) = dlit (en_decimal F) 0 \<and> freeze_state (dm_billing d) = Active \<and>
          dm_storage d = path_of (en_tilde E dir) @ [''shards''] \<and> fs_is_dir fs'' (dm_storage d))) \<and>
    (\<forall>fs1 e. en_open_ledger F (ledger_file (en_tilde E dir)) fs' = (fs1, Inl e) \<longrightarrow>
       start_daemon F dir fs' = (fs1, Inl e)) \<and>
    (\<not> fs_exists fs (config_path (en_tilde E dir)) \<longrightarrow>
       \<not> is_ok (the (snd (snd (cmd_status F dir fs)))) \<and> \<not> is_ok (snd (start_daemon F dir fs)))"
proof -
  let ?e = "en_tilde E dir" and ?J = "en_config_json E"
  obtain fs' c where i: "init_node E dir fs = (fs', Inr ())" "NodeConfig_load ?J ?e fs' = Inr c"
    "nc_peer_id c = config_name E" "fs_is_dir fs' (path_of ?e @ [''shards''])"
    "fs_is_dir fs' (path_of ?e @ [''ledger''])" "init_clear (path_of ?e) fs'"
    by (rule init_node_ok [OF assms(1,2)])
  have missing: "\<exists>m. NodeConfig_load ?J ?e g = Inl m" if "\<not> fs_exists g (config_path ?e)" for g
    using that by (auto simp: NodeConfig_load_def read_to_string_def fs_read_def fs_exists_def fs_is_file_def)
  then have ex: "fs_exists fs' (config_path ?e)" using i(2) by force
  have status: "cmd_status F dir fs' = (fs', [''=== VaultKeeper Node Status ==='',
      ''Peer ID:       '' @ nc_peer_id c, ''Data directory: '' @ ?e, ''Initialized:    Yes'',
      ''Version:        0.1.0''], Some (Inr ()))"
    using ex i(2) assms(3,4) by (simp add: cmd_status_def)
  have start: "dm_config d = c \<and>
      peer_id_str (en_identity F) (dm_node d) = fresh_name (en_identity F) (en_node_rng F)"
    if "start_daemon F dir fs' = (fs'', Inr d)" for fs'' d
    using that i(2) assms(3,4)
    by (auto simp: start_daemon_def Let_def fs_then_def peer_id_str_def P2pNode_new_def generate_identity_def
        fresh_name_def
        split: sum.splits prod.splits)
  have loaded: "NodeConfig_load (en_config_json F) (en_tilde F dir) fs' = Inr c" using i(2) assms(3,4) by simp
  note starts = start_daemon_ok [OF loaded, unfolded assms(3)]
  note start_fails = start_daemon_no_ledger [OF loaded, unfolded assms(3)]
  have none: "\<not> is_ok (the (snd (snd (cmd_status F dir fs)))) \<and> \<not> is_ok (snd (start_daemon F dir fs))"
    if "\<not> fs_exists fs (config_path ?e)"
    using missing [OF that] that assms(3,4) by (auto simp: cmd_status_def start_daemon_def)
  from i status start starts start_fails none show ?thesis by (simp add: cmd_init_def)
qed

definition sample_identity :: identity_api where
  "sample_identity = \<lparr>id_generate = (\<lambda>rng. rng 32), id_peer_id = take 1,
     id_to_string = (\<lambda>b. if b = [1] then ''peer-a'' else ''peer-b'')\<rparr>"

definition sample_env :: "(rat, nat, string) daemon_env" where
  "sample_env =
     \<lparr>en_tilde = (\<lambda>s. s), en_io = (\<lambda>_. NoFault), en_crypto = sample_crypto, en_config_json = sample_config_json,
      en_bip39 = sample_bip39, en_rng = (\<lambda>n. replicate n 0), en_decimal = sample_decimal, en_chrono = sample_chrono,
      en_identity = sample_identity, en_config_rng = (\<lambda>n. replicate n 1), en_node_rng = (\<lambda>n. replicate n 2), en_account_uuid = ''u'',
      en_tx_uuid = ''t'', en_now = 0, en_now_rfc3339 = ''now'', en_open_ledger = (\<lambda>p fs.
        if fs_is_dir fs (butlast p) then (fs\<lparr>fs_files := hm_insert p [] (fs_files fs)\<rparr>, Inr fresh_db)
        else (fs, Inl (Err ''unable to open database file''))),
      en_parse_addr = (\<lambda>a. Some a), en_bind = (\<lambda>_. Inr ()), en_connections = []\<rparr>"

definition empty_fs :: file_system where
  "empty_fs = \<lparr>fs_dirs = [], fs_files = []\<rparr>"

theorem node_life_witness:
  "\<exists>fs'. cmd_init sample_env ''node'' empty_fs = (fs', [], Some (Inr ())) \<and>
     fst (snd (cmd_status sample_env ''node'' fs')) ! 1 = ''Peer ID:       peer-a'' \<and>
     (\<exists>fs'' d. start_daemon sample_env ''node'' fs' = (fs'', Inr d) \<and>
        peer_id_str sample_identity (dm_node d) = ''peer-b'' \<and> nc_peer_id (dm_config d) = ''peer-a'') \<and>
     \<not> is_ok (snd (start_daemon sample_env ''node'' empty_fs))"
proof -
  have env: "env_ok sample_env ''node''"
    by (simp add: env_ok_def sample_env_def sample_config_laws utf8_valid_graphic graphic_def config_name_def
        fresh_name_def sample_identity_def numeral_nat)
  have clear: "init_clear (path_of (en_tilde sample_env ''node'')) empty_fs"
    by (auto simp: init_clear_def empty_fs_def fs_is_file_def fs_is_dir_def hm_get_def)
  have none: "\<not> fs_exists empty_fs (config_path (en_tilde sample_env ''node''))"
    by (simp add: fs_exists_def empty_fs_def fs_is_file_def fs_is_dir_def hm_get_def config_path_def)
  note life = node_life [OF env clear refl refl]
  let ?node = "path_of (en_tilde sample_env ''node'')" and ?db = "ledger_file (en_tilde sample_env ''node'')"
  from life obtain fs' where fs': "cmd_init sample_env ''node'' empty_fs = (fs', [], Some (Inr ()))"
    "init_clear ?node fs'" "fs_is_dir fs' (?node @ [''ledger''])"
    "fst (snd (cmd_status sample_env ''node'' fs')) ! 1 = ''Peer ID:       '' @ config_name sample_env"
    "\<forall>fs'' d. start_daemon sample_env ''node'' fs' = (fs'', Inr d) \<longrightarrow>
       nc_peer_id (dm_config d) = config_name sample_env \<and>
       peer_id_str (en_identity sample_env) (dm_node d) = fresh_name (en_identity sample_env) (en_node_rng sample_env)"
    and start: "\<forall>fs1 db. en_open_ledger sample_env ?db fs' = (fs1, Inr db) \<and>
       (\<forall>q \<in> set (prefixes (?node @ [''shards''])). \<not> fs_is_file fs1 q) \<and>
       (\<forall>p. en_io sample_env p = NoFault) \<and> chrono_laws (en_chrono sample_env) \<longrightarrow>
       (\<exists>fs'' d. start_daemon sample_env ''node'' fs' = (fs'', Inr d) \<and> dm_ledger d = store_open db \<and>
          acc_balance (dm_billing d) = dlit (en_decimal sample_env) 0 \<and> freeze_state (dm_billing d) = Active \<and>
          dm_storage d = ?node @ [''shards''] \<and> fs_is_dir fs'' (dm_storage d))"
    by (elim exE conjE) (rule that; assumption)
  let ?fs1 = "fs'\<lparr>fs_files := hm_insert ?db [] (fs_files fs')\<rparr>"
  have opened: "en_open_ledger sample_env ?db fs' = (?fs1, Inr fresh_db)"
    using fs'(3) by (simp add: sample_env_def ledger_file_def butlast_append)
  have free: "\<forall>q \<in> set (prefixes (?node @ [''shards''])). \<not> fs_is_file ?fs1 q"
  proof
    fix q assume q: "q \<in> set (prefixes (?node @ [''shards'']))"
    then have "length q \<le> length ?node + 1" by (auto simp: prefixes_def)
    then have "q \<noteq> ?db" by (auto simp: ledger_file_def)
    with q fs'(2) show "\<not> fs_is_file ?fs1 q"
      by (simp add: fs_is_file_def init_clear_def hmap_simps)
  qed
  have io: "\<forall>p. en_io sample_env p = NoFault" and ch: "chrono_laws (en_chrono sample_env)"
    by (simp_all add: sample_env_def sample_chrono_laws)
  have names: "config_name sample_env = ''peer-a''" "en_identity sample_env = sample_identity"
    "fresh_name (en_identity sample_env) (en_node_rng sample_env) = ''peer-b''"
    by (simp_all add: sample_env_def config_name_def fresh_name_def sample_identity_def numeral_nat)
  obtain fs'' d where d: "start_daemon sample_env ''node'' fs' = (fs'', Inr d)"
    using start opened free io ch by blast
  from life none have "\<not> is_ok (snd (start_daemon sample_env ''node'' empty_fs))" by blast
  with fs'(1,4,5) d names show ?thesis by auto
qed

text \<open>
  C31: keys and recovery.  New mnemonics are never generated: the code passes the bits of
  entropy, 128 or 256, where the crate takes the number of words, so \<open>keys generate\<close> always
  fails.  An existing phrase, with any white space around it, is valid, parses to its mnemonic
  and gives the same 32-byte key for the same passphrase, and \<open>recover\<close> accepts it and prints
  the number of its words; \<open>recover\<close> accepts exactly the phrases that validate, and panics on none.
\<close>

theorem keys_and_recovery:
  assumes "bip39_laws (en_bip39 E)" and "set us \<subseteq> set white_space" and "set vs \<subseteq> set white_space"
    and "phrase = concat us @ bp_to_string (en_bip39 E) m @ concat vs"
  shows "cmd_keys E Generate fs = (fs, [], Some (Inl (Err ''Failed to generate mnemonic''))) \<and>
    \<not> is_ok (generate_mnemonic (en_bip39 E) rng count) \<and>
    parse_mnemonic (en_bip39 E) phrase = Inr m \<and>
    (\<exists>key. recover_key_from_mnemonic (en_bip39 E) m pass = Inr (DerivedKey key) \<and> length key = DERIVED_KEY_LEN) \<and>
    (\<exists>out. cmd_recover E phrase pass fs = (fs, out, Some (Inr ())) \<and>
       out ! 1 = ''Mnemonic validated: '' @ show_nat (bp_word_count (en_bip39 E) m) @ '' words'') \<and>
    (\<forall>s. snd (snd (cmd_recover E s pass fs)) =
       Some (if validate_mnemonic (en_bip39 E) s then Inr () else Inl (Err ''Invalid mnemonic phrase'')))"
proof -
  note facts = mnemonic_recovery [OF assms, of "en_rng E" count pass]
  then obtain key where key: "recover_key_from_mnemonic (en_bip39 E) m pass = Inr (DerivedKey key)"
    "length key = DERIVED_KEY_LEN" by blast
  have rec: "\<exists>key. recover_key_from_mnemonic (en_bip39 E) m' pass = Inr key" for m'
    using recover_key_ok [OF assms(1)] by blast
  have "snd (snd (cmd_recover E s pass fs)) =
       Some (if validate_mnemonic (en_bip39 E) s then Inr () else Inl (Err ''Invalid mnemonic phrase''))" for s
    using rec by (auto simp: cmd_recover_def validate_mnemonic_def parse_mnemonic_def split: option.split)
      (metis (no_types, lifting) rec old.sum.simps(6) split_pairs2 try_then_Inr)
  moreover have "cmd_keys E Generate fs = (fs, [], Some (Inl (Err ''Failed to generate mnemonic'')))"
    by (simp add: generate_fails [OF assms(1)])
  moreover have "\<exists>out. cmd_recover E phrase pass fs = (fs, out, Some (Inr ())) \<and>
       out ! 1 = ''Mnemonic validated: '' @ show_nat (bp_word_count (en_bip39 E) m) @ '' words''"
    using facts key(1) by (simp add: cmd_recover_def)
  moreover have "\<not> is_ok (generate_mnemonic (en_bip39 E) rng count)"
    using generate_fails [OF assms(1)] by simp
  ultimately show ?thesis using facts key by blast
qed

theorem keys_and_recovery_witness:
  "snd (snd (cmd_keys sample_env Generate empty_fs)) = Some (Inl (Err ''Failed to generate mnemonic'')) \<and>
   snd (snd (cmd_recover sample_env '' www '' ''pass'' empty_fs)) = Some (Inr ())"
proof -
  have laws: "bip39_laws (en_bip39 sample_env)" by (simp add: sample_env_def sample_bip39_laws)
  have ws: "set ['' ''] \<subseteq> set white_space" using space_white by simp
  have phrase: "'' www '' = concat ['' ''] @ bp_to_string (en_bip39 sample_env) 2 @ concat ['' '']"
    by (simp add: sample_env_def sample_bip39_def numeral_2_eq_2)
  note f = keys_and_recovery [OF laws ws ws phrase, where fs = empty_fs and pass = "''pass''"]
  then obtain out where "cmd_recover sample_env '' www '' ''pass'' empty_fs = (empty_fs, out, Some (Inr ()))"
    by blast
  with f show ?thesis by (simp del: cmd_keys.simps)
qed

text \<open>
  C7: identifiers of uploaded files.  \<open>upload\<close> of a file that can be read prints one line for
  each 4 MiB of it; the 64 characters after the colon are the identifier of those bytes, and
  \<open>download\<close> accepts them.  But neither command stores anything: both leave the file system as
  it is, whatever the replication factor and the output file are; \<open>download\<close> succeeds exactly
  for 64 hex digits, whether such a chunk exists or not.
\<close>

theorem upload_download:
  assumes "crypto_laws (en_crypto E)" and "fs_read (path_of name) fs = Inr data"
  shows "\<exists>out. cmd_upload E name replication fs = (fs, out, Some (Inr ())) \<and>
    length out = length (chunk_data data) \<and>
    (\<forall>i < length out. \<forall>hex. hex = take 64 (drop (length (''  Chunk '' @ show_nat i @ '': '')) (out ! i)) \<longrightarrow>
       hex = ChunkId_as_hex (en_crypto E)
         (ChunkId_new (en_crypto E) (take CHUNK_SIZE (drop (i * CHUNK_SIZE) data))) \<and>
       cmd_download E hex output fs = (fs, [], Some (Inr ()))) \<and>
    (\<forall>s. fst (cmd_download E s output fs) = fs \<and>
       (is_ok (the (snd (snd (cmd_download E s output fs)))) \<longleftrightarrow>
        (\<exists>b. hex_decode (en_crypto E) s = Some b \<and> length b = 32)))"
proof -
  let ?cr = "en_crypto E" and ?cs = "chunk_data data"
  let ?ids = "generate_chunk_ids ?cr ?cs"
  let ?out = "map (\<lambda>i. chunk_line ?cr i (?ids ! i) (?cs ! i)) [0..<length ?ids]"
  have "fs_exists fs (path_of name)"
    using assms(2) by (auto simp: fs_exists_def fs_is_file_def fs_read_def split: option.splits)
  then have up: "cmd_upload E name replication fs = (fs, ?out, Some (Inr ()))"
    using assms(2) by (simp add: cmd_upload_def Let_def)
  have ids: "length ?ids = length ?cs" by (simp add: generate_chunk_ids_def)
  have id_i: "?ids ! i = ChunkId_new ?cr (take CHUNK_SIZE (drop (i * CHUNK_SIZE) data))" if "i < length ?cs" for i
    using that by (simp add: generate_chunk_ids_def chunk_data_fixed nth_fixed_chunks)
  have len: "length (ChunkId_as_hex ?cr (ChunkId_new ?cr b)) = 64" for b
    using assms(1) by (simp add: ChunkId_as_hex_def ChunkId_new_def hex_encode_length)
  have hex: "take 64 (drop (length (''  Chunk '' @ show_nat i @ '': '')) (?out ! i)) =
      ChunkId_as_hex ?cr (?ids ! i)" if "i < length ?cs" for i
    using that len by (simp add: chunk_line_def ChunkId_fmt_def ids id_i)
  have down: "cmd_download E (ChunkId_as_hex ?cr (ChunkId_new ?cr b)) output fs = (fs, [], Some (Inr ()))" for b
    using ChunkId_hex_roundtrip [OF assms(1), of "ChunkId_new ?cr b"] assms(1) by (simp add: cmd_download_def)
  have accept: "fst (cmd_download E s output fs) = fs \<and>
      (is_ok (the (snd (snd (cmd_download E s output fs)))) \<longleftrightarrow> (\<exists>b. hex_decode ?cr s = Some b \<and> length b = 32))" for s
    by (simp add: cmd_download_def ChunkId_from_hex_def split: option.split)
  show ?thesis
    by (rule exI [of _ ?out]) (use up ids id_i hex down accept in simp)
qed

theorem upload_download_witness:
  "\<exists>out. cmd_upload sample_env ''f'' 3 \<lparr>fs_dirs = [], fs_files = [([''f''], [1, 2, 3])]\<rparr> =
     (\<lparr>fs_dirs = [], fs_files = [([''f''], [1, 2, 3])]\<rparr>, out, Some (Inr ())) \<and> length out = 1"
proof -
  have "crypto_laws (en_crypto sample_env)" by (simp add: sample_env_def sample_crypto_laws)
  moreover have "fs_read (path_of ''f'') \<lparr>fs_dirs = [], fs_files = [([''f''], [1, 2, 3])]\<rparr> = Inr [1, 2, 3]"
    by (simp add: fs_read_def path_of_def hm_get_def)
  moreover have "length (chunk_data [1, 2, 3]) = 1"
    by (simp add: chunk_data_fixed length_fixed_chunks CHUNK_SIZE_def)
  ultimately show ?thesis using upload_download [of sample_env "''f''"] by metis
qed

end
