(* ===== verification/Entry.thy ===== *)
theory Entry
  imports CommandProofs
begin

text \<open>
  cli/src/main.rs and tauri/src-tauri/src/lib.rs: how the daemon and the desktop application are
  entered.  The parser of the command line (clap) and the window (tauri) are outside.
\<close>

section \<open>The daemon\<close>

datatype Level = TRACE | DEBUG | INFO | WARN | ERROR

record Cli =
  cl_command :: CliCommand
  cl_log_level :: string
  cl_config :: "string option"

text \<open>
  \<open>to_lowercase\<close> on the letters of ASCII; no other character has one of the letters of the names
  below as its lower case, so the comparisons come out as in the source.
\<close>

definition ascii_lower :: "char \<Rightarrow> char" where
  "ascii_lower c = (let n = (of_char c :: nat) in if 65 \<le> n \<and> n \<le> 90 then char_of (n + 32) else c)"

definition log_level :: "string \<Rightarrow> Level" where
  "log_level s =
     (let l = map ascii_lower s in
      if l = ''trace'' then TRACE else if l = ''debug'' then DEBUG else if l = ''info'' then INFO
      else if l = ''warn'' then WARN else if l = ''error'' then ERROR else INFO)"

definition daemon_main :: "('d, 'm, 'a) daemon_env \<Rightarrow> Cli \<Rightarrow> file_system \<Rightarrow> Level \<times> command_run" where
  "daemon_main E cli fs = (log_level (cl_log_level cli), handle_command E (cl_command cli) fs)"

lemma log_level_names:
  "log_level ''TRACE'' = TRACE" "log_level ''Warn'' = WARN" "log_level ''verbose'' = INFO"
  by code_simp+

text \<open>The option \<open>--config\<close> has no effect.\<close>

lemma config_option_ignored: "daemon_main E (cli\<lparr>cl_config := c\<rparr>) fs = daemon_main E cli fs"
  by (simp add: daemon_main_def)

section \<open>The desktop application\<close>

text \<open>
  The balance is an \<open>f64\<close>: \<open>fadd\<close> is its addition and \<open>zero\<close> its 0.0.  The locks are never
  poisoned, because no command panics while it holds one.
\<close>

record 'f AppState =
  as_balance :: 'f
  as_connected_peers :: u32

record 'f StatusResponse =
  sr_status :: string
  sr_balance :: 'f
  sr_connected_peers :: u32
  sr_version :: string

record 'f BalanceResponse =
  br_balance :: 'f
  br_currency :: string

definition app_new :: "'f \<Rightarrow> 'f AppState" where
  "app_new zero = \<lparr>as_balance = zero, as_connected_peers = 0\<rparr>"

definition get_status :: "'f AppState \<Rightarrow> 'f StatusResponse" where
  "get_status s = \<lparr>sr_status = ''running'', sr_balance = as_balance s,
     sr_connected_peers = as_connected_peers s, sr_version = ''0.1.0''\<rparr>"

definition get_balance :: "'f AppState \<Rightarrow> 'f BalanceResponse" where
  "get_balance s = \<lparr>br_balance = as_balance s, br_currency = ''RUB''\<rparr>"

definition update_balance :: "('f \<Rightarrow> 'f \<Rightarrow> 'f) \<Rightarrow> 'f \<Rightarrow> 'f AppState \<Rightarrow> 'f AppState \<times> unit result" where
  "update_balance fadd amount s = (s\<lparr>as_balance := fadd (as_balance s) amount\<rparr>, Inr ())"

text \<open>
  The commands that the window may invoke.  \<open>runtime\<close> is tauri: it gets the state and the handler
  and returns when the window is closed, or with an error, on which \<open>expect\<close> panics.
\<close>

datatype 'f AppCommand = GetStatus | GetBalance | UpdateBalance 'f

datatype 'f AppReply = StatusReply "'f StatusResponse" | BalanceReply "'f BalanceResponse" | UpdateReply "unit result"

fun app_invoke :: "('f \<Rightarrow> 'f \<Rightarrow> 'f) \<Rightarrow> 'f AppCommand \<Rightarrow> 'f AppState \<Rightarrow> 'f AppState \<times> 'f AppReply" where
  "app_invoke fadd GetStatus s = (s, StatusReply (get_status s))"
| "app_invoke fadd GetBalance s = (s, BalanceReply (get_balance s))"
| "app_invoke fadd (UpdateBalance amount) s =
     (let (s', r) = update_balance fadd amount s in (s', UpdateReply r))"

definition app_run ::
  "('f AppState \<Rightarrow> ('f AppCommand \<Rightarrow> 'f AppState \<Rightarrow> 'f AppState \<times> 'f AppReply) \<Rightarrow> unit option) \<Rightarrow>
   ('f \<Rightarrow> 'f \<Rightarrow> 'f) \<Rightarrow> 'f \<Rightarrow> unit result" where
  "app_run runtime fadd zero =
     (case runtime (app_new zero) (app_invoke fadd) of
        None \<Rightarrow> Inl Panic
      | Some u \<Rightarrow> Inr u)"

definition app_main ::
  "('f AppState \<Rightarrow> ('f AppCommand \<Rightarrow> 'f AppState \<Rightarrow> 'f AppState \<times> 'f AppReply) \<Rightarrow> unit option) \<Rightarrow>
   ('f \<Rightarrow> 'f \<Rightarrow> 'f) \<Rightarrow> 'f \<Rightarrow> unit result" where
  "app_main runtime fadd zero = app_run runtime fadd zero"

text \<open>After any commands: the updates added in the order of the calls, and never a connected peer.\<close>

fun app_session :: "('f \<Rightarrow> 'f \<Rightarrow> 'f) \<Rightarrow> 'f AppCommand list \<Rightarrow> 'f AppState \<Rightarrow> 'f AppState" where
  "app_session fadd [] s = s"
| "app_session fadd (c # cs) s = app_session fadd cs (fst (app_invoke fadd c s))"

fun app_amount :: "'f AppCommand \<Rightarrow> 'f list" where
  "app_amount (UpdateBalance x) = [x]"
| "app_amount _ = []"

lemma app_session_state:
  "app_session fadd cs s = s\<lparr>as_balance := foldl fadd (as_balance s) (concat (map app_amount cs))\<rparr>"
proof (induction cs arbitrary: s)
  case (Cons c cs)
  then show ?case by (cases c) (simp_all add: update_balance_def)
qed simp

end
