(* ===== verification/KeyTypes.thy ===== *)
theory KeyTypes
  imports Encryption Recovery Chunking
begin

text \<open>
  The array types of core/src: a \<open>ChunkId\<close> and a \<open>DerivedKey\<close> are \<open>[u8; 32]\<close>, a \<open>Nonce\<close> is
  \<open>[u8; 24]\<close>, a salt is \<open>[u8; 32]\<close>.  The model keeps them as byte lists, so that an array of the
  right size is a typing invariant (\<open>key_ok\<close>, \<open>nonce_ok\<close>, \<open>ChunkId_valid\<close>): every operation
  of the core makes values of these sizes only, and operations on such values do not panic and
  fit together.
\<close>

section \<open>What the operations make\<close>

lemma generate_salt_length: "rng_fills rng \<Longrightarrow> length (generate_salt rng) = SALT_LEN"
  by (simp add: generate_salt_def rng_fills_def)

lemma generate_master_key_length: "rng_fills rng \<Longrightarrow> length (master_bytes (generate_master_key rng)) = KEY_LEN"
  by (simp add: generate_master_key_def rng_fills_def)

lemma random_nonce_ok: "rng_fills rng \<Longrightarrow> nonce_ok (Nonce_random rng)"
  by (simp add: Nonce_random_def array_lengths)

lemma recover_key_type:
  assumes "bip39_laws B"
  shows "\<exists>key. recover_key_from_mnemonic B m pass = Inr key \<and> key_ok key"
  using recover_key_ok [OF assms] assms by (auto simp: array_lengths bip39_laws_def)

lemma chunk_ids_valid: "crypto_laws cr \<Longrightarrow> list_all ChunkId_valid (generate_chunk_ids cr chunks)"
  by (auto simp: generate_chunk_ids_def list_all_iff)

text \<open>A successful decryption used a key and a nonce of the right size, on a text with a tag.\<close>

lemma decrypt_type:
  assumes "aead_laws A" and "decrypt A key nonce ct = Inr data"
  shows "key_ok key" and "nonce_ok nonce" and "length ct = length data + TAG_LEN"
proof -
  from assms(2) show k: "key_ok key" and n: "nonce_ok nonce"
    by (auto simp: decrypt_def xnonce_from_slice_def aead_new [OF assms(1)] array_lengths split: if_splits)
  from assms(2) decrypt_eq [OF assms(1) k n]
  have "ae_encrypt A (derived_bytes key) (nonce_bytes nonce) data = Some ct" by simp
  from ae_encrypt_length(2) [OF assms(1) _ _ this] k n show "length ct = length data + TAG_LEN"
    by (simp add: array_lengths TAG_LEN_def)
qed

section \<open>How they fit together\<close>

text \<open>A value of the right type runs on: what one operation makes, the next one takes.\<close>

definition seal_open ::
  "aead_crate \<Rightarrow> (nat \<Rightarrow> bytes) \<Rightarrow> DerivedKey result \<Rightarrow> bytes \<Rightarrow> bytes result" where
  "seal_open A rng k data =
     try_then k (\<lambda>key. try_then (encrypt A rng key data) (\<lambda>(nonce, ct). decrypt A key nonce ct))"

lemma seal_open_key:
  assumes "aead_laws A" and "rng_fills rng" and "key_ok key" and "length data < AEAD_LIMIT"
  shows "seal_open A rng (Inr key) data = Inr data"
proof -
  obtain nonce ct where e: "encrypt A rng key data = Inr (nonce, ct)"
    by (rule encrypt_total [OF assms])
  with decrypt_encrypt(2) [OF assms(1-3) e] show ?thesis by (simp add: seal_open_def)
qed

text \<open>A text that is too long is an error of \<open>encrypt\<close>, and no panic.\<close>

lemma seal_open_long:
  assumes "aead_laws A" and "rng_fills rng" and "key_ok key" and "AEAD_LIMIT \<le> length data"
  shows "seal_open A rng (Inr key) data = Inl (Err ''Encryption failed'')"
  using assms(2-4) aead_enc [OF assms(1), of "derived_bytes key" "rng NONCE_LEN" data]
  by (simp add: seal_open_def encrypt_def xnonce_from_slice_def aead_new [OF assms(1)] array_lengths)

section \<open>Properties\<close>

text \<open>
  C23: the array types.  Whatever the arguments, \<open>derive_key\<close>, \<open>recover_key_from_mnemonic\<close> and
  \<open>encrypt\<close> do not panic and give keys of 32 bytes and nonces of 24, salts and master keys have
  their declared lengths, chunk identifiers have 32 bytes, whether they are computed or read
  from text.  \<open>decrypt\<close> panics on no nonce of the right length.  Values of these types fit
  together: under a key derived from a password with a new salt, or recovered from a mnemonic,
  a text within the limit of the cipher encrypts and decrypts to itself, and a longer one is
  an error.
\<close>

theorem array_types:
  assumes "kdf_laws K" and "aead_laws A" and "bip39_laws B" and "crypto_laws cr"
    and "rng_fills rng" and "rng_fills rng'"
  shows "derive_key K password salt \<noteq> Inl Panic \<and>
    (\<forall>key. derive_key K password salt = Inr key \<longrightarrow> key_ok key) \<and>
    (\<exists>key. recover_key_from_mnemonic B m pass = Inr key \<and> key_ok key) \<and>
    nonce_ok (Nonce_random rng) \<and> length (generate_salt rng) = SALT_LEN \<and> length (master_bytes (generate_master_key rng)) = KEY_LEN \<and>
    list_all ChunkId_valid (generate_chunk_ids cr chunks) \<and>
    (\<forall>c. ChunkId_from_hex cr s = Inr c \<longrightarrow> ChunkId_valid c) \<and>
    encrypt A rng key data \<noteq> Inl Panic \<and>
    (\<forall>nonce ct. encrypt A rng key data = Inr (nonce, ct) \<longrightarrow> key_ok key \<and> nonce_ok nonce) \<and>
    (\<forall>nonce ct. nonce_ok nonce \<longrightarrow> decrypt A key nonce ct \<noteq> Inl Panic) \<and>
    (length password < 2 ^ 32 \<longrightarrow>
       seal_open A rng (derive_key K password (generate_salt rng')) data =
         (if length data < AEAD_LIMIT then Inr data else Inl (Err ''Encryption failed''))) \<and>
    seal_open A rng (recover_key_from_mnemonic B m pass) data =
      (if length data < AEAD_LIMIT then Inr data else Inl (Err ''Encryption failed''))"
proof -
  have run: "seal_open A rng (Inr k) data =
      (if length data < AEAD_LIMIT then Inr data else Inl (Err ''Encryption failed''))" if "key_ok k" for k
    using that seal_open_key [OF assms(2,5)] seal_open_long [OF assms(2,5)] by simp
  have derived: "seal_open A rng (derive_key K password (generate_salt rng')) data =
      (if length data < AEAD_LIMIT then Inr data else Inl (Err ''Encryption failed''))"
    if pwd: "length password < 2 ^ 32"
  proof -
    obtain k where "derive_key K password (generate_salt rng') = Inr k" "key_ok k"
      by (rule derive_key_ok [OF assms(1) generate_salt_length [OF assms(6)] pwd])
    with run show ?thesis by simp
  qed
  obtain k where "recover_key_from_mnemonic B m pass = Inr k" "key_ok k"
    using recover_key_type [OF assms(3)] by blast
  with run derived show ?thesis
    using derive_key_type [OF assms(1)] encrypt_type [OF assms(2,5)] decrypt_no_panic
      generate_salt_length [OF assms(5)] generate_master_key_length [OF assms(5)]
      random_nonce_ok [OF assms(5)] chunk_ids_valid [OF assms(4)] ChunkId_from_hex_valid by auto
qed

theorem array_types_witness:
  "seal_open sample_aead (\<lambda>n. replicate n 7) (derive_key sample_kdf ''pass'' (replicate 32 9)) [1, 2, 3] = Inr [1, 2, 3] \<and>
   decrypt sample_aead (DerivedKey (replicate 32 1)) (Nonce (replicate 24 0)) [] \<noteq> Inl Panic \<and>
   ChunkId_from_hex sample_crypto ''00ff'' = Inl (Err ''ChunkId must be 32 bytes'')"
proof -
  have rng: "rng_fills (\<lambda>n. replicate n b)" for b by (simp add: rng_fills_def)
  note facts = array_types [OF sample_kdf_laws sample_aead_laws sample_bip39_laws sample_crypto_laws rng [of 7] rng [of 9],
      of "''pass''" "[]" 0 "[]" "[]" "''00ff''" "DerivedKey (replicate 32 1)" "[1, 2, 3]"]
  have salt: "generate_salt (\<lambda>n. replicate n 9) = replicate 32 9"
    by (simp add: generate_salt_def SALT_LEN_def)
  have "nonce_ok (Nonce (replicate 24 0))" by (simp add: array_lengths)
  moreover have "ChunkId_from_hex sample_crypto ''00ff'' = Inl (Err ''ChunkId must be 32 bytes'')"
    by code_simp
  moreover have "length [1, 2, 3 :: byte] < AEAD_LIMIT" by (simp add: AEAD_LIMIT_def)
  ultimately show ?thesis using facts unfolding salt by simp
qed

end
