(* ===== verification/UnitTest.thy ===== *)
theory UnitTest
  imports Prelude
begin

text \<open>
  The tests beside the code (the modules \<open>tests\<close> under \<open>#[cfg(test)]\<close>) as predicates: a test is
  true when it returns, false when an assertion fails or something panics.  What a test takes
  from the clock, a random source or a third-party crate is an argument of the predicate, so the
  lemmas hold for every outcome and not only for the one that a run of the test meets.
  The theories CoreTests, BillingTests, LedgerTests, P2pTests and StorageTests translate the tests
  and prove which of them the model passes, and on what the others depend.
\<close>

text \<open>\<open>unwrap\<close> of a \<open>Result\<close> and of an \<open>Option\<close>: a failure is a panic, and the test fails.\<close>

definition unwrap :: "'a result \<Rightarrow> ('a \<Rightarrow> bool) \<Rightarrow> bool" where
  "unwrap r k = (case r of Inl _ \<Rightarrow> False | Inr a \<Rightarrow> k a)"

definition unwrap_some :: "'a option \<Rightarrow> ('a \<Rightarrow> bool) \<Rightarrow> bool" where
  "unwrap_some x k = (case x of None \<Rightarrow> False | Some a \<Rightarrow> k a)"

text \<open>\<open>unwrap\<close> of what a method with \<open>&mut self\<close> returns, with the new state.\<close>

definition unwrap_mut :: "'s \<times> 'a result \<Rightarrow> ('s \<Rightarrow> 'a \<Rightarrow> bool) \<Rightarrow> bool" where
  "unwrap_mut p k = unwrap (snd p) (k (fst p))"

text \<open>\<open>is_err\<close>: an error was returned; a panic fails the test.\<close>

definition is_err :: "'a result \<Rightarrow> bool" where
  "is_err r = (case r of Inl (Err _) \<Rightarrow> True | _ \<Rightarrow> False)"

lemma unwrap_simps [simp]: "unwrap (Inr a) k = k a" "\<not> unwrap (Inl e) k"
    "unwrap_some (Some b) l = l b" "\<not> unwrap_some None l"
    "unwrap_mut (s, r) m = unwrap r (m s)"
    "is_err (Inl (Err msg))" "\<not> is_err (Inl Panic)" "\<not> is_err (Inr c)"
  by (simp_all add: unwrap_def unwrap_some_def unwrap_mut_def is_err_def)

lemma unwrap_iff: "unwrap r k \<longleftrightarrow> (\<exists>a. r = Inr a \<and> k a)"
  by (cases r) simp_all

lemma is_err_iff: "is_err r \<longleftrightarrow> (\<exists>msg. r = Inl (Err msg))"
  by (simp add: is_err_def split: sum.split rust_error.split)

end
