(* ===== verification/CoreTests.thy ===== *)
theory CoreTests
  imports UnitTest Chunking MerkleProofs ErasureProofs Encryption Recovery
begin

text \<open>The tests of the core crate: core/src/*.rs.\<close>

section \<open>chunking.rs\<close>

definition test_chunk_exact_size :: bool where
  "test_chunk_exact_size =
     (let data = replicate CHUNK_SIZE 0; chunks = chunk_data data
      in length chunks = 1 \<and> length (chunks ! 0) = CHUNK_SIZE)"

definition test_chunk_multiple :: bool where
  "test_chunk_multiple =
     (let data = replicate (CHUNK_SIZE * 3 + 1024) 0; chunks = chunk_data data
      in length chunks = 4 \<and> length (chunks ! 0) = CHUNK_SIZE \<and> length (chunks ! 3) = 1024)"

definition test_roundtrip_chunk_assemble :: "(nat \<Rightarrow> bytes) \<Rightarrow> bool" where
  "test_roundtrip_chunk_assemble rng =
     (let data = rng (10 * 1024 * 1024); chunks = chunk_data data; reassembled = assemble_chunks chunks
      in data = reassembled)"

definition test_chunk_empty_data :: bool where
  "test_chunk_empty_data = (let chunks = chunk_data [] in chunks = [])"

definition test_chunk_ids_unique :: "crypto \<Rightarrow> bool" where
  "test_chunk_ids_unique cr =
     (let data1 = replicate CHUNK_SIZE 0; data2 = replicate CHUNK_SIZE 1;
          chunks = chunk_data data1; chunks2 = chunk_data data2;
          ids1 = generate_chunk_ids cr chunks; ids2 = generate_chunk_ids cr chunks2
      in ids1 ! 0 \<noteq> ids2 ! 0)"

definition test_chunk_count :: bool where
  "test_chunk_count \<longleftrightarrow>
     chunk_count 0 = 0 \<and> chunk_count 1 = 1 \<and> chunk_count (of_nat CHUNK_SIZE) = 1 \<and>
     chunk_count (of_nat CHUNK_SIZE + 1) = 2 \<and> chunk_count (of_nat CHUNK_SIZE * 5) = 5"

lemma chunk_data_length: "length (chunk_data data) = (length data + CHUNK_SIZE - 1) div CHUNK_SIZE"
  by (simp add: chunk_data_fixed length_fixed_chunks)

lemma one_chunk: "length data = CHUNK_SIZE \<Longrightarrow> chunk_data data = [data]"
  by (simp add: chunk_data_fixed fixed_chunks_step [of data] length_0_conv [symmetric] del: length_0_conv)

lemma chunking_tests:
  "test_chunk_exact_size" "test_chunk_empty_data" "test_roundtrip_chunk_assemble rng" "test_chunk_count"
proof -
  show "test_chunk_exact_size" by (simp add: test_chunk_exact_size_def Let_def one_chunk)
  show "test_chunk_empty_data" by (simp add: test_chunk_empty_data_def chunk_data_def)
  show "test_roundtrip_chunk_assemble rng"
    by (simp add: test_roundtrip_chunk_assemble_def Let_def chunk_data_fixed assemble_chunks_concat concat_fixed_chunks)
  show "test_chunk_count" by (simp add: test_chunk_count_def chunk_count_def CHUNK_SIZE_def)
qed

lemma chunk_multiple_passes: "test_chunk_multiple"
proof -
  let ?data = "replicate (CHUNK_SIZE * 3 + 1024) (0 :: byte)"
  have len: "length (chunk_data ?data) = 4" by (simp add: chunk_data_length CHUNK_SIZE_def)
  then have "length (chunk_data ?data ! i) = min CHUNK_SIZE (CHUNK_SIZE * 3 + 1024 - i * CHUNK_SIZE)" if "i < 4" for i
    using fixed_chunks_sizes(1) [of CHUNK_SIZE i ?data] that by (simp add: chunk_data_fixed)
  from this [of 0] this [of 3] len show ?thesis
    by (simp add: test_chunk_multiple_def Let_def CHUNK_SIZE_def)
qed

lemma chunk_ids_unique_passes:
  "test_chunk_ids_unique cr \<longleftrightarrow> blake3 cr (replicate CHUNK_SIZE 0) \<noteq> blake3 cr (replicate CHUNK_SIZE 1)"
  by (simp add: test_chunk_ids_unique_def Let_def one_chunk generate_chunk_ids_def ChunkId_new_def)

section \<open>padding.rs\<close>

definition test_pad_exact_size :: "(nat \<Rightarrow> bytes) \<Rightarrow> bool" where
  "test_pad_exact_size rng =
     (let data = replicate CHUNK_SIZE 0 in unwrap (pad_chunk rng data) (\<lambda>padded. length padded = CHUNK_SIZE))"

definition test_pad_smaller_data :: "(nat \<Rightarrow> bytes) \<Rightarrow> bool" where
  "test_pad_smaller_data rng =
     (let data = replicate 1024 0x42 in unwrap (pad_chunk rng data) (\<lambda>padded.
        length padded = CHUNK_SIZE \<and> sub_slice 0 1024 padded = data))"

definition test_pad_with_header_roundtrip :: "(nat \<Rightarrow> bytes) \<Rightarrow> bool" where
  "test_pad_with_header_roundtrip rng =
     (let data = as_bytes ''Hello, World! This is test data for padding.''
      in unwrap (pad_with_length_header rng data) (\<lambda>padded.
        length padded = CHUNK_SIZE \<and>
        unwrap_some (unpad_with_length_header padded) (\<lambda>unpadded. unpadded = data)))"

definition test_pad_header_full_chunk :: "(nat \<Rightarrow> bytes) \<Rightarrow> bool" where
  "test_pad_header_full_chunk rng =
     (let data = replicate (CHUNK_SIZE - 4) 0
      in unwrap (pad_with_length_header rng data) (\<lambda>padded.
        length padded = CHUNK_SIZE \<and>
        unwrap_some (unpad_with_length_header padded) (\<lambda>unpadded. length unpadded = CHUNK_SIZE - 4)))"

definition test_unpad_invalid_data :: bool where
  "test_unpad_invalid_data = (let data = replicate 2 0; r = unpad_with_length_header data in r = None)"

text \<open>The two calls draw from the random source one after the other.\<close>

definition test_random_padding_varies :: "(nat \<Rightarrow> bytes) \<Rightarrow> (nat \<Rightarrow> bytes) \<Rightarrow> bool" where
  "test_random_padding_varies rng1 rng2 =
     (let data = replicate 10 0
      in unwrap (pad_chunk rng1 data) (\<lambda>padded1. unwrap (pad_chunk rng2 data) (\<lambda>padded2.
        drop 10 padded1 \<noteq> drop 10 padded2)))"

lemma padding_tests:
  assumes "rng_fills rng"
  shows "test_pad_exact_size rng" and "test_pad_smaller_data rng" and "test_unpad_invalid_data"
  using assms
  by (simp_all add: test_pad_exact_size_def test_pad_smaller_data_def test_unpad_invalid_data_def Let_def
      pad_chunk_ok unpad_with_length_header_def sub_slice_def rng_fills_def CHUNK_SIZE_def)

lemma pad_header_full_chunk_passes:
  assumes "rng_fills rng"
  shows "test_pad_header_full_chunk rng"
proof -
  let ?data = "replicate (CHUNK_SIZE - 4) (0 :: byte)"
  have "length ?data \<le> CHUNK_SIZE" by simp
  from pad_header_ok [OF this assms] obtain p where p: "pad_with_length_header rng ?data = Inr p" by blast
  from unpad_pad [OF assms _ p] pad_header_length [OF p assms] CHUNK_SIZE_bound(1) assms show ?thesis
    by (simp add: test_pad_header_full_chunk_def Let_def p rng_fills_def)
qed

text \<open>This test fails: unpadding returns the last 44 of the random bytes.\<close>

lemma pad_with_header_roundtrip_test:
  assumes "rng_fills rng"
  shows "test_pad_with_header_roundtrip rng \<longleftrightarrow>
    drop (CHUNK_SIZE - 88) (rng (CHUNK_SIZE - 44)) = as_bytes ''Hello, World! This is test data for padding.''"
proof -
  let ?data = "as_bytes ''Hello, World! This is test data for padding.''"
  have len: "length ?data = 44" by (simp add: as_bytes_def)
  then have "length ?data \<le> CHUNK_SIZE" by (simp add: CHUNK_SIZE_def)
  from pad_header_ok [OF this assms] obtain p where p: "pad_with_length_header rng ?data = Inr p" by blast
  have "unpad_with_length_header p = Some (drop (CHUNK_SIZE - 88) (rng (CHUNK_SIZE - 44)))"
    using unpad_pad [OF assms _ p] len by (simp add: CHUNK_SIZE_def)
  with pad_header_length [OF p assms] show ?thesis
    by (simp add: test_pad_with_header_roundtrip_def Let_def p)
qed

lemma random_padding_varies_passes:
  "rng_fills rng1 \<Longrightarrow> rng_fills rng2 \<Longrightarrow>
    test_random_padding_varies rng1 rng2 \<longleftrightarrow> rng1 (CHUNK_SIZE - 10) \<noteq> rng2 (CHUNK_SIZE - 10)"
  by (simp add: test_random_padding_varies_def Let_def pad_chunk_ok CHUNK_SIZE_def)

section \<open>erasure.rs\<close>

definition test_encode_produces_correct_shard_count :: "rs_crate \<Rightarrow> bool" where
  "test_encode_produces_correct_shard_count R =
     (let data = replicate CHUNK_SIZE 0xAB in unwrap (erasure_encode R data) (\<lambda>shards. length shards = RS_TOTAL_SHARDS))"

definition test_reconstruct_from_all_shards :: "rs_crate \<Rightarrow> bool" where
  "test_reconstruct_from_all_shards R =
     (let data = replicate CHUNK_SIZE 0x42 in unwrap (erasure_encode R data) (\<lambda>shards.
        let shard_data = enumerate 0 shards in unwrap (erasure_reconstruct R shard_data) (\<lambda>reconstructed.
          let trimmed = sub_slice 0 CHUNK_SIZE reconstructed in data = trimmed)))"

definition test_reconstruct_from_minimal_shards :: "rs_crate \<Rightarrow> bool" where
  "test_reconstruct_from_minimal_shards R =
     (let data = replicate CHUNK_SIZE 0x42 in unwrap (erasure_encode R data) (\<lambda>shards.
        let shard_data = take RS_DATA_SHARDS (enumerate 0 shards)
        in unwrap (erasure_reconstruct R shard_data) (\<lambda>reconstructed.
          let trimmed = sub_slice 0 CHUNK_SIZE reconstructed in data = trimmed)))"

definition test_reconstruct_missing_data_shards :: "rs_crate \<Rightarrow> bool" where
  "test_reconstruct_missing_data_shards R =
     (let data = replicate CHUNK_SIZE 0x42 in unwrap (erasure_encode R data) (\<lambda>shards.
        let shard_data = [(0, shards ! 0), (2, shards ! 2), (3, shards ! 3)]
        in unwrap (erasure_reconstruct R shard_data) (\<lambda>reconstructed.
          let trimmed = sub_slice 0 CHUNK_SIZE reconstructed in data = trimmed)))"

definition test_insufficient_shards_fails :: "rs_crate \<Rightarrow> bool" where
  "test_insufficient_shards_fails R =
     (let data = replicate CHUNK_SIZE 0x42 in unwrap (erasure_encode R data) (\<lambda>shards.
        let shard_data = take (RS_DATA_SHARDS - 1) (enumerate 0 shards)
        in is_err (erasure_reconstruct R shard_data)))"

definition test_empty_data :: "rs_crate \<Rightarrow> bool" where
  "test_empty_data R = unwrap (erasure_encode R []) (\<lambda>shards. length shards = RS_TOTAL_SHARDS)"

definition test_large_data :: "rs_crate \<Rightarrow> bool" where
  "test_large_data R =
     (let data = replicate (CHUNK_SIZE * 3) 0xCC in unwrap (erasure_encode R data) (\<lambda>shards.
        let shard_data = enumerate 0 shards in unwrap (erasure_reconstruct R shard_data) (\<lambda>reconstructed.
          let trimmed = sub_slice 0 (CHUNK_SIZE * 3) reconstructed in data = trimmed)))"

text \<open>The shards that a test selects give the data back, with some padding behind it.\<close>

lemma test_recover:
  assumes "rs_laws R" and "data \<noteq> []"
  obtains shards where "erasure_encode R data = Inr shards" and "length shards = RS_TOTAL_SHARDS"
    and "\<And>js. \<forall>i \<in> set js. i < RS_TOTAL_SHARDS \<Longrightarrow> 3 \<le> card (set js) \<Longrightarrow>
      unwrap (erasure_reconstruct R (map (\<lambda>i. (i, shards ! i)) js))
        (\<lambda>reconstructed. data = sub_slice 0 (length data) reconstructed)"
proof -
  obtain shards where enc: "erasure_encode R data = Inr shards"
    using erasure_encode_ok [OF assms] by blast
  have "unwrap (erasure_reconstruct R (map (\<lambda>i. (i, shards ! i)) js))
      (\<lambda>reconstructed. data = sub_slice 0 (length data) reconstructed)"
    if "\<forall>i \<in> set js. i < RS_TOTAL_SHARDS" "3 \<le> card (set js)" for js
    using erasure_recover [OF assms enc, of "map (\<lambda>i. (i, shards ! i)) js"] that
    by (auto simp: image_image sub_slice_def)
  moreover have "length shards = RS_TOTAL_SHARDS"
    using erasure_recover [OF assms enc, of "map (\<lambda>i. (i, shards ! i)) [0, 1, 2]"]
    by (simp add: shard_count_defs)
  ultimately show thesis using that enc by blast
qed

lemma enumerate_map: "enumerate 0 xs = map (\<lambda>i. (i, xs ! i)) [0..<length xs]"
  by (rule nth_equalityI) (simp_all add: nth_enumerate_eq)

lemma erasure_tests:
  assumes "rs_laws R"
  shows "test_encode_produces_correct_shard_count R" and "test_reconstruct_from_all_shards R"
    and "test_reconstruct_from_minimal_shards R" and "test_reconstruct_missing_data_shards R"
    and "test_insufficient_shards_fails R" and "test_empty_data R" and "test_large_data R"
proof -
  have ne: "replicate CHUNK_SIZE b \<noteq> []" "replicate (CHUNK_SIZE * 3) b \<noteq> []" for b :: byte by simp_all
  note defs = Let_def enumerate_map shard_count_defs take_map
  obtain shards where s: "erasure_encode R (replicate CHUNK_SIZE 0x42) = Inr shards" "length shards = RS_TOTAL_SHARDS"
    and rec: "\<And>js. \<forall>i \<in> set js. i < RS_TOTAL_SHARDS \<Longrightarrow> 3 \<le> card (set js) \<Longrightarrow>
      unwrap (erasure_reconstruct R (map (\<lambda>i. (i, shards ! i)) js))
        (\<lambda>reconstructed. replicate CHUNK_SIZE 0x42 = sub_slice 0 CHUNK_SIZE reconstructed)"
    by (rule test_recover [OF assms ne(1)]) auto
  show "test_reconstruct_from_all_shards R"
    using rec [of "[0..<5]"] s by (simp add: test_reconstruct_from_all_shards_def defs)
  show "test_reconstruct_from_minimal_shards R"
    using rec [of "[0..<3]"] s by (simp add: test_reconstruct_from_minimal_shards_def defs)
  show "test_reconstruct_missing_data_shards R"
    using rec [of "[0, 2, 3]"] s by (simp add: test_reconstruct_missing_data_shards_def defs)
  show "test_insufficient_shards_fails R"
    using s by (simp add: test_insufficient_shards_fails_def defs erasure_reconstruct_def)
  show "test_encode_produces_correct_shard_count R"
    using test_recover [OF assms ne(1), of "0xAB"] by (force simp: test_encode_produces_correct_shard_count_def)
  show "test_empty_data R"
    using assms by (simp add: test_empty_data_def erasure_encode_def rs_laws_def shard_count_defs)
  obtain sh where "erasure_encode R (replicate (CHUNK_SIZE * 3) 0xCC) = Inr sh" "length sh = RS_TOTAL_SHARDS"
    and "\<And>js. \<forall>i \<in> set js. i < RS_TOTAL_SHARDS \<Longrightarrow> 3 \<le> card (set js) \<Longrightarrow>
      unwrap (erasure_reconstruct R (map (\<lambda>i. (i, sh ! i)) js))
        (\<lambda>reconstructed. replicate (CHUNK_SIZE * 3) 0xCC = sub_slice 0 (CHUNK_SIZE * 3) reconstructed)"
    by (rule test_recover [OF assms ne(2)]) auto
  from this(1,2) this(3) [of "[0..<5]"] show "test_large_data R" by (simp add: test_large_data_def defs)
qed

section \<open>merkle.rs\<close>

definition test_single_leaf_tree :: "crypto \<Rightarrow> bool" where
  "test_single_leaf_tree cr =
     (let chunks = [as_bytes ''single'']; tree = from_chunks cr chunks; root = MerkleTree_root tree
      in root = blake3 cr (as_bytes ''single''))"

definition test_even_leaf_count :: "crypto \<Rightarrow> bool" where
  "test_even_leaf_count cr =
     (let chunks = [as_bytes ''a'', as_bytes ''b'', as_bytes ''c'', as_bytes ''d'']; tree = from_chunks cr chunks
      in unwrap (merkle_proof cr tree 0) (\<lambda>r. unwrap_some r (\<lambda>proof. verify_proof cr proof)))"

definition test_odd_leaf_count :: "crypto \<Rightarrow> bool" where
  "test_odd_leaf_count cr =
     (let chunks = [as_bytes ''a'', as_bytes ''b'', as_bytes ''c'']; tree = from_chunks cr chunks
      in unwrap (merkle_proof cr tree 2) (\<lambda>r. unwrap_some r (\<lambda>proof. verify_proof cr proof)))"

definition test_proof_all_leaves :: "crypto \<Rightarrow> bool" where
  "test_proof_all_leaves cr =
     (let chunks = map (\<lambda>i. as_bytes (''chunk_'' @ [char_of (48 + i)])) [0..<8]; tree = from_chunks cr chunks
      in list_all (\<lambda>i. unwrap (merkle_proof cr tree i) (\<lambda>r. unwrap_some r (\<lambda>proof. verify_proof cr proof)))
           [0..<length chunks])"

definition test_tampered_leaf_fails :: "crypto \<Rightarrow> bool" where
  "test_tampered_leaf_fails cr =
     (let chunks = [as_bytes ''original'']; tree = from_chunks cr chunks
      in unwrap (merkle_proof cr tree 0) (\<lambda>r. unwrap_some r (\<lambda>proof.
        let proof1 = proof\<lparr>mp_leaf_hash := hex_encode cr (blake3 cr (as_bytes ''tampered''))\<rparr>
        in \<not> verify_proof cr proof1)))"

text \<open>The test asserts nothing; there is a root for no leaves too.\<close>

definition test_empty_tree :: "crypto \<Rightarrow> bool" where
  "test_empty_tree cr = (let tree = from_chunks cr []; root = MerkleTree_root tree in True)"

definition test_generate_challenge ::
  "crypto \<Rightarrow> (u64 list \<Rightarrow> nat \<Rightarrow> u64 list) \<Rightarrow> bytes \<Rightarrow> u64 \<Rightarrow> bool" where
  "test_generate_challenge cr pick nonce now =
     (let chunk_id = ChunkId_new cr (as_bytes ''test_chunk'');
          challenge = generate_challenge pick nonce now chunk_id 100 5
      in length (sc_leaf_indices challenge) = 5 \<and> sc_chunk_id challenge = chunk_id)"

text \<open>A tree of one leaf has the layer of the leaf only.\<close>

lemma single_leaf_proof:
  "from_chunks cr [c] = \<lparr>mt_leaves = [blake3 cr c], mt_layers = [[blake3 cr c]], mt_root = blake3 cr c\<rparr>"
  "merkle_proof cr (from_chunks cr [c]) 0 = Inr (Some
     \<lparr>mp_leaf_index = 0, mp_leaf_hash = hex_encode cr (blake3 cr c),
      mp_siblings = [\<lparr>pn_hash = hex_encode cr (blake3 cr c), pn_is_right = True\<rparr>],
      mp_root = hex_encode cr (blake3 cr c)\<rparr>)"
  by (simp_all add: from_chunks_def from_hashes_def build_layers.simps merkle_proof_def)

lemma merkle_tests:
  assumes "pick_laws pick"
  shows "test_single_leaf_tree cr" and "test_empty_tree cr" and "test_generate_challenge cr pick nonce now"
proof -
  show "test_single_leaf_tree cr"
    by (simp add: test_single_leaf_tree_def single_leaf_proof MerkleTree_root_def)
  show "test_empty_tree cr" by (simp add: test_empty_tree_def)
  show "test_generate_challenge cr pick nonce now"
    using generate_challenge_indices(1,2) [OF assms, of 100]
    by (simp add: test_generate_challenge_def Let_def)
qed

text \<open>
  The three tests of inclusion proofs fail, unless hashing the root with itself gives the root;
  the test of a tampered leaf passes, but so would one of a genuine leaf.
\<close>

lemma produced_proof_test:
  assumes "crypto_laws cr" and "i < length chunks"
  shows "unwrap (merkle_proof cr (from_chunks cr chunks) i) (\<lambda>r. unwrap_some r (\<lambda>proof. verify_proof cr proof)) \<longleftrightarrow>
    blake3 cr (mt_root (from_chunks cr chunks) @ mt_root (from_chunks cr chunks)) = mt_root (from_chunks cr chunks)"
proof -
  have i: "i < length (map (blake3 cr) chunks)" using assms(2) by simp
  note h = hashes32_chunks [OF assms(1)]
  obtain p where "merkle_proof cr (from_hashes cr (map (blake3 cr) chunks)) i = Inr (Some p)"
    using merkle_proof_path [OF assms(1) h i] by blast
  with produced_proof_verdict [OF assms(1) h i this] show ?thesis by (simp add: from_chunks_def)
qed

lemma merkle_proof_tests:
  assumes "crypto_laws cr"
    and "\<forall>b. length b = 32 \<longrightarrow> blake3 cr (b @ b) \<noteq> b"
  shows "\<not> test_even_leaf_count cr" and "\<not> test_odd_leaf_count cr" and "\<not> test_proof_all_leaves cr"
    and "test_tampered_leaf_fails cr \<longleftrightarrow>
      blake3 cr (blake3 cr (as_bytes ''tampered'') @ blake3 cr (as_bytes ''original'')) \<noteq> blake3 cr (as_bytes ''original'')"
proof -
  have "length (mt_root (from_chunks cr chunks)) = 32" if "chunks \<noteq> []" for chunks
    using top_hash_32 [OF assms(1) _ hashes32_chunks [OF assms(1)], of chunks] that
    by (simp add: from_chunks_def from_hashes_nonempty)
  with assms(2) have neq: "chunks \<noteq> [] \<Longrightarrow> blake3 cr (mt_root (from_chunks cr chunks) @ mt_root (from_chunks cr chunks)) \<noteq>
      mt_root (from_chunks cr chunks)" for chunks by blast
  show "\<not> test_even_leaf_count cr"
    unfolding test_even_leaf_count_def Let_def using neq by (subst produced_proof_test [OF assms(1)]) simp_all
  show "\<not> test_odd_leaf_count cr"
    unfolding test_odd_leaf_count_def Let_def using neq by (subst produced_proof_test [OF assms(1)]) simp_all
  let ?chunks = "map (\<lambda>i. as_bytes (''chunk_'' @ [char_of (48 + i)])) [0..<8]"
  have "0 < length ?chunks" "?chunks \<noteq> []" by simp_all
  with produced_proof_test [OF assms(1) this(1)] neq [of ?chunks] show "\<not> test_proof_all_leaves cr"
    unfolding test_proof_all_leaves_def Let_def list_all_iff by (auto simp del: list.map)
  show "test_tampered_leaf_fails cr \<longleftrightarrow>
      blake3 cr (blake3 cr (as_bytes ''tampered'') @ blake3 cr (as_bytes ''original'')) \<noteq> blake3 cr (as_bytes ''original'')"
    using assms(1) by (simp add: test_tampered_leaf_fails_def Let_def single_leaf_proof(2) verify_proof_def)
qed

section \<open>bip39_recovery.rs\<close>

definition test_generate_12_word_mnemonic :: "'m bip39_crate \<Rightarrow> (nat \<Rightarrow> bytes) \<Rightarrow> bool" where
  "test_generate_12_word_mnemonic B rng =
     unwrap (generate_mnemonic B rng Twelve) (\<lambda>mnemonic. bp_word_count B mnemonic = 12)"

definition test_generate_24_word_mnemonic :: "'m bip39_crate \<Rightarrow> (nat \<Rightarrow> bytes) \<Rightarrow> bool" where
  "test_generate_24_word_mnemonic B rng =
     unwrap (generate_mnemonic B rng TwentyFour) (\<lambda>mnemonic. bp_word_count B mnemonic = 24)"

definition test_roundtrip_recovery :: "'m bip39_crate \<Rightarrow> (nat \<Rightarrow> bytes) \<Rightarrow> bool" where
  "test_roundtrip_recovery B rng =
     unwrap (generate_mnemonic B rng Twelve) (\<lambda>mnemonic.
       let passphrase = ''vaultkeeper-passphrase''
       in unwrap (recover_key_from_mnemonic B mnemonic passphrase) (\<lambda>key1.
          unwrap (recover_key_from_mnemonic B mnemonic passphrase) (\<lambda>key2.
            derived_bytes key1 = derived_bytes key2)))"

definition test_different_passphrase_different_key :: "'m bip39_crate \<Rightarrow> (nat \<Rightarrow> bytes) \<Rightarrow> bool" where
  "test_different_passphrase_different_key B rng =
     unwrap (generate_mnemonic B rng Twelve) (\<lambda>mnemonic.
       unwrap (recover_key_from_mnemonic B mnemonic ''passphrase1'') (\<lambda>key1.
       unwrap (recover_key_from_mnemonic B mnemonic ''passphrase2'') (\<lambda>key2.
         derived_bytes key1 \<noteq> derived_bytes key2)))"

definition test_parse_valid_mnemonic :: "'m bip39_crate \<Rightarrow> (nat \<Rightarrow> bytes) \<Rightarrow> bool" where
  "test_parse_valid_mnemonic B rng =
     unwrap (generate_mnemonic B rng Twelve) (\<lambda>mnemonic.
       let phrase = bp_to_string B mnemonic in is_ok (parse_mnemonic B phrase))"

definition test_parse_invalid_mnemonic :: "'m bip39_crate \<Rightarrow> bool" where
  "test_parse_invalid_mnemonic B \<longleftrightarrow> \<not> validate_mnemonic B ''invalid words here''"

definition test_deterministic_from_phrase :: "'m bip39_crate \<Rightarrow> bool" where
  "test_deterministic_from_phrase B =
     (let phrase = ''abandon abandon abandon abandon abandon abandon abandon abandon abandon abandon abandon about'';
          res = validate_mnemonic B phrase
      in res)"

text \<open>The tests that generate a mnemonic fail; the others ask the crate.\<close>

lemma bip39_tests:
  assumes "bip39_laws B"
  shows "\<not> test_generate_12_word_mnemonic B rng" and "\<not> test_generate_24_word_mnemonic B rng"
    and "\<not> test_roundtrip_recovery B rng" and "\<not> test_different_passphrase_different_key B rng"
    and "\<not> test_parse_valid_mnemonic B rng"
    and "test_parse_invalid_mnemonic B \<longleftrightarrow> bp_parse_normalized B ''invalid words here'' = None"
    and "test_deterministic_from_phrase B \<longleftrightarrow> bp_parse_normalized B
      ''abandon abandon abandon abandon abandon abandon abandon abandon abandon abandon abandon about'' \<noteq> None"
  using trim_spaces [of "[]" "[]"]
  by (simp_all add: test_generate_12_word_mnemonic_def test_generate_24_word_mnemonic_def test_roundtrip_recovery_def
      test_different_passphrase_different_key_def test_parse_valid_mnemonic_def test_parse_invalid_mnemonic_def
      test_deterministic_from_phrase_def generate_fails [OF assms] validate_mnemonic_def graphic_def)

section \<open>encryption.rs\<close>

definition test_encrypt_decrypt_roundtrip :: "aead_crate \<Rightarrow> (nat \<Rightarrow> bytes) \<Rightarrow> bool" where
  "test_encrypt_decrypt_roundtrip A rng =
     (let key = DerivedKey (replicate DERIVED_KEY_LEN 0x42);
          plaintext = as_bytes ''Hello, VaultKeeper! This is a secret message.''
      in unwrap (encrypt A rng key plaintext) (\<lambda>(nonce, ciphertext).
         unwrap (decrypt A key nonce ciphertext) (\<lambda>decrypted. plaintext = decrypted)))"

definition test_decrypt_wrong_key_fails :: "aead_crate \<Rightarrow> (nat \<Rightarrow> bytes) \<Rightarrow> bool" where
  "test_decrypt_wrong_key_fails A rng =
     (let key1 = DerivedKey (replicate DERIVED_KEY_LEN 0x42); key2 = DerivedKey (replicate DERIVED_KEY_LEN 0x43);
          plaintext = as_bytes ''Secret data''
      in unwrap (encrypt A rng key1 plaintext) (\<lambda>(nonce, ciphertext). is_err (decrypt A key2 nonce ciphertext)))"

definition test_decrypt_tampered_data_fails :: "aead_crate \<Rightarrow> (nat \<Rightarrow> bytes) \<Rightarrow> bool" where
  "test_decrypt_tampered_data_fails A rng =
     (let key = DerivedKey (replicate DERIVED_KEY_LEN 0x42); plaintext = as_bytes ''Original data''
      in unwrap (encrypt A rng key plaintext) (\<lambda>(nonce, ciphertext).
        let ciphertext1 = (if ciphertext \<noteq> [] then ciphertext[0 := ciphertext ! 0 XOR 0xFF] else ciphertext)
        in is_err (decrypt A key nonce ciphertext1)))"

text \<open>The loop, with the nonces seen so far; \<open>rng n\<close> is the random source of the n-th round from the end.\<close>

fun nonces_unique ::
  "aead_crate \<Rightarrow> crypto \<Rightarrow> (nat \<Rightarrow> nat \<Rightarrow> bytes) \<Rightarrow> DerivedKey \<Rightarrow> nat \<Rightarrow> string list \<Rightarrow> bool" where
  "nonces_unique A cr rng key 0 nonces = True"
| "nonces_unique A cr rng key (Suc n) nonces =
     unwrap (encrypt A (rng n) key (as_bytes ''test'')) (\<lambda>(nonce, _).
       let hex = hex_encode cr (Nonce_as_bytes nonce)
       in hex \<notin> set nonces \<and> nonces_unique A cr rng key n (hex # nonces))"

definition test_unique_nonces :: "aead_crate \<Rightarrow> crypto \<Rightarrow> (nat \<Rightarrow> nat \<Rightarrow> bytes) \<Rightarrow> bool" where
  "test_unique_nonces A cr rng = nonces_unique A cr rng (DerivedKey (replicate DERIVED_KEY_LEN 0x42)) 1000 []"

definition test_derive_key_deterministic :: "kdf_crate \<Rightarrow> (nat \<Rightarrow> bytes) \<Rightarrow> bool" where
  "test_derive_key_deterministic K rng =
     (let salt = generate_salt rng
      in unwrap (derive_key K ''password123'' salt) (\<lambda>key1. unwrap (derive_key K ''password123'' salt) (\<lambda>key2.
        derived_bytes key1 = derived_bytes key2)))"

definition test_derive_key_different_passwords :: "kdf_crate \<Rightarrow> (nat \<Rightarrow> bytes) \<Rightarrow> bool" where
  "test_derive_key_different_passwords K rng =
     (let salt = generate_salt rng
      in unwrap (derive_key K ''password123'' salt) (\<lambda>key1. unwrap (derive_key K ''password456'' salt) (\<lambda>key2.
        derived_bytes key1 \<noteq> derived_bytes key2)))"

definition test_large_data_encryption :: "aead_crate \<Rightarrow> (nat \<Rightarrow> bytes) \<Rightarrow> bool" where
  "test_large_data_encryption A rng =
     (let key = DerivedKey (replicate DERIVED_KEY_LEN 0x42); plaintext = replicate (CHUNK_SIZE * 2) 0xAB
      in unwrap (encrypt A rng key plaintext) (\<lambda>(nonce, ciphertext).
         unwrap (decrypt A key nonce ciphertext) (\<lambda>decrypted.
           length plaintext = length decrypted \<and> plaintext = decrypted)))"

lemma test_key_ok: "key_ok (DerivedKey (replicate DERIVED_KEY_LEN b))"
  by (simp add: key_ok_def)

lemma test_roundtrip:
  assumes "aead_laws A" and "rng_fills rng" and "key_ok key" and "length data < AEAD_LIMIT"
  shows "unwrap (encrypt A rng key data) (\<lambda>(nonce, ct). unwrap (decrypt A key nonce ct) (\<lambda>d. d = data))"
proof -
  obtain nonce ct where e: "encrypt A rng key data = Inr (nonce, ct)" by (rule encrypt_total [OF assms])
  with decrypt_encrypt(2) [OF assms(1-3) e, of ct] show ?thesis by simp
qed

text \<open>A text is rejected exactly when it encrypts nothing.\<close>

lemma decrypt_rejects:
  assumes "aead_laws A" and "key_ok key" and "nonce_ok nonce"
  shows "is_err (decrypt A key nonce ct) \<longleftrightarrow> (\<forall>data. ae_encrypt A (derived_bytes key) (nonce_bytes nonce) data \<noteq> Some ct)"
proof (cases "decrypt A key nonce ct")
  case (Inl e)
  have "ae_encrypt A (derived_bytes key) (nonce_bytes nonce) data \<noteq> Some ct" for data
    using decrypt_eq [OF assms, of ct data] Inl by simp
  with Inl decrypt_no_panic [OF assms(3), of A key ct] show ?thesis by (cases e) auto
next
  case (Inr data)
  with decrypt_eq [OF assms, of ct data] show ?thesis by auto
qed

lemma rejection_test:
  assumes "aead_laws A" and "rng_fills rng" and "key_ok key" and "key_ok key'" and "length data < AEAD_LIMIT"
  shows "unwrap (encrypt A rng key data) (\<lambda>(nonce, ct). is_err (decrypt A key' nonce (f ct))) \<longleftrightarrow>
    (\<forall>ct data'. ae_encrypt A (derived_bytes key) (rng NONCE_LEN) data = Some ct \<longrightarrow>
       ae_encrypt A (derived_bytes key') (rng NONCE_LEN) data' \<noteq> Some (f ct))"
proof -
  obtain nonce ct where e: "encrypt A rng key data = Inr (nonce, ct)" by (rule encrypt_total [OF assms(1-3,5)])
  then have n: "nonce = Nonce (rng NONCE_LEN)" "ae_encrypt A (derived_bytes key) (rng NONCE_LEN) data = Some ct"
    using encrypt_eq [OF assms(1-3)] by simp_all
  then have "nonce_ok nonce" using assms(2) by (simp add: nonce_ok_def rng_fills_def)
  from decrypt_rejects [OF assms(1,4) this] e n show ?thesis by simp
qed

lemma encryption_tests:
  assumes "aead_laws A" and "rng_fills rng"
  shows "test_encrypt_decrypt_roundtrip A rng" and "test_large_data_encryption A rng"
proof -
  note rt = test_roundtrip [OF assms test_key_ok]
  have short: "length (as_bytes ''Hello, VaultKeeper! This is a secret message.'') < AEAD_LIMIT"
    by (simp add: as_bytes_def AEAD_LIMIT_def)
  from rt [OF short, of "0x42"] show "test_encrypt_decrypt_roundtrip A rng"
    by (auto simp: test_encrypt_decrypt_roundtrip_def Let_def unwrap_iff)
  have "length (replicate (CHUNK_SIZE * 2) (0xAB :: byte)) < AEAD_LIMIT" by (simp add: AEAD_LIMIT_def CHUNK_SIZE_def)
  from rt [OF this, of "0x42"] show "test_large_data_encryption A rng"
    by (fastforce simp: test_large_data_encryption_def Let_def unwrap_iff)
qed

lemma rejection_tests:
  assumes "aead_laws A" and "rng_fills rng"
  shows "test_decrypt_wrong_key_fails A rng \<longleftrightarrow>
      (\<forall>ct data. ae_encrypt A (replicate 32 0x42) (rng 24) (as_bytes ''Secret data'') = Some ct \<longrightarrow>
         ae_encrypt A (replicate 32 0x43) (rng 24) data \<noteq> Some ct)" (is "_ \<longleftrightarrow> ?wrong")
    and "test_decrypt_tampered_data_fails A rng \<longleftrightarrow>
      (\<forall>ct data. ae_encrypt A (replicate 32 0x42) (rng 24) (as_bytes ''Original data'') = Some ct \<longrightarrow>
         ae_encrypt A (replicate 32 0x42) (rng 24) data \<noteq> Some (if ct \<noteq> [] then ct[0 := ct ! 0 XOR 0xFF] else ct))" (is "_ \<longleftrightarrow> ?tampered")
proof -
  have "length (as_bytes ''Secret data'') < AEAD_LIMIT" "length (as_bytes ''Original data'') < AEAD_LIMIT"
    by (simp_all add: as_bytes_def AEAD_LIMIT_def)
  from this [THEN rejection_test [OF assms test_key_ok test_key_ok]] show
    "test_decrypt_wrong_key_fails A rng \<longleftrightarrow> ?wrong" "test_decrypt_tampered_data_fails A rng \<longleftrightarrow> ?tampered"
    by (simp_all add: test_decrypt_wrong_key_fails_def test_decrypt_tampered_data_fails_def Let_def
        DERIVED_KEY_LEN_def NONCE_LEN_def)
qed

lemma nonces_unique_iff:
  assumes "aead_laws A" and "crypto_laws cr" and "\<forall>k. rng_fills (rng k)" and "key_ok key"
  shows "nonces_unique A cr rng key n seen \<longleftrightarrow>
    (\<forall>i < n. \<forall>j < i. rng j NONCE_LEN \<noteq> rng i NONCE_LEN) \<and> (\<forall>k < n. hex_encode cr (rng k NONCE_LEN) \<notin> set seen)"
proof (induction n arbitrary: seen)
  case (Suc n)
  have "length (as_bytes ''test'') < AEAD_LIMIT" by (simp add: as_bytes_def AEAD_LIMIT_def)
  from encrypt_total [OF assms(1) spec [OF assms(3)] assms(4) this] obtain nonce ct where
    e: "encrypt A (rng n) key (as_bytes ''test'') = Inr (nonce, ct)" by blast
  then have "nonce = Nonce (rng n NONCE_LEN)" using encrypt_eq [OF assms(1) spec [OF assms(3)] assms(4)] by blast
  with Suc.IH e show ?case
    by (auto simp: less_Suc_eq Nonce_as_bytes_def hex_encode_inject [OF assms(2)])
qed simp

lemma unique_nonces_passes:
  assumes "aead_laws A" and "crypto_laws cr" and "\<forall>k. rng_fills (rng k)"
  shows "test_unique_nonces A cr rng \<longleftrightarrow> (\<forall>i < 1000. \<forall>j < i. rng j NONCE_LEN \<noteq> rng i NONCE_LEN)"
  unfolding test_unique_nonces_def by (subst nonces_unique_iff [OF assms test_key_ok]) simp

lemma derived_bytes_eq: "derived_bytes k1 = derived_bytes k2 \<longleftrightarrow> k1 = k2"
  by (cases k1; cases k2) simp

lemma derive_key_tests:
  assumes "kdf_laws K" and "rng_fills rng"
  shows "test_derive_key_deterministic K rng"
    and "test_derive_key_different_passwords K rng \<longleftrightarrow>
      derive_key K ''password123'' (generate_salt rng) \<noteq> derive_key K ''password456'' (generate_salt rng)"
proof -
  have salt: "length (generate_salt rng) = SALT_LEN" using assms(2) by (simp add: generate_salt_def rng_fills_def)
  have pwd: "length ''password123'' < 2 ^ 32" "length ''password456'' < 2 ^ 32" by simp_all
  obtain k1 where "derive_key K ''password123'' (generate_salt rng) = Inr k1"
    by (rule derive_key_ok [OF assms(1) salt pwd(1)])
  moreover obtain k2 where "derive_key K ''password456'' (generate_salt rng) = Inr k2"
    by (rule derive_key_ok [OF assms(1) salt pwd(2)])
  ultimately show "test_derive_key_deterministic K rng"
    "test_derive_key_different_passwords K rng \<longleftrightarrow>
      derive_key K ''password123'' (generate_salt rng) \<noteq> derive_key K ''password456'' (generate_salt rng)"
    by (simp_all add: test_derive_key_deterministic_def test_derive_key_different_passwords_def Let_def
        derived_bytes_eq)
qed

end
