(* ===== verification/BillingTests.thy ===== *)
theory BillingTests
  imports UnitTest Account Subscription
begin

text \<open>
  The tests of the billing crate: billing/src/*.rs.  Decimals are compared by the numbers they
  stand for, as the crate does.  The tests \<open>test_split_revenue_various_amounts\<close> and
  \<open>test_remaining_hours\<close> of calculator.rs and \<open>test_change_tier_pro_rata\<close> of subscription.rs rest on
  rounded quotients, of which nothing is assumed, and are left out.
\<close>

section \<open>Exact steps\<close>

declare eq_divide_eq_numeral1 [simp del] divide_eq_eq_numeral1 [simp del]

definition deq :: "'d decimal_api \<Rightarrow> 'd \<Rightarrow> 'd \<Rightarrow> bool" where
  "deq D a b \<longleftrightarrow> dval D a = dval D b"

text \<open>All numbers of the tests have at most four decimal places.\<close>

lemma four_places:
  "of_int \<lfloor>q * 10000\<rfloor> = q * 10000 \<Longrightarrow> \<bar>\<lfloor>q * 10000\<rfloor>\<bar> < 2 ^ 96 \<Longrightarrow> representable q"
  by (rule representableI [of 4], rule fitsI [of _ _ "\<lfloor>q * 10000\<rfloor>"]) (simp_all only:, simp_all)

lemma try_then_assoc: "try_then (try_then r f) g = try_then r (\<lambda>x. try_then (f x) g)"
  by (cases r) simp_all

lemma unwrap_or_panic: "unwrap (or_panic r) k \<longleftrightarrow> (\<exists>c. r = Some c \<and> k c)"
  and unwrap_try_or_panic: "unwrap (try_then (or_panic r) f) k \<longleftrightarrow> (\<exists>c. r = Some c \<and> unwrap (f c) k)"
  by (cases r; simp)+

lemma mul_step:
  assumes "decimal_laws D" and "representable (dval D a * dval D b)"
    and "\<And>c. dval D c = dval D a * dval D b \<Longrightarrow> unwrap (f c) k"
  shows "unwrap (try_then (or_panic (dmul D a b)) f) k"
  by (rule dmul_exact [OF assms(1,2)]) (auto simp: unwrap_try_or_panic intro: assms(3))

lemma sub_step:
  assumes "decimal_laws D" and "representable (dval D a - dval D b)"
    and "\<And>c. dval D c = dval D a - dval D b \<Longrightarrow> unwrap (f c) k"
  shows "unwrap (try_then (or_panic (dsub D a b)) f) k"
  by (rule dsub_exact [OF assms(1,2)]) (auto simp: unwrap_try_or_panic intro: assms(3))

lemma add_step:
  assumes "decimal_laws D" and "representable (dval D a + dval D b)"
    and "\<And>c. dval D c = dval D a + dval D b \<Longrightarrow> unwrap (f c) k"
  shows "unwrap (try_then (or_panic (dadd D a b)) f) k"
  by (rule dadd_exact [OF assms(1,2)]) (auto simp: unwrap_try_or_panic intro: assms(3))

lemma div_step:
  assumes "decimal_laws D" and "dval D b \<noteq> 0" and "representable (dval D a / dval D b)"
    and "\<And>c. dval D c = dval D a / dval D b \<Longrightarrow> unwrap (f c) k"
  shows "unwrap (try_then (or_panic (ddiv D a b)) f) k"
  by (rule ddiv_exact [OF assms(1-3)]) (auto simp: unwrap_try_or_panic intro: assms(4))

text \<open>The last operation of a function.\<close>

lemma try_then_return: "try_then r Inr = r"
  by (cases r) simp_all

lemmas mul_last = mul_step [where f = Inr, unfolded try_then_return unwrap_simps]
  and add_last = add_step [where f = Inr, unfolded try_then_return unwrap_simps]
  and div_last = div_step [where f = Inr, unfolded try_then_return unwrap_simps]

lemmas exact_steps = mul_step sub_step add_step div_step mul_last add_last div_last

section \<open>rates.rs\<close>

definition test_base_rate_hdd_no_replication :: "'d decimal_api \<Rightarrow> bool" where
  "test_base_rate_hdd_no_replication D =
     unwrap (calculate_hourly_rate D Hdd (ReplicationFactor 1) False) (\<lambda>rate. deq D rate (dlit D (30 / 100)))"

definition test_ssd_2x_replication :: "'d decimal_api \<Rightarrow> bool" where
  "test_ssd_2x_replication D =
     unwrap (calculate_hourly_rate D Ssd (ReplicationFactor 2) False) (\<lambda>rate. deq D rate (dlit D (90 / 100)))"

definition test_nvme_3x_replication_with_cushion :: "'d decimal_api \<Rightarrow> bool" where
  "test_nvme_3x_replication_with_cushion D =
     unwrap (calculate_hourly_rate D Nvme (ReplicationFactor 3) True) (\<lambda>rate. deq D rate (dlit D (225 / 100)))"

definition test_hdd_4x_replication :: "'d decimal_api \<Rightarrow> bool" where
  "test_hdd_4x_replication D =
     unwrap (calculate_hourly_rate D Hdd (ReplicationFactor 4) False) (\<lambda>rate. deq D rate (dlit D (120 / 100)))"

definition test_hdd_2x_with_cushion :: "'d decimal_api \<Rightarrow> bool" where
  "test_hdd_2x_with_cushion D =
     unwrap (calculate_hourly_rate D Hdd (ReplicationFactor 2) True) (\<lambda>rate. deq D rate (dlit D (75 / 100)))"

definition test_platform_host_split_sums_to_100 :: "'d decimal_api \<Rightarrow> bool" where
  "test_platform_host_split_sums_to_100 D =
     unwrap (or_panic (dadd D (PLATFORM_SHARE D) (HOST_SHARE D))) (\<lambda>tot. deq D tot (dlit D (100 / 100)))"

definition test_disk_type_from_u32 :: bool where
  "test_disk_type_from_u32 \<longleftrightarrow>
     DiskType_from_u32 1 = Hdd \<and> DiskType_from_u32 2 = Ssd \<and> DiskType_from_u32 3 = Nvme \<and>
     DiskType_from_u32 99 = Hdd"

lemmas tariff_steps = calculate_hourly_rate_def if_True if_False try_then_assoc

lemma rates_tests:
  assumes "decimal_laws D"
  shows "test_base_rate_hdd_no_replication D" "test_ssd_2x_replication D" "test_nvme_3x_replication_with_cushion D"
    "test_hdd_4x_replication D" "test_hdd_2x_with_cushion D" "test_platform_host_split_sums_to_100 D"
    "test_disk_type_from_u32"
proof -
  note vals = share_exact [OF assms] replication_exact [OF assms] DiskType_multiplier_exact [OF assms] disk_factor_def
    deq_def assms dlit_exact four_places
  show "test_base_rate_hdd_no_replication D"
    unfolding test_base_rate_hdd_no_replication_def tariff_steps by (intro exact_steps) (simp_all add: vals)
  show "test_ssd_2x_replication D"
    unfolding test_ssd_2x_replication_def tariff_steps by (intro exact_steps) (simp_all add: vals)
  show "test_nvme_3x_replication_with_cushion D"
    unfolding test_nvme_3x_replication_with_cushion_def tariff_steps by (intro exact_steps) (simp_all add: vals)
  show "test_hdd_4x_replication D"
    unfolding test_hdd_4x_replication_def tariff_steps by (intro exact_steps) (simp_all add: vals)
  show "test_hdd_2x_with_cushion D"
    unfolding test_hdd_2x_with_cushion_def tariff_steps by (intro exact_steps) (simp_all add: vals)
  show "test_platform_host_split_sums_to_100 D"
    unfolding test_platform_host_split_sums_to_100_def by (intro exact_steps) (simp_all add: vals)
  show "test_disk_type_from_u32" by (simp add: test_disk_type_from_u32_def DiskType_from_u32_def)
qed

section \<open>types.rs\<close>

definition test_billing_entry_split_no_loss :: "'d decimal_api \<Rightarrow> string \<Rightarrow> string \<Rightarrow> int \<Rightarrow> bool" where
  "test_billing_entry_split_no_loss D u1 u2 now =
     unwrap (BillingEntry_new D u2 (AccountId_new u1) now 1 (dlit D (10 / 10)) (dlit D (30 / 100)) 1 2 False) (\<lambda>entry.
       unwrap (BillingEntry_verify_split D entry) (\<lambda>b. b \<and>
       unwrap (or_panic (dadd D (be_platform_fee entry) (be_host_fee entry))) (\<lambda>s. deq D s (be_total_cost entry))))"

definition test_billing_entry_calculation :: "'d decimal_api \<Rightarrow> string \<Rightarrow> string \<Rightarrow> int \<Rightarrow> bool" where
  "test_billing_entry_calculation D u1 u2 now =
     unwrap (BillingEntry_new D u2 (AccountId_new u1) now 1 (dlit D (10 / 10)) (dlit D (60 / 100)) 2 2 False) (\<lambda>entry.
       deq D (be_total_cost entry) (dlit D (60 / 100)) \<and> deq D (be_platform_fee entry) (dlit D (6 / 100)) \<and>
       deq D (be_host_fee entry) (dlit D (54 / 100)))"

definition test_account_id_unique :: "string \<Rightarrow> string \<Rightarrow> bool" where
  "test_account_id_unique u1 u2 \<longleftrightarrow> AccountId_new u1 \<noteq> AccountId_new u2"

lemma types_tests:
  assumes "decimal_laws D"
  shows "test_billing_entry_split_no_loss D u1 u2 now" and "test_billing_entry_calculation D u1 u2 now"
    and "test_account_id_unique u1 u2 \<longleftrightarrow> u1 \<noteq> u2"
proof -
  note vals = share_exact [OF assms] deq_def assms dlit_exact four_places
  note entry = BillingEntry_new_def BillingEntry_verify_split_def try_then_assoc
  show "test_billing_entry_split_no_loss D u1 u2 now"
    unfolding test_billing_entry_split_no_loss_def entry
    by (intro exact_steps, simp_all add: vals) ((intro exact_steps, simp_all add: vals)+)
  show "test_billing_entry_calculation D u1 u2 now"
    unfolding test_billing_entry_calculation_def entry by (intro exact_steps) (simp_all add: vals)
  show "test_account_id_unique u1 u2 \<longleftrightarrow> u1 \<noteq> u2" by (simp add: test_account_id_unique_def AccountId_new_def)
qed

section \<open>calculator.rs\<close>

definition test_calculate_hourly_hdd_1tb :: "'d decimal_api \<Rightarrow> string \<Rightarrow> string \<Rightarrow> int \<Rightarrow> bool" where
  "test_calculate_hourly_hdd_1tb D u1 u2 now =
     unwrap (calculate_hourly D u2 now (AccountId_new u1) 1099511627776 Hdd (ReplicationFactor 1) False) (\<lambda>entry.
       deq D (be_hourly_rate entry) (dlit D (30 / 100)))"

definition test_calculate_hourly_ssd_2x :: "'d decimal_api \<Rightarrow> string \<Rightarrow> string \<Rightarrow> int \<Rightarrow> bool" where
  "test_calculate_hourly_ssd_2x D u1 u2 now =
     unwrap (calculate_hourly D u2 now (AccountId_new u1) 1099511627776 Ssd (ReplicationFactor 2) False) (\<lambda>entry.
       deq D (be_hourly_rate entry) (dlit D (90 / 100)))"

definition test_split_revenue_no_rounding :: "'d decimal_api \<Rightarrow> bool" where
  "test_split_revenue_no_rounding D =
     (let tot = dlit D (100 / 100) in unwrap (split_revenue D tot) (\<lambda>(platform, host).
        deq D platform (dlit D (10 / 100)) \<and> deq D host (dlit D (90 / 100)) \<and>
        unwrap (verify_split D tot platform host) (\<lambda>b. b)))"

definition test_daily_and_monthly_cost :: "'d decimal_api \<Rightarrow> bool" where
  "test_daily_and_monthly_cost D =
     (let hourly = dlit D (30 / 100); tb = dlit D (10 / 10)
      in unwrap (daily_cost D hourly tb) (\<lambda>daily. deq D daily (dlit D (720 / 100)) \<and>
         unwrap (monthly_cost D daily) (\<lambda>monthly. deq D monthly (dlit D (21600 / 100)))))"

definition test_balance_sufficient :: "'d decimal_api \<Rightarrow> bool" where
  "test_balance_sufficient D \<longleftrightarrow>
     is_balance_sufficient D (dlit D (1 / 100)) \<and> \<not> is_balance_sufficient D (dlit D (0 / 100)) \<and>
     \<not> is_balance_sufficient D (dlit D (- 100 / 100))"

definition test_entry_verify_split :: "'d decimal_api \<Rightarrow> string \<Rightarrow> string \<Rightarrow> int \<Rightarrow> bool" where
  "test_entry_verify_split D u1 u2 now =
     unwrap (calculate_hourly D u2 now (AccountId_new u1) 1099511627776 Nvme (ReplicationFactor 3) True) (\<lambda>entry.
       unwrap (BillingEntry_verify_split D entry) (\<lambda>b. b))"

lemma calculator_tests:
  assumes "decimal_laws D"
  shows "test_calculate_hourly_hdd_1tb D u1 u2 now" and "test_calculate_hourly_ssd_2x D u1 u2 now"
    and "test_split_revenue_no_rounding D" and "test_daily_and_monthly_cost D" and "test_balance_sufficient D"
    and "test_entry_verify_split D u1 u2 now"
proof -
  note vals = share_exact [OF assms] replication_exact [OF assms] DiskType_multiplier_exact [OF assms] disk_factor_def
    deq_def assms dlit_exact four_places
  note hourly = calculate_hourly_def tariff_steps BillingEntry_new_def BillingEntry_verify_split_def
  show "test_calculate_hourly_hdd_1tb D u1 u2 now"
    unfolding test_calculate_hourly_hdd_1tb_def hourly
    by (intro exact_steps, simp_all add: vals) ((intro exact_steps, simp_all add: vals)+)
  show "test_calculate_hourly_ssd_2x D u1 u2 now"
    unfolding test_calculate_hourly_ssd_2x_def hourly
    by (intro exact_steps, simp_all add: vals) ((intro exact_steps, simp_all add: vals)+)
  show "test_split_revenue_no_rounding D"
    unfolding test_split_revenue_no_rounding_def split_revenue_def Let_def
    by (intro exact_steps, simp_all add: vals verify_split_def) (intro conjI exact_steps, simp_all add: vals)
  show "test_daily_and_monthly_cost D"
    unfolding test_daily_and_monthly_cost_def daily_cost_def monthly_cost_def Let_def
    by (intro conjI exact_steps) (simp_all add: vals)
  show "test_balance_sufficient D"
    by (simp add: test_balance_sufficient_def is_balance_sufficient_def vals)
  show "test_entry_verify_split D u1 u2 now"
    unfolding test_entry_verify_split_def hourly
    by (intro exact_steps, simp_all add: vals) ((intro exact_steps, simp_all add: vals)+)
qed

section \<open>freeze.rs\<close>

definition test_initial_state_active :: "chrono_api \<Rightarrow> bool" where
  "test_initial_state_active C = unwrap (FreezeManager_new C) (\<lambda>manager. FreezeManager_state manager = Active)"

definition test_trigger_freeze :: "chrono_api \<Rightarrow> int \<Rightarrow> bool" where
  "test_trigger_freeze C t0 = unwrap (FreezeManager_new C) (\<lambda>manager.
     let manager = trigger_freeze t0 manager
     in FreezeManager_state manager = FrozenExport \<and> FreezeManager_frozen_at manager \<noteq> None)"

definition test_double_freeze_noop :: "chrono_api \<Rightarrow> int \<Rightarrow> int \<Rightarrow> bool" where
  "test_double_freeze_noop C t0 t1 = unwrap (FreezeManager_new C) (\<lambda>manager.
     let manager = trigger_freeze t0 manager; first_frozen = FreezeManager_frozen_at manager;
         manager = trigger_freeze t1 manager
     in FreezeManager_frozen_at manager = first_frozen)"

definition test_unfreeze :: "chrono_api \<Rightarrow> int \<Rightarrow> bool" where
  "test_unfreeze C t0 = unwrap (FreezeManager_new C) (\<lambda>manager.
     let manager = trigger_freeze t0 manager; manager = unfreeze manager
     in FreezeManager_state manager = Active \<and> FreezeManager_frozen_at manager = None)"

definition test_unfreeze_hard_deleted_noop :: "chrono_api \<Rightarrow> int \<Rightarrow> bool" where
  "test_unfreeze_hard_deleted_noop C t0 = unwrap (FreezeManager_new C) (\<lambda>manager.
     let manager = trigger_freeze t0 manager; manager = manager\<lparr>fm_state := HardDeleted\<rparr>; manager = unfreeze manager
     in FreezeManager_state manager = HardDeleted)"

definition test_export_expiry_check_not_expired :: "chrono_api \<Rightarrow> int \<Rightarrow> int \<Rightarrow> int \<Rightarrow> bool" where
  "test_export_expiry_check_not_expired C t0 t1 t2 = unwrap (with_export_duration C 48) (\<lambda>manager.
     let manager = trigger_freeze t0 manager
     in unwrap (check_export_expiry C t1 manager) (\<lambda>(manager, expired). \<not> expired \<and>
        unwrap (remaining_export_seconds C t2 manager) (\<lambda>remaining. remaining > 0)))"

definition test_export_expiry_after_timeout :: "chrono_api \<Rightarrow> int \<Rightarrow> int \<Rightarrow> bool" where
  "test_export_expiry_after_timeout C t0 t1 = unwrap (with_export_duration C 0) (\<lambda>manager.
     let manager = trigger_freeze t0 manager
     in unwrap (check_export_expiry C t1 manager) (\<lambda>(manager, expired).
        expired \<and> FreezeManager_state manager = HardDeleted))"

definition test_remaining_seconds_active :: "chrono_api \<Rightarrow> int \<Rightarrow> bool" where
  "test_remaining_seconds_active C t0 = unwrap (FreezeManager_new C) (\<lambda>manager.
     unwrap (remaining_export_seconds C t0 manager) (\<lambda>remaining. remaining = 0))"

definition test_remaining_seconds_frozen :: "chrono_api \<Rightarrow> int \<Rightarrow> int \<Rightarrow> bool" where
  "test_remaining_seconds_frozen C t0 t1 = unwrap (with_export_duration C 48) (\<lambda>manager.
     let manager = trigger_freeze t0 manager
     in unwrap (remaining_export_seconds C t1 manager) (\<lambda>remaining.
        remaining > 47 * 3600 \<and> remaining \<le> 48 * 3600))"

definition test_state_display :: bool where
  "test_state_display \<longleftrightarrow> FreezeState_fmt Active = ''Active'' \<and> FreezeState_fmt FrozenExport = ''FrozenExport'' \<and>
     FreezeState_fmt HardDeleted = ''HardDeleted''"

lemmas freeze_test_defs = test_initial_state_active_def test_trigger_freeze_def test_double_freeze_noop_def
  test_unfreeze_def test_unfreeze_hard_deleted_noop_def test_remaining_seconds_active_def test_state_display_def
  test_export_expiry_check_not_expired_def test_export_expiry_after_timeout_def test_remaining_seconds_frozen_def

lemma freeze_tests:
  assumes "chrono_laws C"
  shows "test_initial_state_active C" "test_trigger_freeze C t0" "test_double_freeze_noop C t0 t1"
    "test_unfreeze C t0" "test_unfreeze_hard_deleted_noop C t0" "test_remaining_seconds_active C t0"
    "test_state_display"
  using assms
  by (simp_all add: freeze_test_defs FreezeManager_new_def chrono_hours Let_def freeze_defs
      FreezeManager_state_def FreezeManager_frozen_at_def remaining_export_seconds_def)

text \<open>
  The tests with a window: they pass when the clock does not go back and the steps of the test
  take less than an hour (less than the window of 48 hours).
\<close>

lemma freeze_window_tests:
  assumes "chrono_laws C" and "\<bar>t0\<bar> + 48 * ns_per_hour \<le> date_limit" and "t0 \<le> t1" and "t1 \<le> t2"
  shows "t2 < t0 + 47 * ns_per_hour \<Longrightarrow> test_export_expiry_check_not_expired C t0 t1 t2"
    and "test_export_expiry_after_timeout C t0 t1"
    and "t1 \<le> t0 + ns_per_hour - ns_per_s \<Longrightarrow> test_remaining_seconds_frozen C t0 t1"
proof -
  note units = ns_per_hour_def ns_per_s_def date_limit_def
  have lim: "\<bar>t0 + 48 * ns_per_hour\<bar> \<le> date_limit" "\<bar>t0\<bar> \<le> date_limit"
    using assms(2) unfolding units by linarith+
  note run = chrono_hours [OF assms(1)] chrono_add [OF assms(1)] chrono_num_seconds [OF assms(1)] Let_def freeze_defs
    FreezeManager_state_def remaining_export_seconds_def with_export_duration_def
  show "test_export_expiry_after_timeout C t0 t1"
    using assms(3) lim by (simp add: freeze_test_defs run)
  show "test_export_expiry_check_not_expired C t0 t1 t2" if "t2 < t0 + 47 * ns_per_hour"
  proof -
    have "0 < trunc_div (t0 + 48 * ns_per_hour - t2) ns_per_s"
      using that by (subst trunc_div_pos_iff) (simp_all add: units)
    with that assms(3,4) lim show ?thesis by (simp add: freeze_test_defs run)
  qed
  show "test_remaining_seconds_frozen C t0 t1" if "t1 \<le> t0 + ns_per_hour - ns_per_s"
  proof -
    have "t0 + 48 * ns_per_hour - t1 \<le> 48 * 3600 * ns_per_s" "(47 * 3600 + 1) * ns_per_s \<le> t0 + 48 * ns_per_hour - t1"
      using that assms(3) unfolding units by simp_all
    from this [THEN zdiv_mono1, of ns_per_s]
    have "(t0 + 48 * ns_per_hour - t1) div ns_per_s \<le> 48 * 3600" "47 * 3600 + 1 \<le> (t0 + 48 * ns_per_hour - t1) div ns_per_s"
      using time_units_pos(1) by (simp_all split: if_splits)
    moreover have "trunc_div (t0 + 48 * ns_per_hour - t1) ns_per_s = (t0 + 48 * ns_per_hour - t1) div ns_per_s"
      using that unfolding trunc_div_def units by simp
    ultimately show ?thesis using lim by (simp add: freeze_test_defs run)
  qed
qed

section \<open>account.rs\<close>

text \<open>The UUIDs \<open>u\<close> and the readings \<open>t\<close> of the clock, in the order in which a test draws them.\<close>

definition test_new_account_with_deposit ::
  "'d decimal_api \<Rightarrow> chrono_api \<Rightarrow> (nat \<Rightarrow> string) \<Rightarrow> (nat \<Rightarrow> int) \<Rightarrow> bool" where
  "test_new_account_with_deposit D C u t =
     unwrap (BillingAccount_new D C (u 0) (u 1) (t 0) (dlit D (10000 / 100))) (\<lambda>account.
       deq D (acc_balance account) (dlit D (10000 / 100)) \<and> can_store D account)"

definition test_deposit ::
  "'d decimal_api \<Rightarrow> chrono_api \<Rightarrow> (nat \<Rightarrow> string) \<Rightarrow> (nat \<Rightarrow> int) \<Rightarrow> bool" where
  "test_deposit D C u t =
     unwrap (BillingAccount_new D C (u 0) (u 1) (t 0) (dlit D (0 / 100))) (\<lambda>account.
     unwrap_mut (deposit D (u 2) (t 1) (dlit D (5000 / 100)) ''top up'' account) (\<lambda>account _.
       deq D (acc_balance account) (dlit D (5000 / 100))))"

definition test_charge_reduces_balance ::
  "'d decimal_api \<Rightarrow> chrono_api \<Rightarrow> (nat \<Rightarrow> string) \<Rightarrow> (nat \<Rightarrow> int) \<Rightarrow> bool" where
  "test_charge_reduces_balance D C u t =
     unwrap (BillingAccount_new D C (u 0) (u 1) (t 0) (dlit D (10000 / 100))) (\<lambda>account.
     unwrap_mut (charge D (u 2) (t 1) (t 2) (dlit D (3000 / 100)) ''hourly billing'' account) (\<lambda>account _.
       deq D (acc_balance account) (dlit D (7000 / 100))))"

definition test_charge_triggers_freeze ::
  "'d decimal_api \<Rightarrow> chrono_api \<Rightarrow> (nat \<Rightarrow> string) \<Rightarrow> (nat \<Rightarrow> int) \<Rightarrow> bool" where
  "test_charge_triggers_freeze D C u t =
     unwrap (BillingAccount_new D C (u 0) (u 1) (t 0) (dlit D (1000 / 100))) (\<lambda>account.
     unwrap_mut (charge D (u 2) (t 1) (t 2) (dlit D (1000 / 100)) ''billing'' account) (\<lambda>account _.
       freeze_state account = FrozenExport \<and> \<not> can_store D account \<and> can_download account))"

definition test_withdrawal_success ::
  "'d decimal_api \<Rightarrow> chrono_api \<Rightarrow> (nat \<Rightarrow> string) \<Rightarrow> (nat \<Rightarrow> int) \<Rightarrow> bool" where
  "test_withdrawal_success D C u t =
     unwrap (BillingAccount_new D C (u 0) (u 1) (t 0) (dlit D (20000 / 100))) (\<lambda>account.
     unwrap_mut (request_withdrawal D (u 2) (t 1) (dlit D (10000 / 100)) ''withdraw'' account) (\<lambda>account _.
       deq D (acc_balance account) (dlit D (10000 / 100))))"

definition test_withdrawal_below_minimum ::
  "'d decimal_api \<Rightarrow> chrono_api \<Rightarrow> (nat \<Rightarrow> string) \<Rightarrow> (nat \<Rightarrow> int) \<Rightarrow> bool" where
  "test_withdrawal_below_minimum D C u t =
     unwrap (BillingAccount_new D C (u 0) (u 1) (t 0) (dlit D (20000 / 100))) (\<lambda>account.
       is_err (snd (request_withdrawal D (u 2) (t 1) (dlit D (5000 / 100)) ''too small'' account)))"

definition test_withdrawal_insufficient_balance ::
  "'d decimal_api \<Rightarrow> chrono_api \<Rightarrow> (nat \<Rightarrow> string) \<Rightarrow> (nat \<Rightarrow> int) \<Rightarrow> bool" where
  "test_withdrawal_insufficient_balance D C u t =
     unwrap (BillingAccount_new D C (u 0) (u 1) (t 0) (dlit D (5000 / 100))) (\<lambda>account.
       is_err (snd (request_withdrawal D (u 2) (t 1) (dlit D (10000 / 100)) ''too much'' account)))"

definition test_deposit_negative_fails ::
  "'d decimal_api \<Rightarrow> chrono_api \<Rightarrow> (nat \<Rightarrow> string) \<Rightarrow> (nat \<Rightarrow> int) \<Rightarrow> bool" where
  "test_deposit_negative_fails D C u t =
     unwrap (BillingAccount_new D C (u 0) (u 1) (t 0) (dlit D (10000 / 100))) (\<lambda>account.
       is_err (snd (deposit D (u 2) (t 1) (dlit D (- 1000 / 100)) ''negative'' account)))"

definition test_transactions_recorded ::
  "'d decimal_api \<Rightarrow> chrono_api \<Rightarrow> (nat \<Rightarrow> string) \<Rightarrow> (nat \<Rightarrow> int) \<Rightarrow> bool" where
  "test_transactions_recorded D C u t =
     unwrap (BillingAccount_new D C (u 0) (u 1) (t 0) (dlit D (10000 / 100))) (\<lambda>account.
     unwrap_mut (deposit D (u 2) (t 1) (dlit D (5000 / 100)) ''top up'' account) (\<lambda>account _.
     unwrap_mut (charge D (u 3) (t 2) (t 3) (dlit D (1000 / 100)) ''billing'' account) (\<lambda>account _.
       length (acc_transactions account) = 3)))"

text \<open>What the operations do to the balance, the freeze state and the log, with exact amounts.\<close>

lemma deposit_test:
  assumes "decimal_laws D" and "0 < dval D x" and "representable (dval D (acc_balance a) + dval D x)"
    and "freeze_state a \<noteq> HardDeleted"
    and "\<And>b. dval D (acc_balance b) = dval D (acc_balance a) + dval D x \<Longrightarrow> freeze_state b = freeze_state a \<Longrightarrow>
      length (acc_transactions b) = Suc (length (acc_transactions a)) \<Longrightarrow> k b ()"
  shows "unwrap_mut (deposit D u t x d a) k"
proof -
  obtain c where "dadd D (acc_balance a) x = Some c" "dval D c = dval D (acc_balance a) + dval D x"
    by (rule dadd_exact [OF assms(1,3)])
  with assms(2,4) show ?thesis
    by (auto simp: deposit_def freeze_state_def record_transaction_def intro!: assms(5))
qed

lemma charge_test:
  assumes "decimal_laws D" and "0 < dval D x" and "representable (dval D (acc_balance a) - dval D x)"
    and "freeze_state a = Active"
    and "\<And>b. dval D (acc_balance b) = dval D (acc_balance a) - dval D x \<Longrightarrow>
      freeze_state b = (if dval D (acc_balance a) \<le> dval D x then FrozenExport else Active) \<Longrightarrow>
      length (acc_transactions b) = Suc (length (acc_transactions a)) \<Longrightarrow> k b ()"
  shows "unwrap_mut (charge D u t t2 x d a) k"
proof -
  obtain c where "dsub D (acc_balance a) x = Some c" "dval D c = dval D (acc_balance a) - dval D x"
    by (rule dsub_exact [OF assms(1,3)])
  with assms(2,4) show ?thesis
    by (auto simp: charge_def freeze_state_def record_transaction_def fz.trigger_active Let_def intro!: assms(5))
qed

lemma withdrawal_test:
  assumes "decimal_laws D" and "dval D (MIN_WITHDRAWAL D) \<le> dval D x" and "dval D x \<le> dval D (acc_balance a)"
    and "representable (dval D (acc_balance a) - dval D x)" and "freeze_state a = Active"
    and "\<And>b. dval D (acc_balance b) = dval D (acc_balance a) - dval D x \<Longrightarrow> k b ()"
  shows "unwrap_mut (request_withdrawal D u t x d a) k"
proof -
  obtain c where "dsub D (acc_balance a) x = Some c" "dval D c = dval D (acc_balance a) - dval D x"
    by (rule dsub_exact [OF assms(1,4)])
  with assms(2,3,5) show ?thesis
    by (auto simp: request_withdrawal_def freeze_state_def record_transaction_def intro!: assms(6))
qed

lemma new_account_test:
  assumes "decimal_laws D" and "chrono_laws C" and "0 \<le> dval D x" and "representable (dval D x)"
    and "\<And>a. dval D (acc_balance a) = dval D x \<Longrightarrow> freeze_state a = Active \<Longrightarrow>
      length (acc_transactions a) = (if 0 < dval D x then 1 else 0) \<Longrightarrow> k a"
  shows "unwrap (BillingAccount_new D C u v t x) k"
proof (cases "0 < dval D x")
  case True
  have zero: "dval D (dlit D 0) + dval D x = dval D x" using assms(1) by simp
  have "representable (dval D (dlit D 0) + dval D x)" unfolding zero by (rule assms(4))
  from dadd_exact [OF assms(1) this] obtain c where
    "dadd D (dlit D 0) x = Some c" "dval D c = dval D (dlit D 0) + dval D x" .
  with True assms(1,2) show ?thesis
    by (auto simp: BillingAccount_new_def FreezeManager_new_def chrono_hours Let_def deposit_def freeze_state_def
        FreezeManager_state_def record_transaction_def intro!: assms(5))
next
  case False
  with assms(1-3) show ?thesis
    by (auto simp: BillingAccount_new_def FreezeManager_new_def chrono_hours Let_def freeze_state_def
        FreezeManager_state_def intro!: assms(5))
qed

lemma account_tests:
  assumes "decimal_laws D" and "chrono_laws C"
  shows "test_new_account_with_deposit D C u t" "test_deposit D C u t" "test_charge_reduces_balance D C u t"
    "test_charge_triggers_freeze D C u t" "test_withdrawal_success D C u t" "test_withdrawal_below_minimum D C u t"
    "test_withdrawal_insufficient_balance D C u t" "test_deposit_negative_fails D C u t"
    "test_transactions_recorded D C u t"
proof -
  note vals = assms share_exact [OF assms(1)] deq_def dlit_exact four_places can_store_def can_download_def
    freeze_state_def [symmetric] deposit_def request_withdrawal_def
  note new = new_account_test [OF assms]
  note steps = deposit_test charge_test withdrawal_test
  show "test_new_account_with_deposit D C u t"
    unfolding test_new_account_with_deposit_def by (rule new) (simp_all add: vals)
  show "test_deposit D C u t"
    unfolding test_deposit_def by (rule new, simp_all add: vals(1-7)) (intro steps, simp_all add: vals(1-12))
  show "test_charge_reduces_balance D C u t"
    unfolding test_charge_reduces_balance_def
    by (rule new, simp_all add: vals(1-12)) (intro steps, simp_all add: vals(1-12))
  show "test_charge_triggers_freeze D C u t"
    unfolding test_charge_triggers_freeze_def
    by (rule new, simp_all add: vals(1-11)) (intro steps, simp_all add: vals)
  show "test_withdrawal_success D C u t"
    unfolding test_withdrawal_success_def
    by (rule new, simp_all add: vals(1-11)) (intro steps, simp_all add: vals(1-12))
  show "test_withdrawal_below_minimum D C u t"
    unfolding test_withdrawal_below_minimum_def by (rule new) (simp_all add: vals)
  show "test_withdrawal_insufficient_balance D C u t"
    unfolding test_withdrawal_insufficient_balance_def by (rule new) (simp_all add: vals)
  show "test_deposit_negative_fails D C u t"
    unfolding test_deposit_negative_fails_def by (rule new) (simp_all add: vals)
  show "test_transactions_recorded D C u t"
    unfolding test_transactions_recorded_def
    by (rule new, simp_all add: vals(1-11)) (intro steps, simp_all add: vals(1-12))
qed

section \<open>subscription.rs\<close>

definition test_default_tier_archive :: "'d decimal_api \<Rightarrow> int \<Rightarrow> bool" where
  "test_default_tier_archive D t0 =
     (let manager = SubscriptionManager_new t0
      in current_tier manager = Archive \<and> deq D (price_monthly D (current_tier manager)) (dlit D (0 / 100)))"

definition test_subscribe_standard :: "chrono_api \<Rightarrow> int \<Rightarrow> int \<Rightarrow> int \<Rightarrow> bool" where
  "test_subscribe_standard C t0 t1 t2 =
     (let manager = SubscriptionManager_new t0
      in unwrap (subscribe C t1 Standard manager) (\<lambda>(manager, _).
         current_tier manager = Standard \<and> sm_is_active t2 manager))"

definition test_subscribe_premium :: "chrono_api \<Rightarrow> int \<Rightarrow> int \<Rightarrow> bool" where
  "test_subscribe_premium C t0 t1 =
     (let manager = SubscriptionManager_new t0
      in unwrap (subscribe C t1 Premium manager) (\<lambda>(manager, _).
         current_tier manager = Premium \<and> tier_weight (current_tier manager) = 3))"

definition test_tier_prices :: "'d decimal_api \<Rightarrow> bool" where
  "test_tier_prices D \<longleftrightarrow>
     deq D (price_monthly D Archive) (dlit D (0 / 100)) \<and> deq D (price_monthly D Standard) (dlit D (19900 / 100)) \<and>
     deq D (price_monthly D Premium) (dlit D (49900 / 100))"

definition test_tier_weights :: bool where
  "test_tier_weights \<longleftrightarrow> tier_weight Archive = 1 \<and> tier_weight Standard = 2 \<and> tier_weight Premium = 3"

definition test_rate_limits :: bool where
  "test_rate_limits \<longleftrightarrow> upload_rate_limit Archive < upload_rate_limit Standard \<and> upload_rate_limit Premium = 0"

definition test_change_tier_same_tier_fails :: "'d decimal_api \<Rightarrow> chrono_api \<Rightarrow> int \<Rightarrow> int \<Rightarrow> int \<Rightarrow> int \<Rightarrow> bool" where
  "test_change_tier_same_tier_fails D C t0 t1 t2 t3 =
     (let manager = SubscriptionManager_new t0
      in unwrap (subscribe C t1 Standard manager) (\<lambda>(manager, _).
         is_err (change_tier D C t2 t3 Standard manager)))"

definition test_from_name :: bool where
  "test_from_name \<longleftrightarrow> tier_from_name ''archive'' = Archive \<and> tier_from_name ''standard'' = Standard \<and>
     tier_from_name ''premium'' = Premium \<and> tier_from_name ''unknown'' = Archive"

lemma tier_tests:
  assumes "decimal_laws D"
  shows "test_default_tier_archive D t0" "test_tier_prices D" "test_tier_weights" "test_rate_limits" "test_from_name"
  using assms
  by (simp_all add: test_default_tier_archive_def test_tier_prices_def test_tier_weights_def test_rate_limits_def
      test_from_name_def tier_from_name_def SubscriptionManager_new_def current_tier_def deq_def word_less_nat_alt)

lemma subscription_tests:
  assumes "chrono_laws C" and "\<bar>t1 + 30 * ns_per_day\<bar> \<le> date_limit"
  shows "t2 < t1 + 30 * ns_per_day \<Longrightarrow> test_subscribe_standard C t0 t1 t2" and "test_subscribe_premium C t0 t1"
    and "test_change_tier_same_tier_fails D C t0 t1 t2 t3"
  using assms
  by (simp_all add: test_subscribe_standard_def test_subscribe_premium_def test_change_tier_same_tier_fails_def
      subscribe_def chrono_days chrono_add current_tier_def sm_is_active_def sub_is_active_def change_tier_def)

end
