(* ===== verification/LedgerTests.thy ===== *)
theory LedgerTests
  imports UnitTest GossipSync
begin

text \<open>
  The tests of the ledger crate: ledger/src/*.rs.  \<open>test_init_schema\<close> of schema.rs, which counts
  the tables in SQLite's own catalogue, is left out: here the tables are the fields of a record.
\<close>

section \<open>schema.rs\<close>

definition setup_db :: LedgerDb where
  "setup_db = init_schema fresh_db"

definition test_insert_and_get_entry :: "string \<Rightarrow> bool" where
  "test_insert_and_get_entry now =
     unwrap_mut (insert_entry now ''tx1'' ''deposit'' ''acc1'' ''100.00'' ''100.00'' ''2024-01-01T00:00:00Z'' ''leaf_hash_1''
       setup_db) (\<lambda>conn seq. seq = 1 \<and> get_latest_seq conn = 1)"

definition schema_test_get_entries_from :: "'j json_api \<Rightarrow> string \<Rightarrow> bool" where
  "schema_test_get_entries_from J now =
     unwrap_mut (insert_entry now ''tx1'' ''deposit'' ''acc1'' ''100.00'' ''100.00'' ''2024-01-01T00:00:00Z'' ''leaf1''
       setup_db) (\<lambda>conn _.
     unwrap_mut (insert_entry now ''tx2'' ''charge'' ''acc1'' ''10.00'' ''90.00'' ''2024-01-01T01:00:00Z'' ''leaf2''
       conn) (\<lambda>conn _.
     unwrap_mut (insert_entry now ''tx3'' ''deposit'' ''acc1'' ''50.00'' ''140.00'' ''2024-01-01T02:00:00Z'' ''leaf3''
       conn) (\<lambda>conn _.
       let entries = get_entries_from J 1 10 conn in length entries = 2)))"

definition schema_test_mark_synced :: "'j json_api \<Rightarrow> string \<Rightarrow> bool" where
  "schema_test_mark_synced J now =
     unwrap_mut (insert_entry now ''tx1'' ''deposit'' ''acc1'' ''100.00'' ''100.00'' ''2024-01-01T00:00:00Z'' ''leaf1''
       setup_db) (\<lambda>conn _.
     unwrap_mut (insert_entry now ''tx2'' ''charge'' ''acc1'' ''10.00'' ''90.00'' ''2024-01-01T01:00:00Z'' ''leaf2''
       conn) (\<lambda>conn _.
       let unsynced = get_unsynced_entries J conn
       in length unsynced = 2 \<and>
         (let conn = schema_mark_synced 1 conn; unsynced = get_unsynced_entries J conn in length unsynced = 1)))"

definition test_merkle_root_storage :: "string \<Rightarrow> bool" where
  "test_merkle_root_storage now =
     unwrap_mut (store_merkle_root now 5 ''root_hash_abc'' 5 setup_db) (\<lambda>conn _.
       let latest = get_latest_merkle_root conn in latest = Some (5, ''root_hash_abc''))"

definition test_get_latest_seq_empty :: bool where
  "test_get_latest_seq_empty \<longleftrightarrow> get_latest_seq setup_db = 0"

definition test_schema_version :: bool where
  "test_schema_version = unwrap_some (hm_get (db_meta setup_db) ''schema_version'') (\<lambda>version. version = ''1'')"

lemmas table_defs = setup_db_def init_schema_def fresh_db_def insert_entry_def get_latest_seq_def
  get_entries_from_def select_from_def sql_limit_def get_unsynced_entries_def select_unsynced_def
  schema_mark_synced_def store_merkle_root_def get_latest_merkle_root_def Let_def

lemma schema_tests:
  "test_insert_and_get_entry now" "schema_test_get_entries_from J now" "schema_test_mark_synced J now"
  "test_merkle_root_storage now" "test_get_latest_seq_empty" "test_schema_version"
  by (simp_all add: test_insert_and_get_entry_def schema_test_get_entries_from_def schema_test_mark_synced_def
      test_merkle_root_storage_def test_get_latest_seq_empty_def test_schema_version_def table_defs
      insert_or_ignore_def hmap_simps)

section \<open>store.rs\<close>

text \<open>The UUIDs \<open>u\<close> in the order in which they are drawn; the clocks are \<open>now\<close> and SQLite's \<open>sql\<close>.\<close>

definition test_open_in_memory :: bool where
  "test_open_in_memory \<longleftrightarrow> latest_seq open_in_memory = 0"

definition test_record_entry :: "crypto \<Rightarrow> (nat \<Rightarrow> string) \<Rightarrow> (nat \<Rightarrow> string) \<Rightarrow> (nat \<Rightarrow> string) \<Rightarrow> bool" where
  "test_record_entry cr u now sql =
     unwrap_mut (record_entry cr (u 0) (now 0) (sql 0) ''deposit'' ''acc1'' ''100.00'' ''100.00'' open_in_memory)
       (\<lambda>store seq. seq = 1 \<and> latest_seq store = 1)"

definition test_multiple_entries :: "crypto \<Rightarrow> (nat \<Rightarrow> string) \<Rightarrow> (nat \<Rightarrow> string) \<Rightarrow> (nat \<Rightarrow> string) \<Rightarrow> bool" where
  "test_multiple_entries cr u now sql =
     unwrap_mut (record_entry cr (u 0) (now 0) (sql 0) ''deposit'' ''acc1'' ''100.00'' ''100.00'' open_in_memory) (\<lambda>store _.
     unwrap_mut (record_entry cr (u 1) (now 1) (sql 1) ''charge'' ''acc1'' ''10.00'' ''90.00'' store) (\<lambda>store _.
     unwrap_mut (record_entry cr (u 2) (now 2) (sql 2) ''deposit'' ''acc2'' ''50.00'' ''50.00'' store) (\<lambda>store _.
       latest_seq store = 3)))"

definition test_get_unsynced ::
  "crypto \<Rightarrow> 'j json_api \<Rightarrow> (nat \<Rightarrow> string) \<Rightarrow> (nat \<Rightarrow> string) \<Rightarrow> (nat \<Rightarrow> string) \<Rightarrow> bool" where
  "test_get_unsynced cr J u now sql =
     unwrap_mut (record_entry cr (u 0) (now 0) (sql 0) ''deposit'' ''acc1'' ''100.00'' ''100.00'' open_in_memory) (\<lambda>store _.
       let unsynced = get_unsynced J store in length unsynced = 1)"

definition test_mark_synced ::
  "crypto \<Rightarrow> 'j json_api \<Rightarrow> (nat \<Rightarrow> string) \<Rightarrow> (nat \<Rightarrow> string) \<Rightarrow> (nat \<Rightarrow> string) \<Rightarrow> bool" where
  "test_mark_synced cr J u now sql =
     unwrap_mut (record_entry cr (u 0) (now 0) (sql 0) ''deposit'' ''acc1'' ''100.00'' ''100.00'' open_in_memory) (\<lambda>store _.
       let store = mark_synced 1 store; unsynced = get_unsynced J store in length unsynced = 0)"

definition test_compute_merkle_root ::
  "crypto \<Rightarrow> 'j json_api \<Rightarrow> (nat \<Rightarrow> string) \<Rightarrow> (nat \<Rightarrow> string) \<Rightarrow> (nat \<Rightarrow> string) \<Rightarrow> bool" where
  "test_compute_merkle_root cr J u now sql =
     unwrap_mut (record_entry cr (u 0) (now 0) (sql 0) ''deposit'' ''acc1'' ''100.00'' ''100.00'' open_in_memory) (\<lambda>store _.
       let root = compute_merkle_root cr J store in root \<noteq> [])"

definition test_merkle_root_deterministic ::
  "crypto \<Rightarrow> 'j json_api \<Rightarrow> (nat \<Rightarrow> string) \<Rightarrow> (nat \<Rightarrow> string) \<Rightarrow> (nat \<Rightarrow> string) \<Rightarrow> bool" where
  "test_merkle_root_deterministic cr J u now sql =
     unwrap_mut (record_entry cr (u 0) (now 0) (sql 0) ''deposit'' ''acc1'' ''100.00'' ''100.00'' open_in_memory) (\<lambda>store1 _.
     unwrap_mut (record_entry cr (u 1) (now 1) (sql 1) ''deposit'' ''acc1'' ''100.00'' ''100.00'' open_in_memory) (\<lambda>store2 _.
       let root1 = compute_merkle_root cr J store1; root2 = compute_merkle_root cr J store2
       in root1 \<noteq> [] \<and> root2 \<noteq> []))"

definition test_get_entries_from ::
  "crypto \<Rightarrow> 'j json_api \<Rightarrow> (nat \<Rightarrow> string) \<Rightarrow> (nat \<Rightarrow> string) \<Rightarrow> (nat \<Rightarrow> string) \<Rightarrow> bool" where
  "test_get_entries_from cr J u now sql =
     unwrap_mut (record_entry cr (u 0) (now 0) (sql 0) ''deposit'' ''acc1'' ''100.00'' ''100.00'' open_in_memory) (\<lambda>store _.
     unwrap_mut (record_entry cr (u 1) (now 1) (sql 1) ''charge'' ''acc1'' ''10.00'' ''90.00'' store) (\<lambda>store _.
     unwrap_mut (record_entry cr (u 2) (now 2) (sql 2) ''deposit'' ''acc1'' ''50.00'' ''140.00'' store) (\<lambda>store _.
       let entries = store_get_entries_from J 1 store in length entries = 2)))"

lemmas store_defs = open_in_memory_def record_entry_def latest_seq_def get_unsynced_def mark_synced_def
  store_get_entries_from_def compute_merkle_root_def table_defs

text \<open>The hexadecimal digits of a root are 64, so it is not empty.\<close>

lemma hex_root_nonempty: "crypto_laws cr \<Longrightarrow> hex_encode cr (blake3 cr b) \<noteq> []"
  using hex_encode_length [of cr "blake3 cr b"] by auto

lemma store_tests:
  assumes "crypto_laws cr" and "distinct [u 0, u 1, u 2]"
  shows "test_open_in_memory" "test_record_entry cr u now sql" "test_multiple_entries cr u now sql"
    "test_get_unsynced cr J u now sql" "test_mark_synced cr J u now sql" "test_compute_merkle_root cr J u now sql"
    "test_merkle_root_deterministic cr J u now sql" "test_get_entries_from cr J u now sql"
  using assms(2)
  by (auto simp: test_open_in_memory_def test_record_entry_def test_multiple_entries_def test_get_unsynced_def
      test_mark_synced_def test_compute_merkle_root_def test_merkle_root_deterministic_def test_get_entries_from_def
      store_defs reduce_hashes.simps hex_root_nonempty [OF assms(1)])

section \<open>conflict.rs\<close>

definition entry_fields :: "int \<Rightarrow> string \<Rightarrow> string \<Rightarrow> (string \<times> json_field) list" where
  "entry_fields seq eid timestamp =
     [(''seq'', JInt seq), (''id'', JStr eid), (''entry_type'', JStr ''deposit''), (''account_id'', JStr ''acc1''),
      (''amount'', JStr ''100.00''), (''balance_after'', JStr ''100.00''), (''timestamp'', JStr timestamp),
      (''merkle_leaf'', JStr ''leaf'')]"

definition make_entry :: "'j json_api \<Rightarrow> int \<Rightarrow> string \<Rightarrow> string \<Rightarrow> 'j" where
  "make_entry J seq eid timestamp = j_object J (entry_fields seq eid timestamp)"

definition test_no_conflict_same_entries :: "'j json_api \<Rightarrow> bool" where
  "test_no_conflict_same_entries J =
     (let entry = make_entry J 1 ''tx1'' ''2024-01-01T00:00:00Z'';
          conflicts = detect_conflicts J [entry] [entry]
      in conflicts = [])"

definition test_detect_conflict_different_content :: "'j json_api \<Rightarrow> bool" where
  "test_detect_conflict_different_content J =
     (let local_entry = make_entry J 1 ''tx1'' ''2024-01-01T00:00:00Z'';
          remote = j_object J (AList.update ''amount'' (JStr ''200.00'') (entry_fields 1 ''tx1'' ''2024-01-01T01:00:00Z''));
          conflicts = detect_conflicts J [local_entry] [remote]
      in length conflicts = 1)"

definition test_resolve_by_timestamp :: "'j json_api \<Rightarrow> bool" where
  "test_resolve_by_timestamp J =
     (let local_entry = make_entry J 1 ''tx1'' ''2024-01-01T00:00:00Z'';
          remote = make_entry J 1 ''tx1'' ''2024-01-01T01:00:00Z'';
          conflict = LedgerConflict_new J local_entry remote
      in resolve_by_timestamp conflict)"

definition test_resolve_by_majority_remote_wins :: "'j json_api \<Rightarrow> bool" where
  "test_resolve_by_majority_remote_wins J =
     (let local_entry = make_entry J 1 ''tx1'' ''2024-01-01T00:00:00Z'';
          remote = make_entry J 1 ''tx1'' ''2024-01-01T01:00:00Z'';
          conflict = LedgerConflict_new J local_entry remote
      in resolve_by_majority 1 3 conflict)"

definition test_resolve_by_majority_local_wins :: "'j json_api \<Rightarrow> bool" where
  "test_resolve_by_majority_local_wins J =
     (let local_entry = make_entry J 1 ''tx1'' ''2024-01-01T00:00:00Z'';
          remote = make_entry J 1 ''tx1'' ''2024-01-01T01:00:00Z'';
          conflict = LedgerConflict_new J local_entry remote
      in \<not> resolve_by_majority 3 1 conflict)"

definition test_majority_tie_falls_back_to_timestamp :: "'j json_api \<Rightarrow> bool" where
  "test_majority_tie_falls_back_to_timestamp J =
     (let local_entry = make_entry J 1 ''tx1'' ''2024-01-01T00:00:00Z'';
          remote = make_entry J 1 ''tx1'' ''2024-01-01T01:00:00Z'';
          conflict = LedgerConflict_new J local_entry remote
      in resolve_by_majority 2 2 conflict)"

definition test_resolver_stats :: "'j json_api \<Rightarrow> bool" where
  "test_resolver_stats J =
     (let resolver = ConflictResolver_new;
          local_entry = make_entry J 1 ''tx1'' ''2024-01-01T00:00:00Z'';
          remote = make_entry J 1 ''tx1'' ''2024-01-01T01:00:00Z'';
          conflict = LedgerConflict_new J local_entry remote;
          (resolver, _) = conflict_resolve conflict 1 3 resolver;
          (resolver, _) = conflict_resolve conflict 3 1 resolver;
          (tot, local_wins, remote_wins) = resolver_stats resolver
      in tot = 2 \<and> local_wins = 1 \<and> remote_wins = 1)"

definition test_detect_multiple_conflicts :: "'j json_api \<Rightarrow> bool" where
  "test_detect_multiple_conflicts J =
     (let local1 = make_entry J 1 ''tx1'' ''2024-01-01T00:00:00Z'';
          remote1 = make_entry J 1 ''tx1'' ''2024-01-01T01:00:00Z'';
          local2 = make_entry J 2 ''tx2'' ''2024-01-01T00:00:00Z'';
          remote2 = make_entry J 2 ''tx2'' ''2024-01-01T02:00:00Z'';
          conflicts = detect_conflicts J [local1, local2] [remote1, remote2]
      in length conflicts = 2)"

lemma entry_accessors:
  assumes "json_laws J"
  shows "j_str J (make_entry J n i t) ''id'' = Some i" "entry_time J (make_entry J n i t) = t"
    "j_str J (j_object J (AList.update ''amount'' (JStr a) (entry_fields n i t))) ''id'' = Some i"
proof -
  let ?upd = "AList.update ''amount'' (JStr a) (entry_fields n i t)"
  have d: "distinct (map fst (entry_fields n i t))" "distinct (map fst ?upd)"
    by (simp_all add: entry_fields_def)
  have str: "distinct (map fst fs) \<Longrightarrow>
      j_str J (j_object J fs) k = (case map_of fs k of Some (JStr s) \<Rightarrow> Some s | _ \<Rightarrow> None)" for fs k
    using assms unfolding json_laws_def by blast
  show "j_str J (make_entry J n i t) ''id'' = Some i" "entry_time J (make_entry J n i t) = t"
    by (simp_all add: make_entry_def entry_time_def unwrap_or_def str [OF d(1)]) (simp_all add: entry_fields_def)
  show "j_str J (j_object J ?upd) ''id'' = Some i"
    unfolding str [OF d(2)] by (simp add: entry_fields_def)
qed

lemma majority_tests:
  assumes "json_laws J"
  shows "test_no_conflict_same_entries J" "test_resolve_by_timestamp J" "test_resolve_by_majority_remote_wins J"
    "test_resolve_by_majority_local_wins J" "test_majority_tie_falls_back_to_timestamp J" "test_resolver_stats J"
  by (simp_all add: test_no_conflict_same_entries_def test_resolve_by_timestamp_def
      test_resolve_by_majority_remote_wins_def test_resolve_by_majority_local_wins_def
      test_majority_tie_falls_back_to_timestamp_def test_resolver_stats_def Let_def resolve_by_timestamp_def
      resolve_by_majority_def conflict_resolve_def resolver_stats_def ConflictResolver_new_def detect_conflicts_def
      local_map_def entry_accessors [OF assms] hmap_simps word_less_nat_alt less_char_def)

text \<open>A conflict is seen when the texts of the two entries differ.\<close>

lemma detection_tests:
  assumes "json_laws J"
  shows "test_detect_conflict_different_content J \<longleftrightarrow>
      j_to_string J (make_entry J 1 ''tx1'' ''2024-01-01T00:00:00Z'') \<noteq>
      j_to_string J (j_object J (AList.update ''amount'' (JStr ''200.00'') (entry_fields 1 ''tx1'' ''2024-01-01T01:00:00Z'')))"
    and "test_detect_multiple_conflicts J \<longleftrightarrow>
      j_to_string J (make_entry J 1 ''tx1'' ''2024-01-01T00:00:00Z'') \<noteq>
        j_to_string J (make_entry J 1 ''tx1'' ''2024-01-01T01:00:00Z'') \<and>
      j_to_string J (make_entry J 2 ''tx2'' ''2024-01-01T00:00:00Z'') \<noteq>
        j_to_string J (make_entry J 2 ''tx2'' ''2024-01-01T02:00:00Z'')"
  by (simp_all add: test_detect_conflict_different_content_def test_detect_multiple_conflicts_def Let_def
      detect_conflicts_def local_map_def entry_accessors [OF assms] hmap_simps)

section \<open>gossip_sync.rs\<close>

definition test_create_sync_manager :: bool where
  "test_create_sync_manager = (let manager = LedgerSyncManager_new ''peer1'' in ls_local_peer_id manager = ''peer1'')"

definition test_update_local_state :: bool where
  "test_update_local_state =
     (let manager = LedgerSyncManager_new ''peer1''; manager = update_local_state ''root_abc'' 10 manager
      in ls_local_merkle_root manager = ''root_abc'' \<and> ls_local_latest_seq manager = 10)"

definition test_register_peer_state :: "int \<Rightarrow> bool" where
  "test_register_peer_state now =
     (let manager = LedgerSyncManager_new ''peer1''; manager = register_peer_state now ''peer2'' ''root_xyz'' 15 manager
      in hm_get (ls_peers manager) ''peer2'' \<noteq> None)"

definition test_needs_sync_different_roots :: "int \<Rightarrow> bool" where
  "test_needs_sync_different_roots now =
     (let manager = LedgerSyncManager_new ''peer1''; manager = update_local_state ''root_abc'' 10 manager;
          manager = register_peer_state now ''peer2'' ''root_xyz'' 15 manager
      in needs_sync ''peer2'' manager)"

definition test_no_sync_same_state :: "int \<Rightarrow> bool" where
  "test_no_sync_same_state now =
     (let manager = LedgerSyncManager_new ''peer1''; manager = update_local_state ''root_abc'' 10 manager;
          manager = register_peer_state now ''peer2'' ''root_abc'' 10 manager
      in \<not> needs_sync ''peer2'' manager)"

definition test_create_state_advert :: "'j json_api \<Rightarrow> bool" where
  "test_create_state_advert J =
     (let manager = LedgerSyncManager_new ''peer1''; manager = update_local_state ''root_abc'' 10 manager
      in case create_state_advert manager :: 'j SyncMessage of
           StateAdvert peer_id merkle_root n \<Rightarrow> peer_id = ''peer1'' \<and> merkle_root = ''root_abc'' \<and> n = 10
         | _ \<Rightarrow> False)"

definition test_process_entries_no_conflicts :: "'j json_api \<Rightarrow> bool" where
  "test_process_entries_no_conflicts J =
     (let manager = LedgerSyncManager_new ''peer1'';
          local_entries = [j_object J [(''id'', JStr ''tx1''), (''seq'', JInt 1), (''timestamp'', JStr ''2024-01-01T00:00:00Z'')]];
          remote_entries = [j_object J [(''id'', JStr ''tx2''), (''seq'', JInt 2), (''timestamp'', JStr ''2024-01-01T01:00:00Z'')]];
          manager = manager\<lparr>ls_pending_requests := hm_insert ''req1'' ''peer2'' (ls_pending_requests manager)\<rparr>;
          (manager, results) = process_entries J ''req1'' remote_entries local_entries manager
      in results = [])"

definition test_process_entries_with_conflicts :: "'j json_api \<Rightarrow> bool" where
  "test_process_entries_with_conflicts J =
     (let manager = LedgerSyncManager_new ''peer1'';
          local_entry = j_object J [(''id'', JStr ''tx1''), (''seq'', JInt 1),
            (''timestamp'', JStr ''2024-01-01T00:00:00Z''), (''amount'', JStr ''100'')];
          remote = j_object J [(''id'', JStr ''tx1''), (''seq'', JInt 1),
            (''timestamp'', JStr ''2024-01-01T01:00:00Z''), (''amount'', JStr ''200'')];
          manager = manager\<lparr>ls_pending_requests := hm_insert ''req1'' ''peer2'' (ls_pending_requests manager)\<rparr>;
          (manager, results) = process_entries J ''req1'' [remote] [local_entry] manager
      in length results = 1)"

lemma sync_state_tests:
  "test_create_sync_manager" "test_update_local_state" "test_register_peer_state now"
  "test_needs_sync_different_roots now" "test_no_sync_same_state now" "test_create_state_advert J"
  by (simp_all add: test_create_sync_manager_def test_update_local_state_def test_register_peer_state_def
      test_needs_sync_different_roots_def test_no_sync_same_state_def test_create_state_advert_def Let_def
      LedgerSyncManager_new_def update_local_state_def register_peer_state_def needs_sync_def
      create_state_advert_def hmap_simps)

lemma process_entries_tests:
  assumes "json_laws J"
  shows "test_process_entries_no_conflicts J"
    and "test_process_entries_with_conflicts J \<longleftrightarrow>
      j_to_string J (j_object J [(''id'', JStr ''tx1''), (''seq'', JInt 1),
        (''timestamp'', JStr ''2024-01-01T00:00:00Z''), (''amount'', JStr ''100'')]) \<noteq>
      j_to_string J (j_object J [(''id'', JStr ''tx1''), (''seq'', JInt 1),
        (''timestamp'', JStr ''2024-01-01T01:00:00Z''), (''amount'', JStr ''200'')])" (is ?differ)
proof -
  have str: "distinct (map fst fs) \<Longrightarrow>
      j_str J (j_object J fs) k = (case map_of fs k of Some (JStr s) \<Rightarrow> Some s | _ \<Rightarrow> None)" for fs k
    using assms unfolding json_laws_def by blast
  show "test_process_entries_no_conflicts J"
    by (simp add: test_process_entries_no_conflicts_def Let_def process_entries_def hmap_simps
        detect_conflicts_def local_map_def str)
  show ?differ
    by (simp add: test_process_entries_with_conflicts_def Let_def process_entries_def hmap_simps
        detect_conflicts_def local_map_def str case_prod_unfold)
qed

end
