(* ===== verification/P2pTests.thy ===== *)
theory P2pTests
  imports UnitTest Node Gossip
begin

text \<open>
  The tests of the p2p crate: p2p/src/*.rs.  libp2p, the clocks and the random source are
  arguments.  Two tests of challenge.rs give \<open>StorageProof::root\<close> a hash where the type has a
  string; they do not compile and are left out.
\<close>

section \<open>heartbeat.rs\<close>

definition test_create_heartbeat_message :: "int \<Rightarrow> bool" where
  "test_create_heartbeat_message now_secs =
     (let manager = HeartbeatManager_new ''node1'' HeartbeatConfig_default;
          msg = create_heartbeat now_secs manager
      in case msg of Heartbeat node_id _ _ \<Rightarrow> node_id = ''node1'' | _ \<Rightarrow> False)"

definition test_process_heartbeat_new_peer :: "nat \<Rightarrow> nat \<Rightarrow> bool" where
  "test_process_heartbeat_new_peer t t' =
     (let manager = HeartbeatManager_new ''node1'' HeartbeatConfig_default;
          (manager, event) = process_heartbeat t t' ''node2'' 1000 1024 manager
      in event = PeerAlive ''node2'' \<and> alive_count manager = 1)"

text \<open>
  \<open>Instant::now() - Duration::from_secs(n)\<close> panics before the first instant; \<open>set_last_seen\<close> is
  the block that moves the last heartbeat of a peer back by \<open>n\<close> seconds.
\<close>

definition set_last_seen :: "nat \<Rightarrow> nat \<Rightarrow> string \<Rightarrow> HeartbeatManager \<Rightarrow> (HeartbeatManager \<Rightarrow> bool) \<Rightarrow> bool" where
  "set_last_seen now n node m k =
     unwrap_some (hm_get (hb_peers m) node) (\<lambda>peer.
       n * 1000000000 \<le> now \<and>
       k (m\<lparr>hb_peers := hm_insert node (peer\<lparr>pe_last_seen := now - n * 1000000000\<rparr>) (hb_peers m)\<rparr>))"

definition test_peer_status_transitions :: "nat \<Rightarrow> nat \<Rightarrow> nat \<Rightarrow> nat \<Rightarrow> nat \<Rightarrow> nat \<Rightarrow> bool" where
  "test_peer_status_transitions t t' n1 t1 n2 t2 =
     (let manager = HeartbeatManager_new ''node1''
            \<lparr>hc_interval_secs = 1, hc_max_missed = 2, hc_suspect_threshold = 1\<rparr>;
          (manager, _) = process_heartbeat t t' ''node2'' 1000 1024 manager
      in unwrap_some (hm_get (hb_peers manager) ''node2'') (\<lambda>peer. pe_status peer = Alive) \<and>
         set_last_seen n1 5 ''node2'' manager (\<lambda>manager.
           let (manager, events) = tick t1 manager in
           (\<exists>e \<in> set events. e = PeerSuspect ''node2'') \<and>
           set_last_seen n2 15 ''node2'' manager (\<lambda>manager.
             let (manager, events) = tick t2 manager in
             \<exists>e \<in> set events. e = PeerDied ''node2'')))"

definition test_peer_recovery :: "nat \<Rightarrow> nat \<Rightarrow> nat \<Rightarrow> nat \<Rightarrow> bool" where
  "test_peer_recovery t t' t1 t1' =
     (let manager = HeartbeatManager_new ''node1'' HeartbeatConfig_default;
          (manager, _) = process_heartbeat t t' ''node2'' 1000 1024 manager
      in unwrap_some (hm_get (hb_peers manager) ''node2'') (\<lambda>peer.
           let manager = manager\<lparr>hb_peers := hm_insert ''node2'' (peer\<lparr>pe_status := Dead\<rparr>) (hb_peers manager)\<rparr>;
               (manager, event) = process_heartbeat t1 t1' ''node2'' 2000 2048 manager
           in event = PeerRecovered ''node2'' \<and>
              unwrap_some (hm_get (hb_peers manager) ''node2'') (\<lambda>peer. pe_status peer = Alive)))"

definition test_register_peer :: "nat \<Rightarrow> bool" where
  "test_register_peer t =
     (let manager = HeartbeatManager_new ''node1'' HeartbeatConfig_default;
          manager = register_peer t ''node2'' manager
      in hm_get (hb_peers manager) ''node2'' \<noteq> None)"

definition test_set_available_space :: bool where
  "test_set_available_space =
     (let manager = HeartbeatManager_new ''node1'' HeartbeatConfig_default;
          manager = set_available_space (1024 * 1024 * 1024) manager
      in hb_available_space manager = 1024 * 1024 * 1024)"

lemmas heartbeat_defs = HeartbeatManager_new_def HeartbeatConfig_default_def create_heartbeat_def
  process_heartbeat_def or_insert_def PeerState_new_def heartbeat_status.simps alive_count_def
  register_peer_def set_available_space_def hm_values_def hm_get_def hm_insert_def hm_empty_def Let_def

lemma heartbeat_tests:
  "test_create_heartbeat_message now_secs" "test_process_heartbeat_new_peer t t'"
  "test_peer_recovery t t' t1 t1'" "test_register_peer t" "test_set_available_space"
  by (simp_all add: test_create_heartbeat_message_def test_process_heartbeat_new_peer_def
      test_peer_recovery_def test_register_peer_def test_set_available_space_def heartbeat_defs)

text \<open>
  The test of the transitions passes on a clock that does not run backwards, once the machine
  has been up for fifteen seconds.
\<close>

lemma heartbeat_transitions_test:
  assumes "5000000000 \<le> n1" "n1 \<le> t1" "15000000000 \<le> n2" "n2 \<le> t2"
  shows "test_peer_status_transitions t t' n1 t1 n2 t2"
proof -
  have "1000000000 < t1 - (n1 - 5000000000)" "1000000000 < t2 - (n2 - 15000000000)"
    using assms by linarith+
  with assms show ?thesis
    by (simp add: test_peer_status_transitions_def set_last_seen_def tick_def tick_peer_def heartbeat_defs
        word_le_nat_alt)
qed

section \<open>gossip.rs\<close>

definition test_gossip_queue_priority_ordering :: "crypto \<Rightarrow> int \<Rightarrow> int \<Rightarrow> bool" where
  "test_gossip_queue_priority_ordering cr s1 s2 =
     (let queue = GossipQueue_new 100 in
      unwrap_mut (enqueue s1 Low ''p1'' (NodeJoin ''n1'' ''p1'' 100) queue) (\<lambda>queue _.
      unwrap_mut (enqueue s2 Critical ''p2''
          (ReplicationRequest (ChunkId_new cr (as_bytes ''test'')) [0]) queue) (\<lambda>queue _.
        unwrap_some (snd (dequeue queue)) (\<lambda>first.
          case gm_message first of ReplicationRequest _ _ \<Rightarrow> True | _ \<Rightarrow> False))))"

definition test_gossip_queue_fifo_same_priority :: "int \<Rightarrow> int \<Rightarrow> bool" where
  "test_gossip_queue_fifo_same_priority s1 s2 =
     (let queue = GossipQueue_new 100 in
      unwrap_mut (enqueue s1 Normal ''p1'' (NodeJoin ''n1'' ''p1'' 100) queue) (\<lambda>queue _.
      unwrap_mut (enqueue s2 Normal ''p2'' (NodeJoin ''n2'' ''p2'' 200) queue) (\<lambda>queue _.
        unwrap_some (snd (dequeue queue)) (\<lambda>first. gm_sender_peer_id first = ''p1''))))"

definition test_gossip_queue_full :: "int \<Rightarrow> int \<Rightarrow> int \<Rightarrow> bool" where
  "test_gossip_queue_full s1 s2 s3 =
     (let queue = GossipQueue_new 2 in
      unwrap_mut (enqueue s1 Normal ''p1'' (NodeJoin ''n1'' ''p1'' 100) queue) (\<lambda>queue _.
      unwrap_mut (enqueue s2 Normal ''p2'' (NodeJoin ''n2'' ''p2'' 200) queue) (\<lambda>queue _.
        is_err (snd (enqueue s3 Normal ''p3'' (NodeJoin ''n3'' ''p3'' 300) queue)))))"

definition test_seen_messages_dedup :: bool where
  "test_seen_messages_dedup =
     (let seen = SeenMessages_new 100;
          (seen, r1) = check_and_mark 1 seen; (seen, r2) = check_and_mark 1 seen;
          (seen, r3) = check_and_mark 2 seen
      in r1 \<and> \<not> r2 \<and> r3 \<and> seen_contains 1 seen \<and> seen_contains 2 seen \<and> \<not> seen_contains 3 seen)"

definition test_message_priority_by_tier :: "crypto \<Rightarrow> bool" where
  "test_message_priority_by_tier cr =
     (let msg = ReplicationRequest (ChunkId_new cr (as_bytes ''test'')) [0];
          weight_free = subscription_weight_from_tier ''archive'';
          weight_premium = subscription_weight_from_tier ''premium'';
          priority_free = get_message_priority msg weight_free;
          priority_premium = get_message_priority msg weight_premium
      in priority_premium > priority_free)"

definition test_subscription_weight :: bool where
  "test_subscription_weight \<longleftrightarrow>
     subscription_weight_from_tier ''premium'' = 3 \<and> subscription_weight_from_tier ''standard'' = 2 \<and>
     subscription_weight_from_tier ''archive'' = 1"

lemmas gossip_defs = GossipQueue_new_def enqueue_def dequeue_def SeenMessages_new_def check_and_mark_def
  seen_contains_def subscription_weight_from_tier_def less_MessagePriority_def hm_values_def hm_get_def
  hm_insert_def hm_empty_def Let_def

lemma gossip_tests:
  "test_gossip_queue_priority_ordering cr s1 s2" "test_gossip_queue_fifo_same_priority s1 s2"
  "test_gossip_queue_full s1 s2 s3" "test_seen_messages_dedup" "test_message_priority_by_tier cr"
  "test_subscription_weight"
  by (simp_all add: test_gossip_queue_priority_ordering_def test_gossip_queue_fifo_same_priority_def
      test_gossip_queue_full_def test_seen_messages_dedup_def test_message_priority_by_tier_def
      test_subscription_weight_def gossip_defs word_le_nat_alt)

section \<open>node.rs\<close>

definition test_create_node :: "identity_api \<Rightarrow> (nat \<Rightarrow> bytes) \<Rightarrow> bool" where
  "test_create_node I rng =
     (let config = P2pConfig_default in
      unwrap (P2pNode_new I rng config) (\<lambda>node. peer_id_str I node \<noteq> []))"

definition test_send_gossip :: "identity_api \<Rightarrow> (nat \<Rightarrow> bytes) \<Rightarrow> int \<Rightarrow> bool" where
  "test_send_gossip I rng now_secs =
     (let config = P2pConfig_default in
      unwrap (P2pNode_new I rng config) (\<lambda>node.
        let msg = NodeJoin ''test_node'' (peer_id_str I node) 1024;
            (node, result) = send_gossip I now_secs TopicNodeInfo msg node
        in is_ok result))"

definition test_initialize :: "identity_api \<Rightarrow> (nat \<Rightarrow> bytes) \<Rightarrow> bool" where
  "test_initialize I rng =
     (let config = P2pConfig_default in
      unwrap (P2pNode_new I rng config) (\<lambda>node.
        unwrap_mut (node_initialize node) (\<lambda>node _. is_fully_initialized (nd_behaviour node))))"

definition test_update_available_space :: "identity_api \<Rightarrow> (nat \<Rightarrow> bytes) \<Rightarrow> bool" where
  "test_update_available_space I rng =
     (let config = P2pConfig_default in
      unwrap (P2pNode_new I rng config) (\<lambda>node.
        let node = update_available_space (1024 * 1024) node
        in hb_available_space (nd_heartbeat node) = 1024 * 1024))"

lemma node_tests:
  "test_send_gossip I rng now_secs" "test_initialize I rng" "test_update_available_space I rng"
  by (simp_all add: test_send_gossip_def test_initialize_def test_update_available_space_def
      P2pNode_new_def send_gossip_def node_initialize_def update_available_space_def set_available_space_def
      VaultKeeperBehaviour_new_def mark_kademlia_ready_def mark_gossip_ready_def mark_heartbeat_active_def
      is_fully_initialized_def gossip_defs)

lemma create_node_test: "test_create_node I rng \<longleftrightarrow> fresh_name I rng \<noteq> []"
  by (simp add: test_create_node_def P2pNode_new_def peer_id_str_def fresh_name_def generate_identity_def Let_def)

section \<open>behaviour.rs\<close>

definition test_behaviour_default :: bool where
  "test_behaviour_default =
     (let behaviour = VaultKeeperBehaviour_new in \<not> is_fully_initialized behaviour)"

definition test_behaviour_full_init :: bool where
  "test_behaviour_full_init =
     (let behaviour = VaultKeeperBehaviour_new; behaviour = mark_kademlia_ready behaviour;
          behaviour = mark_gossip_ready behaviour; behaviour = mark_heartbeat_active behaviour
      in is_fully_initialized behaviour)"

definition test_generate_identity :: "identity_api \<Rightarrow> (nat \<Rightarrow> bytes) \<Rightarrow> bool" where
  "test_generate_identity I rng =
     (let keypair = generate_identity I rng; peer_id = id_peer_id I keypair
      in id_to_string I peer_id \<noteq> [])"

definition test_build_transport ::
  "identity_api \<Rightarrow> ('n, 't) transport_api \<Rightarrow> (nat \<Rightarrow> bytes) \<Rightarrow> bool" where
  "test_build_transport I T rng =
     (let keypair = generate_identity I rng; result = build_transport T keypair in is_ok result)"

lemma behaviour_tests: "test_behaviour_default" "test_behaviour_full_init"
  by (simp_all add: test_behaviour_default_def test_behaviour_full_init_def VaultKeeperBehaviour_new_def
      mark_kademlia_ready_def mark_gossip_ready_def mark_heartbeat_active_def is_fully_initialized_def Let_def)

text \<open>The identity has a text, and the transport is built, when libp2p gives them.\<close>

lemma identity_tests:
  "test_generate_identity I rng \<longleftrightarrow> fresh_name I rng \<noteq> []"
  "test_build_transport I T rng \<longleftrightarrow> is_ok (tr_noise T (id_generate I rng))"
  by (auto simp: test_generate_identity_def test_build_transport_def fresh_name_def generate_identity_def
      build_transport_def Let_def is_ok_def try_then_def split: sum.splits)

section \<open>challenge.rs\<close>

definition challenge_test_generate_challenge ::
  "crypto \<Rightarrow> (u64 list \<Rightarrow> nat \<Rightarrow> u64 list) \<Rightarrow> bytes \<Rightarrow> u64 \<Rightarrow> bool" where
  "challenge_test_generate_challenge cr pick nonce now =
     (let chunk_id = ChunkId_new cr (as_bytes ''test_data_for_challenge'');
          challenge = challenge_generate pick nonce now chunk_id 100 5
      in sc_chunk_id challenge = chunk_id \<and> length (sc_leaf_indices challenge) = 5)"

lemma challenge_test:
  assumes "pick_laws pick"
  shows "challenge_test_generate_challenge cr pick nonce now"
  using generate_challenge_indices(1,2) [OF assms, of 100]
  by (simp add: challenge_test_generate_challenge_def challenge_generate_def Let_def)

section \<open>discovery.rs\<close>

definition test_create_kademlia :: "('k, 'a) dht_api \<Rightarrow> peer_id \<Rightarrow> bool" where
  "test_create_kademlia N random_peer =
     (let peer_id = random_peer; result = create_kademlia N peer_id ''/test/1.0.0'' in is_ok result)"

definition test_create_kademlia_custom_protocol :: "('k, 'a) dht_api \<Rightarrow> peer_id \<Rightarrow> bool" where
  "test_create_kademlia_custom_protocol N random_peer =
     (let peer_id = random_peer; result = create_kademlia N peer_id ''/vaultkeeper/dht/1.0.0'' in is_ok result)"

definition test_add_bootstrap_nodes_invalid :: "('k, 'a) dht_api \<Rightarrow> peer_id \<Rightarrow> bool" where
  "test_add_bootstrap_nodes_invalid N random_peer =
     (let peer_id = random_peer in
      unwrap (create_kademlia N peer_id ''/test/1.0.0'') (\<lambda>kad.
        let (kad, result) = add_bootstrap_nodes N [''/invalid-address''] kad in is_ok result))"

definition test_bootstrap :: "('k, 'a) dht_api \<Rightarrow> peer_id \<Rightarrow> bool" where
  "test_bootstrap N random_peer =
     (let peer_id = random_peer in
      unwrap (create_kademlia N peer_id ''/test/1.0.0'') (\<lambda>kad.
        let kad = dht_bootstrap N kad in True))"

lemma discovery_tests:
  assumes "dht_laws N"
  shows "test_create_kademlia N p" "test_create_kademlia_custom_protocol N p" "test_bootstrap N p"
  using assms
  by (simp_all add: test_create_kademlia_def test_create_kademlia_custom_protocol_def test_bootstrap_def
      create_kademlia_def dht_laws_def)

text \<open>An address that does not parse is an error, where the test wants it skipped.\<close>

lemma invalid_bootstrap_test:
  assumes "dht_laws N"
  shows "test_add_bootstrap_nodes_invalid N p \<longleftrightarrow> d_parse N ''/invalid-address'' \<noteq> None"
  using assms
  by (auto simp: test_add_bootstrap_nodes_invalid_def create_kademlia_def dht_laws_def add_bootstrap_nodes_def
      split: option.split)

end
