(* ===== verification/StorageTests.thy ===== *)
theory StorageTests
  imports UnitTest Replication ShardProofs Host
begin

unbundle bit_operations_syntax

text \<open>
  The tests of the storage crate: storage/src/*.rs.  \<open>test_total_size\<close> of shard_store.rs depends
  on the length of the metadata text and is left out.
\<close>

section \<open>replication.rs\<close>

definition test_replication_state_new :: bool where
  "test_replication_state_new =
     (let state = ReplicationState_new ''chunk1'' 3 in \<not> rp_is_complete state \<and> rp_target_replicas state = 3)"

definition test_replication_complete :: bool where
  "test_replication_complete =
     (let state = ReplicationState_new ''chunk1'' 3; state = add_replica ''peer1'' 1 state;
          state = add_replica ''peer2'' 1 state; state = add_replica ''peer3'' 1 state
      in rp_is_complete state)"

definition test_replication_peer_death :: bool where
  "test_replication_peer_death =
     (let state = ReplicationState_new ''chunk1'' 3; state = add_replica ''peer1'' 1 state;
          state = add_replica ''peer2'' 1 state; state = add_replica ''peer3'' 1 state
      in rp_is_complete state \<and> (let (state, _) = remove_peer ''peer2'' state in \<not> rp_is_complete state))"

definition test_replication_manager_register :: bool where
  "test_replication_manager_register =
     (let manager = ReplicationManager_new 3; manager = register_chunk ''chunk1'' manager
      in \<not> is_replicated ''chunk1'' manager)"

definition test_replication_manager_complete :: bool where
  "test_replication_manager_complete =
     (let manager = ReplicationManager_new 3; manager = register_chunk ''chunk1'' manager;
          manager = record_peer_shards ''chunk1'' ''peer1'' 1 manager;
          manager = record_peer_shards ''chunk1'' ''peer2'' 1 manager;
          manager = record_peer_shards ''chunk1'' ''peer3'' 1 manager
      in is_replicated ''chunk1'' manager)"

definition test_replication_manager_peer_death :: bool where
  "test_replication_manager_peer_death =
     (let manager = ReplicationManager_new 3; manager = register_chunk ''chunk1'' manager;
          manager = record_peer_shards ''chunk1'' ''peer1'' 1 manager;
          manager = record_peer_shards ''chunk1'' ''peer2'' 1 manager;
          manager = record_peer_shards ''chunk1'' ''peer3'' 1 manager;
          (manager, needs_repair) = handle_peer_death ''peer2'' manager
      in needs_repair \<noteq> [] \<and> \<not> is_replicated ''chunk1'' manager)"

definition test_needing_replication :: bool where
  "test_needing_replication =
     (let manager = ReplicationManager_new 3; manager = register_chunk ''chunk1'' manager;
          manager = register_chunk ''chunk2'' manager;
          manager = record_peer_shards ''chunk1'' ''peer1'' 3 manager;
          manager = record_peer_shards ''chunk2'' ''peer1'' 1 manager;
          needing = chunks_needing_replication manager
      in length needing = 1)"

definition test_unregister_chunk :: bool where
  "test_unregister_chunk =
     (let manager = ReplicationManager_new 3; manager = register_chunk ''chunk1'' manager;
          manager = unregister_chunk ''chunk1'' manager
      in \<not> is_replicated ''chunk1'' manager)"

lemmas replication_defs = ReplicationState_new_def add_replica_def remove_peer_def check_replication_def
  ReplicationManager_new_def register_chunk_def record_peer_shards_def handle_peer_death_def
  chunks_needing_replication_def is_replicated_def unregister_chunk_def Let_def hm_values_def
  hm_insert_def hm_get_def hm_remove_def hm_empty_def word_le_nat_alt

lemma replication_tests:
  "test_replication_state_new" "test_replication_complete" "test_replication_peer_death"
  "test_replication_manager_register" "test_replication_manager_complete" "test_replication_manager_peer_death"
  "test_needing_replication" "test_unregister_chunk"
  by (simp_all add: test_replication_state_new_def test_replication_complete_def test_replication_peer_death_def
      test_replication_manager_register_def test_replication_manager_complete_def
      test_replication_manager_peer_death_def test_needing_replication_def test_unregister_chunk_def replication_defs)

section \<open>disk.rs\<close>

text \<open>
  The literals 0.7 and 0.001 are rounded like every \<open>f64\<close>; the difference is 0, so subtracting
  does not round.
\<close>

definition test_disk_utilization :: bool where
  "test_disk_utilization =
     (let info = \<lparr>di_path = ''/test'', di_disk_type = HostSsd, di_total_bytes = 1000, di_available_bytes = 300,
                  di_used_bytes = 700\<rparr>
      in \<bar>utilization info - f64_round (7 / 10)\<bar> < f64_round (1 / 1000))"

definition test_disk_has_space :: bool where
  "test_disk_has_space =
     (let info = \<lparr>di_path = ''/test'', di_disk_type = HostHdd, di_total_bytes = 1000, di_available_bytes = 500,
                  di_used_bytes = 500\<rparr>
      in has_space 500 info \<and> \<not> has_space 501 info)"

definition test_disk_manager_new :: bool where
  "test_disk_manager_new = (let manager = DiskManager_new in list_disks manager = [])"

definition test_disk_manager_add_path :: "(string \<Rightarrow> bool) \<Rightarrow> bool" where
  "test_disk_manager_add_path path_exists =
     (let manager = DiskManager_new; (manager, res) = add_storage_path path_exists ''/tmp'' manager
      in if is_ok res then list_disks manager \<noteq> [] else True)"

definition test_disk_type_multipliers :: bool where
  "test_disk_type_multipliers \<longleftrightarrow> HostDiskType_multiplier HostHdd = 1 \<and>
     HostDiskType_multiplier HostSsd = 15 / 10 \<and> HostDiskType_multiplier HostNvme = 2"

definition test_total_available :: bool where
  "test_total_available =
     (let manager = DiskManager_new;
          manager = manager\<lparr>dm_storage_paths := dm_storage_paths manager @
            [\<lparr>di_path = ''/a'', di_disk_type = HostHdd, di_total_bytes = 1000, di_available_bytes = 400,
              di_used_bytes = 600\<rparr>]\<rparr>;
          manager = manager\<lparr>dm_storage_paths := dm_storage_paths manager @
            [\<lparr>di_path = ''/b'', di_disk_type = HostSsd, di_total_bytes = 2000, di_available_bytes = 1000,
              di_used_bytes = 1000\<rparr>]\<rparr>
      in total_available manager = 1400)"

lemma disk_tests:
  "test_disk_has_space" "test_disk_manager_new" "test_disk_manager_add_path path_exists"
  "test_disk_type_multipliers" "test_total_available"
  by (simp_all add: test_disk_has_space_def test_disk_manager_new_def test_disk_manager_add_path_def
      test_disk_type_multipliers_def test_total_available_def Let_def has_space_def DiskManager_new_def
      list_disks_def add_storage_path_def total_available_def word_le_nat_alt split: sum.split)

lemma disk_utilization_passes: "test_disk_utilization"
proof -
  have "f64_of_u64 700 = 700" "f64_of_u64 1000 = 1000"
    using f64_of_small [of 700] f64_of_small [of 1000] by simp_all
  then show ?thesis
    by (simp add: test_disk_utilization_def utilization_def f64_div_def f64_round_pos)
qed

section \<open>sandbox.rs\<close>

definition test_platform_sandbox_type :: "bool \<Rightarrow> bool" where
  "test_platform_sandbox_type linux =
     (let st = platform_sandbox_type linux in (if linux then st = SeccompCgroups else st = Wasm))"

definition test_create_sandbox :: "bool \<Rightarrow> bool" where
  "test_create_sandbox linux =
     (let config = SandboxConfig_default
      in unwrap (Sandbox_new linux config) (\<lambda>sandbox. \<not> sandbox_is_active sandbox))"

definition test_activate_sandbox :: "bool \<Rightarrow> bool" where
  "test_activate_sandbox linux =
     (let config = SandboxConfig_default
      in unwrap (Sandbox_new linux config) (\<lambda>sandbox. unwrap_mut (activate sandbox) (\<lambda>sandbox _. sandbox_is_active sandbox)))"

definition test_network_blocked :: "bool \<Rightarrow> bool" where
  "test_network_blocked linux =
     (let config = SandboxConfig_default in unwrap (Sandbox_new linux config) (\<lambda>sandbox. is_network_blocked sandbox))"

definition test_exec_blocked :: "bool \<Rightarrow> bool" where
  "test_exec_blocked linux =
     (let config = SandboxConfig_default in unwrap (Sandbox_new linux config) (\<lambda>sandbox. is_exec_blocked sandbox))"

definition test_network_allowed_config :: "bool \<Rightarrow> bool" where
  "test_network_allowed_config linux =
     (let config = SandboxConfig_default\<lparr>sb_allow_network := True\<rparr>
      in unwrap (Sandbox_new linux config) (\<lambda>sandbox. \<not> is_network_blocked sandbox))"

definition test_seccomp_config_blocks_dangerous_syscalls :: bool where
  "test_seccomp_config_blocks_dangerous_syscalls =
     (let config = SeccompConfig_default
      in ''fork'' \<in> set (se_blocked_syscalls config) \<and> ''execve'' \<in> set (se_blocked_syscalls config) \<and>
         ''socket'' \<in> set (se_blocked_syscalls config) \<and> ''connect'' \<in> set (se_blocked_syscalls config))"

definition test_seccomp_config_allows_io :: bool where
  "test_seccomp_config_allows_io =
     (let config = SeccompConfig_default
      in ''read'' \<in> set (se_allowed_syscalls config) \<and> ''write'' \<in> set (se_allowed_syscalls config) \<and>
         ''openat'' \<in> set (se_allowed_syscalls config))"

definition test_verify_host_isolation :: "bool \<Rightarrow> bool" where
  "test_verify_host_isolation linux = (let res = verify_host_isolation linux in res)"

lemma sandbox_tests:
  "test_platform_sandbox_type linux" "test_create_sandbox linux" "test_activate_sandbox linux"
  "test_network_blocked linux" "test_exec_blocked linux" "test_network_allowed_config linux"
  "test_seccomp_config_blocks_dangerous_syscalls" "test_seccomp_config_allows_io" "test_verify_host_isolation linux"
  by (simp_all add: test_platform_sandbox_type_def test_create_sandbox_def test_activate_sandbox_def
      test_network_blocked_def test_exec_blocked_def test_network_allowed_config_def
      test_seccomp_config_blocks_dangerous_syscalls_def test_seccomp_config_allows_io_def
      test_verify_host_isolation_def platform_sandbox_type_def Sandbox_new_def sandbox_is_active_def activate_def
      activate_seccomp_ok activate_cgroups_def assert_or_panic_def SandboxConfig_default_def SeccompConfig_default_def
      is_network_blocked_def is_exec_blocked_def verify_host_isolation_def word_less_nat_alt word_le_nat_alt)

section \<open>shard_store.rs\<close>

text \<open>
  \<open>TempDir::new\<close> gives an empty directory \<open>base\<close> of the file system \<open>fs\<close>.  No system call fails in
  a test; \<open>t\<close> and \<open>u\<close> are the time stamps.
\<close>

definition tmp_dir :: "crypto \<Rightarrow> path \<Rightarrow> file_system \<Rightarrow> bool" where
  "tmp_dir cr base fs \<longleftrightarrow> store_ok cr base fs \<and> set (prefixes base) \<subseteq> set (fs_dirs fs) \<and>
     (\<forall>q. length base < length q \<and> take (length base) q = base \<longrightarrow> \<not> fs_exists fs q)"

definition make_chunk_id :: "crypto \<Rightarrow> string \<Rightarrow> ChunkId" where
  "make_chunk_id cr data = ChunkId_new cr (as_bytes data)"

definition no_fault :: io where
  "no_fault p = NoFault"

definition test_store_and_retrieve_shard :: "crypto \<Rightarrow> meta_api \<Rightarrow> path \<Rightarrow> file_system \<Rightarrow> string \<Rightarrow> string \<Rightarrow> bool" where
  "test_store_and_retrieve_shard cr M base fs t u =
     unwrap_mut (ShardStore_new no_fault base fs) (\<lambda>fs store.
       let chunk_id = make_chunk_id cr ''test_chunk_data''; data = replicate 1024 0xAB
       in unwrap_mut (store_shard cr M no_fault t u store chunk_id (ShardIndex 0) data fs) (\<lambda>fs _.
          unwrap (retrieve_shard cr M store chunk_id (ShardIndex 0) fs) (\<lambda>retrieved. data = retrieved)))"

definition test_shard_exists :: "crypto \<Rightarrow> meta_api \<Rightarrow> path \<Rightarrow> file_system \<Rightarrow> string \<Rightarrow> string \<Rightarrow> bool" where
  "test_shard_exists cr M base fs t u =
     unwrap_mut (ShardStore_new no_fault base fs) (\<lambda>fs store.
       let chunk_id = make_chunk_id cr ''exists_test''
       in \<not> shard_exists cr store chunk_id (ShardIndex 0) fs \<and>
          unwrap_mut (store_shard cr M no_fault t u store chunk_id (ShardIndex 0) [1, 2, 3] fs) (\<lambda>fs _.
            shard_exists cr store chunk_id (ShardIndex 0) fs))"

definition test_delete_shard :: "crypto \<Rightarrow> meta_api \<Rightarrow> path \<Rightarrow> file_system \<Rightarrow> string \<Rightarrow> string \<Rightarrow> bool" where
  "test_delete_shard cr M base fs t u =
     unwrap_mut (ShardStore_new no_fault base fs) (\<lambda>fs store.
       let chunk_id = make_chunk_id cr ''delete_test''
       in unwrap_mut (store_shard cr M no_fault t u store chunk_id (ShardIndex 0) [1, 2, 3] fs) (\<lambda>fs _.
            shard_exists cr store chunk_id (ShardIndex 0) fs \<and>
            unwrap_mut (delete_shard cr no_fault store chunk_id (ShardIndex 0) fs) (\<lambda>fs _.
              \<not> shard_exists cr store chunk_id (ShardIndex 0) fs)))"

definition test_retrieve_nonexistent_fails :: "crypto \<Rightarrow> meta_api \<Rightarrow> path \<Rightarrow> file_system \<Rightarrow> bool" where
  "test_retrieve_nonexistent_fails cr M base fs =
     unwrap_mut (ShardStore_new no_fault base fs) (\<lambda>fs store.
       let chunk_id = make_chunk_id cr ''nonexistent''; res = retrieve_shard cr M store chunk_id (ShardIndex 0) fs
       in is_err res)"

definition test_integrity_check_tampered_shard ::
  "crypto \<Rightarrow> meta_api \<Rightarrow> path \<Rightarrow> file_system \<Rightarrow> string \<Rightarrow> string \<Rightarrow> bool" where
  "test_integrity_check_tampered_shard cr M base fs t u =
     unwrap_mut (ShardStore_new no_fault base fs) (\<lambda>fs store.
       let chunk_id = make_chunk_id cr ''integrity_test''; data = replicate 1024 0xAB
       in unwrap_mut (store_shard cr M no_fault t u store chunk_id (ShardIndex 0) data fs) (\<lambda>fs _.
          let p = shard_path cr store chunk_id (ShardIndex 0)
          in unwrap (fs_read p fs) (\<lambda>tampered.
             let tampered = tampered[0 := tampered ! 0 XOR 0xFF]
             in unwrap_mut (fs_write no_fault p tampered fs) (\<lambda>fs _.
                is_err (retrieve_shard cr M store chunk_id (ShardIndex 0) fs)))))"

definition test_list_chunks :: "crypto \<Rightarrow> meta_api \<Rightarrow> path \<Rightarrow> file_system \<Rightarrow> (nat \<Rightarrow> string) \<Rightarrow> bool" where
  "test_list_chunks cr M base fs t =
     unwrap_mut (ShardStore_new no_fault base fs) (\<lambda>fs store.
     unwrap_mut (store_shard cr M no_fault (t 0) (t 1) store (make_chunk_id cr ''chunk1'') (ShardIndex 0) [1] fs) (\<lambda>fs _.
     unwrap_mut (store_shard cr M no_fault (t 2) (t 3) store (make_chunk_id cr ''chunk2'') (ShardIndex 0) [2] fs) (\<lambda>fs _.
       unwrap (list_chunks cr store fs) (\<lambda>chunks. length chunks = 2))))"

lemma new_store:
  assumes "tmp_dir cr base fs"
  shows "ShardStore_new no_fault base fs = (fs, Inr base)"
proof -
  have "filter (\<lambda>q. q \<notin> set (fs_dirs fs)) (prefixes base) = []"
    using assms by (auto simp: tmp_dir_def filter_empty_conv)
  with assms show ?thesis
    by (simp add: ShardStore_new_def create_dir_all_def fs_then_def no_fault_def tmp_dir_def store_ok_def)
qed

text \<open>Nothing is below the empty directory.\<close>

lemma tmp_empty:
  assumes "tmp_dir cr base fs"
  shows "\<not> fs_exists fs (chunk_directory cr base c)" and "\<not> fs_exists fs (shard_path cr base c i)"
  using assms by (simp_all add: tmp_dir_def chunk_directory_def shard_path_def)

lemma stored_test:
  assumes "meta_laws M" and "store_ok cr base fs"
    and "k (fst (store_shard cr M (\<lambda>_. NoFault) t u base c i data fs)) (new_meta cr t u c i data)"
  shows "unwrap_mut (store_shard cr M no_fault t u base c i data fs) k"
  using store_succeeds [OF assms(1,2), of t u c i data] assms(3)
  by (simp add: unwrap_mut_def no_fault_def [abs_def])

lemma exists_if_retrieved: "retrieve_shard cr M base c i fs = Inr d \<Longrightarrow> shard_exists cr base c i fs"
  by (auto simp: retrieve_shard_def fs_read_def shard_exists_def fs_exists_def fs_is_file_def result_simps
      split: option.splits)

lemma deleted_test:
  assumes "crypto_laws cr" and "store_ok cr base fs"
  shows "unwrap_mut (delete_shard cr no_fault base c i fs) (\<lambda>fs _. \<not> shard_exists cr base c i fs)"
proof -
  let ?r = "delete_shard cr (\<lambda>_. NoFault) base c i fs"
  note del = delete_files [OF assms(2,1), of c i]
  have "\<not> fs_is_dir (fst ?r) (shard_path cr base c i)"
    using assms(2) by (simp add: fs_is_dir_def delete_dirs store_ok_def)
  with del(2) have "\<not> shard_exists cr base c i (fst ?r)"
    by (simp add: shard_exists_def fs_exists_def fs_is_file_def shard_files_def)
  with del(1) show ?thesis by (simp add: unwrap_mut_def no_fault_def [abs_def])
qed

lemma shard_store_tests:
  assumes "crypto_laws cr" and "meta_laws M" and "tmp_dir cr base fs"
  shows "test_store_and_retrieve_shard cr M base fs t u" and "test_shard_exists cr M base fs t u"
    and "test_delete_shard cr M base fs t u" and "test_retrieve_nonexistent_fails cr M base fs"
proof -
  have ok: "store_ok cr base fs" using assms(3) by (simp add: tmp_dir_def)
  note new = new_store [OF assms(3)] and get = retrieve_stored [OF assms(1,2) ok]
  note ok' = store_ok_store [OF assms(2) ok]
  show "test_store_and_retrieve_shard cr M base fs t u"
    unfolding test_store_and_retrieve_shard_def new unwrap_simps Let_def
    by (rule stored_test [OF assms(2) ok]) (simp add: get)
  have stored: "shard_exists cr base c i (fst (store_shard cr M (\<lambda>_. NoFault) t u base c i data fs))" for c i data
    by (rule exists_if_retrieved [where M = M and d = data]) (simp add: get)
  show "test_shard_exists cr M base fs t u"
    unfolding test_shard_exists_def new unwrap_simps Let_def
    using tmp_empty(2) [OF assms(3)] by (intro conjI stored_test [OF assms(2) ok] stored) (simp add: shard_exists_def)
  show "test_delete_shard cr M base fs t u"
    unfolding test_delete_shard_def new unwrap_simps Let_def
    by (intro conjI stored_test [OF assms(2) ok] stored deleted_test [OF assms(1) ok'])
  show "test_retrieve_nonexistent_fails cr M base fs"
    using tmp_empty(2) [OF assms(3)]
    by (simp add: test_retrieve_nonexistent_fails_def new retrieve_shard_def fs_read_def fs_exists_def fs_is_file_def)
qed

text \<open>The damage is seen unless the hashes collide.\<close>

lemma tampered_shard_test:
  assumes "crypto_laws cr" and "meta_laws M" and "tmp_dir cr base fs"
    and "blake3 cr (replicate 1024 0xAB) \<noteq> blake3 cr ((replicate 1024 0xAB)[0 := 0xAB XOR 0xFF])"
  shows "test_integrity_check_tampered_shard cr M base fs t u"
proof -
  have ok: "store_ok cr base fs" using assms(3) by (simp add: tmp_dir_def)
  let ?c = "make_chunk_id cr ''integrity_test''" and ?i = "ShardIndex 0" and ?d = "replicate 1024 (0xAB :: byte)"
  let ?fs = "fst (store_shard cr M (\<lambda>_. NoFault) t u base ?c ?i ?d fs)"
  let ?w = "fs_write (\<lambda>_. NoFault) (shard_path cr base ?c ?i) (?d[0 := 0xAB XOR 0xFF]) ?fs"
  obtain json where json: "m_print M (new_meta cr t u ?c ?i ?d) = Inr json"
    using assms(2) by (auto simp: meta_laws_def)
  obtain d0 j0 where "shard_files cr base ?c ?i fs = (d0, j0)" by fastforce
  from store_shard_self [OF assms(1) json prod.collapse [symmetric] this, of "\<lambda>_. NoFault"]
  have files: "shard_files cr base ?c ?i ?fs = (Some ?d, Some json)"
    using store_succeeds [OF assms(2) ok, of t u ?c ?i ?d] by simp
  have ok': "store_ok cr base ?fs" by (rule store_ok_store [OF assms(2) ok])
  have "fs_is_file ?fs (shard_path cr base ?c ?i)"
    using files by (simp add: fs_is_file_def shard_files_def)
  with ok' have "fs_is_dir ?fs (chunk_directory cr base ?c)"
    by (force simp: store_ok_def fs_inv_def)
  with ok' have w: "snd ?w = Inr ()" by (intro fs_write_ok) (simp_all add: store_ok_def)
  have "meta_path cr base ?c ?i \<noteq> shard_path cr base ?c ?i" using path_inject(3) [OF assms(1)] by metis
  with files have "shard_files cr base ?c ?i (fst ?w) = (Some (?d[0 := 0xAB XOR 0xFF]), Some json)"
    using fs_write_self [OF w] by (simp add: shard_files_def fs_write_other)
  with read_files_new [OF assms(2) json] assms(4)
  have "is_err (retrieve_shard cr M base ?c ?i (fst ?w))"
    by (simp add: retrieve_shard_files hex_encode_inject [OF assms(1)] del: list_update.simps)
  moreover have "fs_read (shard_path cr base ?c ?i) ?fs = Inr ?d"
    using files by (simp add: fs_read_def shard_files_def)
  ultimately show ?thesis
    unfolding test_integrity_check_tampered_shard_def new_store [OF assms(3)] unwrap_simps Let_def
    using w by (intro stored_test [OF assms(2) ok]) (simp add: unwrap_mut_def no_fault_def [abs_def])
qed

text \<open>The directories after storing a shard of a chunk that was not there.\<close>

lemma store_new_chunk:
  assumes "meta_laws M" and "store_ok cr base fs" and "set (prefixes base) \<subseteq> set (fs_dirs fs)"
  shows "fs_dirs (fst (store_shard cr M (\<lambda>_. NoFault) t u base c i data fs)) =
    fs_dirs fs @ (if chunk_directory cr base c \<in> set (fs_dirs fs) then [] else [chunk_directory cr base c])"
proof -
  from assms(1) obtain json where json: "m_print M (new_meta cr t u c i data) = Inr json"
    by (auto simp: meta_laws_def)
  have "filter (\<lambda>q. q \<notin> set (fs_dirs fs)) (prefixes base) = []"
    using assms(3) by (auto simp: filter_empty_conv)
  with assms(2) show ?thesis
    unfolding store_dirs [OF json] chunk_directory_def create_dir_all_def prefixes_snoc
    by (auto simp: store_ok_def chunk_directory_def)
qed

lemma chunk_names_map:
  assumes "crypto_laws cr" and "\<forall>c \<in> set cs. ChunkId_valid c"
  shows "chunk_names cr (map (\<lambda>c. (ChunkId_as_hex cr c, True)) cs @ map (\<lambda>f. (g f, False)) fs) = cs"
proof -
  have "chunk_names cr (map (\<lambda>f. (g f, False)) fs) = []" by (induction fs) simp_all
  with assms show ?thesis by (induction cs) (simp_all add: ChunkId_hex_roundtrip)
qed

text \<open>Two chunks are listed when their identifiers differ.\<close>

lemma list_chunks_test:
  assumes "crypto_laws cr" and "meta_laws M" and "tmp_dir cr base fs"
    and "blake3 cr (as_bytes ''chunk1'') \<noteq> blake3 cr (as_bytes ''chunk2'')"
  shows "test_list_chunks cr M base fs t"
proof -
  let ?c = "make_chunk_id cr ''chunk1''" and ?d = "make_chunk_id cr ''chunk2''" and ?i = "ShardIndex 0"
  let ?fs1 = "fst (store_shard cr M (\<lambda>_. NoFault) (t 0) (t 1) base ?c ?i [1] fs)"
  let ?fs2 = "fst (store_shard cr M (\<lambda>_. NoFault) (t 2) (t 3) base ?d ?i [2] ?fs1)"
  have ok: "store_ok cr base fs" and pre: "set (prefixes base) \<subseteq> set (fs_dirs fs)"
    using assms(3) by (simp_all add: tmp_dir_def)
  have ok1: "store_ok cr base ?fs1" and ok2: "store_ok cr base ?fs2"
    by (intro store_ok_store [OF assms(2)] ok)+
  have neq: "?c \<noteq> ?d" and valid: "ChunkId_valid ?c" "ChunkId_valid ?d"
    using assms(1,4) by (simp_all add: make_chunk_id_def ChunkId_new_def ChunkId_valid_def)
  have none: "chunk_directory cr base c \<notin> set (fs_dirs fs)" for c
    using tmp_empty(1) [OF assms(3), of c] by (simp add: fs_exists_def fs_is_dir_def)
  have dirs1: "fs_dirs ?fs1 = fs_dirs fs @ [chunk_directory cr base ?c]"
    using store_new_chunk [OF assms(2) ok pre] none by simp
  have "chunk_directory cr base ?d \<noteq> chunk_directory cr base ?c"
    using neq ChunkId_as_hex_inject [OF assms(1)] by (auto simp: chunk_directory_def)
  moreover have "set (prefixes base) \<subseteq> set (fs_dirs ?fs1)" using pre unfolding dirs1 by auto
  ultimately have dirs: "fs_dirs ?fs2 = fs_dirs fs @ [chunk_directory cr base ?c, chunk_directory cr base ?d]"
    using store_new_chunk [OF assms(2) ok1, of "t 2" "t 3" ?d ?i "[2]"] none unfolding dirs1 by simp
  have "filter (\<lambda>d. d \<noteq> [] \<and> butlast d = base) (fs_dirs fs) = []"
  proof (unfold filter_empty_conv, intro ballI notI)
    fix d assume d: "d \<in> set (fs_dirs fs)" "d \<noteq> [] \<and> butlast d = base"
    then have "d = base @ [last d]" by (metis append_butlast_last_id)
    then have "length base < length d" "take (length base) d = base" by (metis append_eq_conv_conj length_append_singleton lessI)+
    with d(1) assms(3) show False by (auto simp: tmp_dir_def fs_exists_def fs_is_dir_def)
  qed
  then have "map (\<lambda>d. (last d, True)) (filter (\<lambda>d. d \<noteq> [] \<and> butlast d = base) (fs_dirs ?fs2)) =
      map (\<lambda>c. (ChunkId_as_hex cr c, True)) [?c, ?d]"
    unfolding dirs by (simp add: chunk_directory_def)
  moreover have "list_chunks cr base ?fs2 = Inr (chunk_names cr
      (map (\<lambda>d. (last d, True)) (filter (\<lambda>d. d \<noteq> [] \<and> butlast d = base) (fs_dirs ?fs2)) @
       map (\<lambda>f. (last (fst f), False)) (filter (\<lambda>(f, _). f \<noteq> [] \<and> butlast f = base) (fs_files ?fs2))))"
    using ok2 by (simp add: list_chunks_def fs_read_dir_def fs_exists_def store_ok_def case_prod_unfold)
  ultimately have "list_chunks cr base ?fs2 = Inr [?c, ?d]"
    using chunk_names_map [OF assms(1), of "[?c, ?d]"] valid by (simp only: list.set ball_simps) simp
  then show ?thesis
    unfolding test_list_chunks_def new_store [OF assms(3)] unwrap_simps
    by (intro stored_test [OF assms(2)] ok ok1) simp
qed

end
