(* ===== verification/Spec2Isabelle.thy ===== *)
theory Spec2Isabelle
  imports MerkleProofs Padding DataPath Account Subscription SyncRound Repair
    ShardProofs Host Entry KeyTypes CoreTests BillingTests LedgerTests P2pTests StorageTests
begin

text \<open>
  VaultKeeper P2P is a distributed storage network written in Rust.  A client cuts a file into
  4 MiB chunks, encrypts them, adds erasure-coded parity and spreads the shards over hosts; the
  network replicates them, watches over its peers and challenges hosts to prove what they store;
  a ledger records the payments, which a tariff, an account and a subscription determine.  This
  development translates the crates core, billing, ledger, p2p, storage and cli, and the commands
  of the desktop application, into HOL and proves what makes them correct or, in places, how far
  they are from it.

  \<^bold>\<open>How the parts interact.\<close>  The core crate has no state.  The ledger uses the hash of the
  core and keeps its rows in tables; the sync manager of the ledger asks the tables of a peer
  and resolves conflicts.  The account of the billing crate owns a freeze manager, and the
  subscription's tiers give weights that the p2p crate turns into the priority of messages.
  The p2p node owns a message queue and a heartbeat manager.  The reports of dead peers are what
  the replication manager of the storage crate is made to consume, and the answers of a peer's
  ledger what the sync manager is made to process; no code connects these yet (the theories Repair
  and SyncRound specify the connections and prove what they do), and none calls the set of
  seen messages.  The
  shard store keeps the shards of the core on the file system of a host.  The commands of the
  daemon put a node together: \<open>init\<close> writes its configuration, \<open>start\<close> opens the p2p node, the
  ledger, an account and the shard store and then serves HTTP requests; the other commands use
  the core directly.

  \<^bold>\<open>Theories.\<close>
  \<^item> Prelude: Rust results (\<open>rust_error + 'a\<close>) and panics (\<open>None\<close>), slices, fixed-width integers
    and hash maps.  A \<open>HashMap\<close> is an association list with distinct keys in any order: the order
    stands for the iteration order that the standard library leaves open, so what is proved for
    all lists holds for every order.  The locale \<open>kv_map\<close> is the contract of a map, interpreted
    for the hash maps as \<open>hm\<close>.
  \<^item> CoreTypes (core/src/types.rs), Chunking (core/src/chunking.rs), Padding (core/src/padding.rs),
    Erasure and ErasureProofs (core/src/erasure.rs), LevelReduction, Merkle and MerkleProofs
    (core/src/merkle.rs).  LevelReduction holds the locale of the loop that halves a list of
    hashes until one is left; core/src/merkle.rs and ledger/src/store.rs each write it out, and
    each is an interpretation (\<open>core\<close> and \<open>ledger\<close>), which is how their roots are compared.
  \<^item> Strings (the functions of \<open>str\<close> in use: trimming, searching, decoding UTF-8), Encryption
    (core/src/encryption.rs), Recovery (core/src/bip39_recovery.rs), KeyTypes (the typing
    invariant of the arrays that these operations make and take), and DataPath, which
    composes chunking, encryption, erasure coding and the shard stores of the hosts in the order
    of docs/ARCHITECTURE.md: its \<open>chunk_shards\<close>, \<open>collect_shards\<close> and \<open>read_chunk\<close> are a
    specification, since the program has the parts and does not call them together yet.
  \<^item> Decimal (the money type), Billing (billing/src/rates.rs, types.rs and calculator.rs), Clock
    (time), Freeze (freeze.rs; the locale \<open>lifecycle\<close>, interpreted as \<open>fz\<close>), Account (account.rs)
    and Subscription (subscription.rs).
  \<^item> LedgerStore (ledger/src/schema.rs and store.rs: each SQL statement is a function on the
    tables of \<open>LedgerDb\<close>), LedgerProofs (the invariant, and the locale \<open>entry_log\<close> of an
    append-only log, interpreted as \<open>elog\<close>), Conflict (conflict.rs), GossipSync (gossip_sync.rs) and
    SyncRound, which composes a round of synchronisation between two peers from them.
  \<^item> Gossip (p2p/src/message.rs and gossip.rs; the locale \<open>priority_queue\<close>, interpreted as \<open>gq\<close>),
    Heartbeat (heartbeat.rs), Identity (\<open>generate_identity\<close> and \<open>build_transport\<close> of behaviour.rs),
    Node (config.rs, behaviour.rs, discovery.rs, challenge.rs, node.rs).
  \<^item> Replication (storage/src/replication.rs), Repair (the reports of the heartbeat manager handed to
    the replication manager; the locale \<open>shard_tracker\<close>, interpreted as \<open>tracker\<close>), FileSystem (the part of \<open>std::fs\<close> in use), ShardStore,
    SampleMeta and ShardProofs (shard_store.rs; the locale \<open>shard_contract\<close>, interpreted as
    \<open>shards\<close>), Float64 (\<open>f64\<close> values rounded to 53 bits), Host (disk.rs and sandbox.rs).
  \<^item> Api (cli/src/api.rs), DaemonConfig (cli/src/config.rs), Commands and CommandProofs
    (cli/src/commands.rs; \<open>daemon_env\<close> holds everything a command takes from outside), Entry
    (cli/src/main.rs, tauri/src-tauri/src/lib.rs and main.rs).  SampleCodes and SampleConfig hold the
    concrete file formats of the witnesses.
  \<^item> CoreTests, BillingTests, LedgerTests, P2pTests and StorageTests: the tests that stand beside
    the code, as predicates over what they take from outside (UnitTest explains how).

  \<^bold>\<open>How code becomes definitions.\<close>  A struct is a record, an enum a datatype, both with the names
  of the source; a method with \<open>&mut self\<close> takes the record and returns the new one.  \<open>u32\<close> and
  \<open>u64\<close> values are words and wrap around, as a release build does; \<open>usize\<close> counters are words
  where the source computes with them, and natural numbers where they are the length of
  something that is in memory.  An error is \<open>Inl (Err s)\<close> with the literal text of the source,
  without the values formatted into it; a panic is \<open>Inl Panic\<close>, or \<open>None\<close> for an operation
  that returns no \<open>Result\<close>.  Strings
  are lists of characters, byte strings lists of 8-bit words.  Readings of the clock, random
  bytes and UUIDs are arguments of the operation that draws them.  Logging is left out.

  \<^bold>\<open>Code outside the repository\<close> is an argument of the definitions that use it, and what its
  documentation promises is a named predicate that theorems assume; each predicate is satisfied
  by a concrete instance with which the witnesses compute.
  \<^item> \<open>crypto\<close> with \<open>crypto_laws\<close>: BLAKE3 digests have 32 bytes, hex decoding inverts encoding.
    Collisions are not excluded: where a result depends on them, the theorem names the strings.
  \<^item> \<open>choose_multiple\<close> of the rand crate is the argument \<open>pick\<close> with \<open>pick_laws\<close>: it returns as many
    different elements of a list as it can.
  \<^item> \<open>rs_crate\<close> with \<open>rs_laws\<close>: any three of five shards determine the codeword.  The instance
    is a real code over the field with four elements.
  \<^item> \<open>aead_crate\<close> with \<open>aead_laws\<close>: decryption accepts exactly what encryption produces under the
    same key and nonce (RFC 8439); unforgeability is not assumed.  \<open>kdf_crate\<close> (Argon2) and
    \<open>bip39_crate\<close> with their laws: lengths of keys and seeds, the admissible numbers of words.
  \<^item> \<open>decimal_api\<close> with \<open>decimal_laws\<close>: an operation is exact when its result is a 96-bit integer
    scaled by at most 28 decimal digits.  Nothing is assumed of rounded results, so theorems on
    money name the number of decimal digits of the amounts.
  \<^item> \<open>chrono_api\<close> with \<open>chrono_laws\<close>: sums of dates inside \<open>date_limit\<close> do not overflow.
  \<^item> \<open>json_api\<close> (serde_json) with its laws, \<open>meta_api\<close> (the metadata format of a shard) and
    \<open>config_json\<close> (the configuration file) with the round trip of serialisation; reading a metadata file
    as text is part of its parsing.
  \<^item> libp2p: \<open>identity_api\<close> (key pairs and peer ids), \<open>transport_api\<close> (noise over TCP) and \<open>dht_api\<close>
    (Kademlia), where \<open>dht_laws\<close> says which protocol names are accepted; tauri as the function
    that runs the window.  The outcomes of writes to the file system, where every failure is possible.

  \<^bold>\<open>What the lemmas show.\<close>
  \<^item> Core: an inclusion path leads to the root, and what the extra node of \<open>proof\<close> does to it; a
    root binds the path but not the number of leaves; cutting and gluing are inverse; what
    the length header of a padded block does; any three shards give the data back; a file comes
    back from five hosts, two of them damaged for each chunk, if the lengths of the ciphertexts
    are known, and a full chunk only then; keys, nonces, salts and identifiers always have the
    lengths of their array types, and operations on them do not panic.
  \<^item> Billing: rates and splits are exact on stated ranges; the balance is the sum of the log; an
    active account is not in debt; which runs delete an account; what a tier change keeps.
  \<^item> Ledger: the tables are an append-only log numbered without gaps; the root agrees with the core
    tree; who wins a conflict and when two peers agree; what a round of
    synchronisation transfers, and that a missing entry never comes out of it.
  \<^item> P2P: the queue refines a bounded stable priority list; a silent peer is declared suspect and
    dead after a known number of ticks; which chunks have to be repaired after
    the reports; which leaves a storage challenge asks for, and what its proof does and does not
    check.
  \<^item> Storage: a chunk is replicated exactly if enough shards are held; after a death exactly the
    chunks to repair are reported; the shard store is a map under any faults of its writes to
    other shards, and where overwriting is not atomic; capacities add up.
  \<^item> Commands: what \<open>init\<close> writes is what \<open>status\<close> and \<open>start\<close> read, and what they do not use of
    it; \<open>keys generate\<close> never succeeds; the identifiers that \<open>upload\<close> prints; the HTTP server
    answers in order until a response cannot be written.
  \<^item> Tests: the model passes the tests beside the code, for all readings of the clocks and random
    sources or under a condition that the lemma states, with these exceptions: the inclusion
    proofs of trees with more than one leaf are rejected, no mnemonic is generated, a padded text
    does not come back, and an invalid bootstrap address is an error and not skipped.

  \<^bold>\<open>Bounds.\<close>  No definition needs fuel: the loops are structural or halve or shorten a list.
  The bounds in the statements come from the code: 10000 rows for an answer and 100000 for a
  root, \<open>2 ^ 32\<close> for the counters of missed heartbeats and for the days of a subscription that
  are cut to 32 bits, \<open>2 ^ 63\<close> for the row numbers of SQLite, and 96 bits for money.

  \<^bold>\<open>What is not modelled.\<close>  Failures of the SQLite engine on open tables, its file format (opening
  a database is the argument \<open>en_open_ledger\<close>) and concurrent connections to it; failures of reading files that exist (every write may fail); the inside of libp2p and its
  swarm, which the program never runs; the parser of the command line (clap), the window of the
  desktop application (tauri), its build script, and log messages.  A path with \<open>..\<close> is not
  resolved.  Seven of the tests beside the code are left out: three compute a rounded quotient of
  decimals (\<open>test_split_revenue_various_amounts\<close>, \<open>test_remaining_hours\<close>,
  \<open>test_change_tier_pro_rata\<close>), one asks for the names of the tables (\<open>test_init_schema\<close>), one
  for the length of a metadata file (\<open>test_total_size\<close>), and two of challenge.rs give a field a
  value of another type.
\<close>

section \<open>Properties\<close>

text \<open>
  C9: the data path, from a file to the hosts and back.  A key is derived from a password; each
  chunk of the file is encrypted under its own nonce, its ciphertext erasure-coded, and the
  i-th shard kept in the shard store of host i.  Then, for each chunk, at most two of the
  shards are damaged: lost, without metadata, or changed to data of another hash.  Asking all
  hosts still brings every chunk back, and the chunks glue to the file, provided that the
  length of each ciphertext is known.  Without it, and no format of the program keeps it, a chunk
  comes back exactly if 3 divides that length: a full chunk never does.  The chunks have to be
  different, because a shard is stored under the hash of the plain chunk.
\<close>

theorem data_path:
  assumes laws: "aead_laws A" "rs_laws R" "kdf_laws K" "crypto_laws cr" "meta_laws M"
    and key: "length salt = SALT_LEN" "length password < 2 ^ 32" "derive_key K password salt = Inr key"
    and rng: "\<forall>k. rng_fills (rng k)"
    and chunks: "chunks = chunk_data data" "distinct (map (ChunkId_new cr) chunks)"
    and shards: "\<forall>k < length chunks. chunk_shards A R (rng k) key (chunks ! k) = Inr (nonce k, shards k)"
    and kept: "\<forall>i < RS_TOTAL_SHARDS. store_ok cr base (host i) \<and>
      kept i = store_all cr M base
        (map (\<lambda>k. ((ChunkId_new cr (chunks ! k), ShardIndex i), shards k ! i)) [0..<length chunks]) (host i)"
    and damage: "\<forall>k < length chunks. \<forall>i < RS_TOTAL_SHARDS. detectable cr (shards k ! i)
        (shard_files cr base (ChunkId_new cr (chunks ! k)) (ShardIndex i) (kept i))
        (shard_files cr base (ChunkId_new cr (chunks ! k)) (ShardIndex i) (found i))"
      "\<forall>k < length chunks. card {i. i < RS_TOTAL_SHARDS \<and>
        shard_files cr base (ChunkId_new cr (chunks ! k)) (ShardIndex i) (found i) \<noteq>
        shard_files cr base (ChunkId_new cr (chunks ! k)) (ShardIndex i) (kept i)} \<le> 2"
    and sel: "\<forall>k < length chunks. sel k = collect_shards cr M base (ChunkId_new cr (chunks ! k)) found"
  shows "(\<forall>k < length chunks.
      read_chunk A R key (nonce k) (Some (length (chunks ! k) + TAG_LEN)) (sel k) = Inr (chunks ! k) \<and>
      (read_chunk A R key (nonce k) None (sel k) = Inr (chunks ! k) \<longleftrightarrow> 3 dvd (length (chunks ! k) + TAG_LEN)) \<and>
      (length (chunks ! k) = CHUNK_SIZE \<longrightarrow> read_chunk A R key (nonce k) None (sel k) \<noteq> Inr (chunks ! k))) \<and>
    assemble_chunks (map (\<lambda>k. projr (read_chunk A R key (nonce k)
      (Some (length (chunks ! k) + TAG_LEN)) (sel k))) [0..<length chunks]) = data"
proof -
  let ?id = "\<lambda>k. ChunkId_new cr (chunks ! k)"
  have "enough_shards (shards k) (sel k)" if k: "k < length chunks" for k
  proof -
    have "retrieve_shard cr M base (?id k) (ShardIndex i) (kept i) = Inr (shards k ! i)" if i: "i < RS_TOTAL_SHARDS" for i
    proof -
      let ?kvs = "map (\<lambda>k. ((?id k, ShardIndex i), shards k ! i)) [0..<length chunks]"
      have "map ?id [0..<length chunks] = map (ChunkId_new cr) chunks" by (rule nth_equalityI) simp_all
      with chunks(2) have "inj_on ?id {0..<length chunks}" by (metis distinct_map set_upt)
      then have "distinct (map fst ?kvs)" by (auto simp: o_def distinct_map inj_on_def)
      moreover have "((?id k, ShardIndex i), shards k ! i) \<in> set ?kvs" using k by auto
      ultimately show ?thesis using retrieve_store_all [OF laws(4,5)] kept i by simp
    qed
    with damage k have "enough_shards (shards k) (collect_shards cr M base (?id k) found)"
      by (intro collect_enough [OF laws(4), where kept = kept]) simp_all
    with sel k show ?thesis by simp
  qed
  with shards have "\<forall>k < length chunks. chunk_shards A R (rng k) key (chunks ! k) = Inr (nonce k, shards k) \<and>
      enough_shards (shards k) (sel k)" by simp
  from file_recovered [OF laws(1-3) key rng this [unfolded chunks(1)]] show ?thesis unfolding chunks(1) .
qed

theorem data_path_witness:
  "\<exists>key nonce shards found.
     derive_key sample_kdf ''secret'' (replicate 32 0) = Inr key \<and>
     chunk_shards sample_aead sample_rs (\<lambda>n. replicate n 7) key [1, 2, 3] = Inr (nonce, shards) \<and>
     found 0 = sample_fs \<and> found 3 = sample_fs \<and>
     read_chunk sample_aead sample_rs key nonce (Some 19)
       (collect_shards sample_crypto sample_meta [''data''] (ChunkId_new sample_crypto [1, 2, 3]) found) = Inr [1, 2, 3] \<and>
     read_chunk sample_aead sample_rs key nonce None
       (collect_shards sample_crypto sample_meta [''data''] (ChunkId_new sample_crypto [1, 2, 3]) found) \<noteq> Inr [1, 2, 3]"
proof -
  let ?rng = "\<lambda>n. replicate n (7 :: byte)" and ?cr = sample_crypto and ?c = "ChunkId_new sample_crypto [1, 2, 3]"
  have salt: "length (replicate 32 (0 :: byte)) = SALT_LEN" and pwd: "length ''secret'' < 2 ^ 32"
    by (simp_all add: SALT_LEN_def)
  obtain key where key: "derive_key sample_kdf ''secret'' (replicate 32 0) = Inr key" "key_ok key"
    by (rule derive_key_ok [OF sample_kdf_laws salt pwd])
  have rng: "rng_fills ?rng" by (simp add: rng_fills_def)
  have "length [1, 2, 3 :: byte] < AEAD_LIMIT" by (simp add: AEAD_LIMIT_def)
  from chunk_shards_total [OF sample_aead_laws sample_rs_laws rng key(2) this]
  obtain nonce shards where sh: "chunk_shards sample_aead sample_rs ?rng key [1, 2, 3] = Inr (nonce, shards)"
    by blast
  have cs: "[[1, 2, 3]] = chunk_data [1, 2, 3]"
    by (simp add: chunk_data_fixed fixed_chunks.simps CHUNK_SIZE_def)
  define kept where "kept i = store_all ?cr sample_meta [''data'']
      (map (\<lambda>k. ((ChunkId_new ?cr ([[1, 2, 3]] ! k), ShardIndex i), shards ! i)) [0..<length [[1, 2, 3 :: byte]]]) sample_fs" for i
  define found where "found i = (if i = 0 \<or> i = 3 then sample_fs else kept i)" for i
  have lost: "shard_files ?cr [''data''] ?c (ShardIndex i) sample_fs = (None, None)" for i
    by (simp add: shard_files_def sample_fs_def hm_get_def)
  let ?bad = "{i. i < RS_TOTAL_SHARDS \<and> shard_files ?cr [''data''] ?c (ShardIndex i) (found i) \<noteq>
      shard_files ?cr [''data''] ?c (ShardIndex i) (kept i)}"
  have "?bad \<subseteq> {0, 3}" by (auto simp: found_def)
  then have "card ?bad \<le> card {0, 3 :: nat}" by (rule card_mono [rotated]) simp
  then have few: "card ?bad \<le> 2" by simp
  have "detectable ?cr (shards ! i) (shard_files ?cr [''data''] ?c (ShardIndex i) (kept i))
      (shard_files ?cr [''data''] ?c (ShardIndex i) (found i))" for i
    by (simp add: detectable_def found_def lost)
  then have damage: "\<forall>k < length [[1, 2, 3 :: byte]]. \<forall>i < RS_TOTAL_SHARDS. detectable ?cr (shards ! i)
      (shard_files ?cr [''data''] (ChunkId_new ?cr ([[1, 2, 3]] ! k)) (ShardIndex i) (kept i))
      (shard_files ?cr [''data''] (ChunkId_new ?cr ([[1, 2, 3]] ! k)) (ShardIndex i) (found i))" by simp
  let ?sel = "collect_shards ?cr sample_meta [''data''] ?c found"
  have "read_chunk sample_aead sample_rs key nonce (Some 19) ?sel = Inr [1, 2, 3] \<and>
      read_chunk sample_aead sample_rs key nonce None ?sel \<noteq> Inr [1, 2, 3]"
    using data_path [OF sample_aead_laws sample_rs_laws sample_kdf_laws sample_crypto_laws sample_meta_laws
        salt pwd key(1) _ cs _ _ _ damage, where rng = "\<lambda>_. ?rng" and nonce = "\<lambda>_. nonce"
        and host = "\<lambda>_. sample_fs" and sel = "\<lambda>_. ?sel"] rng sh few sample_store_ok kept_def
    by (simp add: TAG_LEN_def)
  with key(1) sh show ?thesis
    by (intro exI [of _ key] exI [of _ nonce] exI [of _ shards] exI [of _ found]) (simp add: found_def)
qed

end
